(* ===== verification/Atf_Prelude.thy ===== *)
theory Atf_Prelude
  imports Main "HOL-Library.Word"
begin

unbundle bit_operations_syntax

text \<open>
  Shared vocabulary of the development: the C integer types as words, the
  reachability predicate of a state machine with the locale that turns an inductive
  invariant into a fact about every reachable state, and the lemmas on
  words and bounded loops that the component theories use.
\<close>

type_synonym u8 = "8 word"
type_synonym u16 = "16 word"
type_synonym u32 = "32 word"
type_synonym u64 = "64 word"

named_theorems word_nat \<open>facts that read a word expression as a natural number\<close>

subsection \<open>State machines\<close>

inductive reach :: "('s \<Rightarrow> bool) \<Rightarrow> ('s \<Rightarrow> 's \<Rightarrow> bool) \<Rightarrow> 's \<Rightarrow> bool"
  for start :: "'s \<Rightarrow> bool" and step :: "'s \<Rightarrow> 's \<Rightarrow> bool" where
  reach_start: "start s \<Longrightarrow> reach start step s"
| reach_step: "reach start step s \<Longrightarrow> step s t \<Longrightarrow> reach start step t"

text \<open>
  The contract of an inductive invariant: the start states satisfy it and every
  step keeps it. Each state machine of the development interprets this locale with its own
  start states, steps and invariant.
\<close>

locale inductive_invariant =
  fixes start :: "'s \<Rightarrow> bool"
    and step :: "'s \<Rightarrow> 's \<Rightarrow> bool"
    and inv :: "'s \<Rightarrow> bool"
  assumes inv_start: "start s \<Longrightarrow> inv s"
    and inv_step: "inv s \<Longrightarrow> step s t \<Longrightarrow> inv t"
begin

lemma inv_reach: "reach start step s \<Longrightarrow> inv s"
  by (induction rule: reach.induct) (auto intro: inv_start inv_step)

lemma inv_run: "inv s \<Longrightarrow> step\<^sup>*\<^sup>* s t \<Longrightarrow> inv t"
  by (erule rtranclp_induct) (auto intro: inv_step)

end

lemma reach_trans: "reach st r s \<Longrightarrow> r\<^sup>*\<^sup>* s t \<Longrightarrow> reach st r t"
  by (erule rtranclp_induct) (auto intro: reach_step)

subsection \<open>Words\<close>

lemma unat_and_mask [word_nat]: "unat ((w :: 'a :: len word) AND mask n) = unat w mod 2 ^ n"
proof -
  have "unat (take_bit n w) = take_bit n (unat w)"
    by (simp add: unsigned_take_bit_eq)
  then show ?thesis by (simp only: take_bit_eq_mask [where 'a = "'a word"] take_bit_eq_mod [where 'a = nat])
qed

lemma unat_drop_bit_div [word_nat]: "unat (drop_bit n w) = unat w div 2 ^ n"
  by (simp add: unat_drop_bit_eq drop_bit_eq_div [where 'a = nat])

lemma unat_2p [word_nat]: "n < LENGTH('a) \<Longrightarrow> unat (2 ^ n :: 'a :: len word) = 2 ^ n"
proof -
  assume "n < LENGTH('a)"
  then have "(2 :: nat) ^ n < 2 ^ LENGTH('a)" by simp
  then have "unat (of_nat (2 ^ n) :: 'a word) = 2 ^ n" by (simp only: unat_of_nat mod_less)
  then show ?thesis by simp
qed

lemma unat_push_bit_1 [word_nat]: "n < LENGTH('a) \<Longrightarrow> unat (push_bit n (1 :: 'a :: len word)) = 2 ^ n"
  by (simp add: push_bit_eq_mult unat_2p)

lemma unat_add_less: "unat (a :: 'a :: len word) + unat b < 2 ^ LENGTH('a) \<Longrightarrow> unat (a + b) = unat a + unat b"
  by (simp add: unat_add_lem)

lemma unat_sub_le: "unat (b :: 'a :: len word) \<le> unat a \<Longrightarrow> unat (a - b) = unat a - unat b"
  by (simp add: unat_sub word_le_nat_alt)

lemma unat_pred: "0 < unat (a :: 'a :: len word) \<Longrightarrow> unat (a - 1) = unat a - 1"
  using unat_sub_le [of 1 a] by simp

lemma unat_ucast_mod: "unat (ucast (x :: 'a :: len word) :: 'b :: len word) = unat x mod 2 ^ LENGTH('b)"
  by (simp add: unsigned_ucast_eq take_bit_eq_mod [where 'a = nat])

lemma unat_ucast_up: "LENGTH('a) \<le> LENGTH('b) \<Longrightarrow> unat (ucast (x :: 'a :: len word) :: 'b :: len word) = unat x"
  using order_less_le_trans [OF unsigned_less [where 'a = nat, of x], of "2 ^ LENGTH('b)"]
  by (simp add: unat_ucast_mod power_increasing)

end
