(* ===== verification/Bakery_Lock.thy ===== *)
theory Bakery_Lock
  imports Atf_Prelude
begin

unbundle bit_operations_syntax

text \<open>
  The bakery lock of \<^verbatim>\<open>src/atf-marvell/lib/locks/bakery/bakery_lock_normal.c\<close>, the lock that
  serialises PSCI state coordination on this platform (the build sets
  \<^verbatim>\<open>USE_COHERENT_MEM=0\<close>). The macros of \<^verbatim>\<open>include/lib/bakery_lock.h\<close> are words of their C width.
  One CPU's run through \<^verbatim>\<open>bakery_lock_get\<close> and \<^verbatim>\<open>bakery_lock_release\<close> is cut at every access
  to the shared \<^verbatim>\<open>lock_data\<close> half-words, which are single-copy atomic; the CPUs interleave
  freely between those accesses. A CPU whose busy-wait condition holds has no step. Cache maintenance
  (\<^verbatim>\<open>read_cache_op\<close>, \<^verbatim>\<open>write_cache_op\<close>) makes each access see memory and has no effect of its own in the model.
\<close>

subsection \<open>Lock data and priorities\<close>

definition bakery_is_choosing :: "u16 \<Rightarrow> bool" where
  "bakery_is_choosing info \<longleftrightarrow> info AND 1 \<noteq> 0"

definition bakery_ticket_number :: "u16 \<Rightarrow> u32" where
  "bakery_ticket_number info = drop_bit 1 (ucast info) AND 0x7FFF"

definition make_bakery_data :: "u32 \<Rightarrow> u32 \<Rightarrow> u16" where
  "make_bakery_data choosing number = ucast (((choosing AND 1) OR push_bit 1 number) AND 0xFFFF)"

definition PRIORITY :: "u32 \<Rightarrow> nat \<Rightarrow> u32" where
  "PRIORITY t pos = push_bit 8 t OR of_nat pos"

definition CHOOSING_TICKET :: u32 where "CHOOSING_TICKET = 1"
definition CHOSEN_TICKET :: u32 where "CHOSEN_TICKET = 0"

lemma ticket_number_choosing: "bakery_ticket_number (make_bakery_data CHOOSING_TICKET 0) = 0"
  by (simp add: bakery_ticket_number_def make_bakery_data_def CHOOSING_TICKET_def)

lemma ticket_number_chosen:
  "bakery_ticket_number (make_bakery_data CHOSEN_TICKET n) = n AND 0x7FFF"
proof (rule bit_word_eqI)
  fix i assume "i < LENGTH(32)"
  have m: "(0x7FFF :: u32) = mask 15" "(0xFFFF :: u32) = mask 16" by (simp_all add: mask_eq_exp_minus_1)
  show "bit (bakery_ticket_number (make_bakery_data CHOSEN_TICKET n)) i = bit (n AND 0x7FFF) i"
    unfolding bakery_ticket_number_def make_bakery_data_def CHOSEN_TICKET_def m
    by (auto simp: bit_simps simp del: push_bit_Suc drop_bit_Suc)
qed

lemma choosing_choosing: "bakery_is_choosing (make_bakery_data CHOOSING_TICKET n)"
proof -
  have "bit (make_bakery_data CHOOSING_TICKET n AND 1) 0"
    by (simp add: make_bakery_data_def CHOOSING_TICKET_def bit_simps)
  then show ?thesis by (auto simp: bakery_is_choosing_def)
qed
lemma choosing_chosen: "\<not> bakery_is_choosing (make_bakery_data CHOSEN_TICKET n)"
proof -
  have "make_bakery_data CHOSEN_TICKET n AND 1 = 0"
    by (rule bit_word_eqI) (auto simp: make_bakery_data_def CHOSEN_TICKET_def bit_simps simp del: push_bit_Suc drop_bit_Suc)
  then show ?thesis by (simp add: bakery_is_choosing_def)
qed
lemma unat_PRIORITY: "unat t \<le> 2 ^ 15 \<Longrightarrow> p < 256 \<Longrightarrow> unat (PRIORITY t p) = unat t * 256 + p"
proof -
  assume t: "unat t \<le> 2 ^ 15" and p: "p < 256"
  have "push_bit 8 t AND of_nat p = 0"
  proof (rule bit_word_eqI)
    fix i assume "i < LENGTH(32)"
    have "take_bit 8 p = p" using p by (simp add: take_bit_nat_eq_self_iff)
    then have "bit p i \<Longrightarrow> i < 8" by (metis bit_take_bit_iff)
    then show "bit (push_bit 8 t AND of_nat p) i = bit (0 :: u32) i"
      by (auto simp: bit_simps bit_of_nat_iff_bit)
  qed
  then have "PRIORITY t p = push_bit 8 t + of_nat p"
    by (simp only: PRIORITY_def disjunctive_add_eq_or)
  also have "\<dots> = of_nat (unat t * 256 + p)"
    by (simp add: push_bit_eq_mult)
  finally have "PRIORITY t p = of_nat (unat t * 256 + p)" .
  moreover have "unat t * 256 + p < 2 ^ LENGTH(32)" using t p by simp
  ultimately show ?thesis by (simp only: unat_of_nat mod_less)
qed

subsection \<open>The lock as a state machine\<close>

text \<open>
  Where a CPU is in the lock code, with the local variables live there: \<open>Scan they my_ticket\<close> in the
  loop of \<^verbatim>\<open>bakery_get_ticket\<close>, \<open>Check they my_ticket\<close> in the loop of \<^verbatim>\<open>bakery_lock_get\<close>
  before it reads the contender's data, \<open>Spin they my_ticket their_ticket\<close> in its inner wait loop,
  \<open>Locked\<close> between the return of \<^verbatim>\<open>bakery_lock_get\<close> and \<^verbatim>\<open>bakery_lock_release\<close>.
\<close>

datatype bakery_pc =
    Idle
  | Scan nat u32
  | Check nat u32
  | Spin nat u32 u32
  | Locked

record bakery =
  lock_data :: "nat \<Rightarrow> u16"
  pcs :: "nat \<Rightarrow> bakery_pc"

definition set_pc :: "nat \<Rightarrow> bakery_pc \<Rightarrow> bakery \<Rightarrow> bakery" where
  "set_pc me pc s = s\<lparr>pcs := (pcs s)(me := pc)\<rparr>"

definition set_lock_data :: "nat \<Rightarrow> u16 \<Rightarrow> bakery \<Rightarrow> bakery" where
  "set_lock_data me d s = s\<lparr>lock_data := (lock_data s)(me := d)\<rparr>"

definition bakery_get_ticket_enter :: "nat \<Rightarrow> bakery \<Rightarrow> bakery" where
  "bakery_get_ticket_enter me s =
     set_pc me (Scan 0 0) (set_lock_data me (make_bakery_data CHOOSING_TICKET 0) s)"

definition bakery_get_ticket_scan :: "nat \<Rightarrow> nat \<Rightarrow> nat \<Rightarrow> u32 \<Rightarrow> bakery \<Rightarrow> bakery" where
  "bakery_get_ticket_scan ncpu me they my_ticket s =
     (if they < ncpu then
        if me = they then set_pc me (Scan (Suc they) my_ticket) s
        else let their_ticket = bakery_ticket_number (lock_data s they)
             in set_pc me (Scan (Suc they)
                  (if their_ticket > my_ticket then their_ticket else my_ticket)) s
      else set_pc me (Check 0 (my_ticket + 1))
             (set_lock_data me (make_bakery_data CHOSEN_TICKET (my_ticket + 1)) s))"

definition bakery_lock_get_check ::
    "nat \<Rightarrow> nat \<Rightarrow> nat \<Rightarrow> u32 \<Rightarrow> bakery \<Rightarrow> bakery option" where
  "bakery_lock_get_check ncpu me they my_ticket s =
     (if they < ncpu then
        if me = they then Some (set_pc me (Check (Suc they) my_ticket) s)
        else let their_bakery_data = lock_data s they in
             if bakery_is_choosing their_bakery_data then None
             else let their_ticket = bakery_ticket_number their_bakery_data in
             if their_ticket \<noteq> 0 \<and> PRIORITY their_ticket they < PRIORITY my_ticket me
             then Some (set_pc me (Spin they my_ticket their_ticket) s)
             else Some (set_pc me (Check (Suc they) my_ticket) s)
      else Some (set_pc me Locked s))"

definition bakery_lock_get_spin ::
    "nat \<Rightarrow> nat \<Rightarrow> u32 \<Rightarrow> u32 \<Rightarrow> bakery \<Rightarrow> bakery option" where
  "bakery_lock_get_spin me they my_ticket their_ticket s =
     (if their_ticket = bakery_ticket_number (lock_data s they) then None
      else Some (set_pc me (Check (Suc they) my_ticket) s))"

definition bakery_lock_release :: "nat \<Rightarrow> bakery \<Rightarrow> bakery" where
  "bakery_lock_release me s = set_pc me Idle (set_lock_data me 0 s)"

text \<open>One step of CPU \<open>me\<close> on a machine with \<open>ncpu\<close> contenders; \<open>None\<close> while it busy-waits.\<close>

definition bakery_cpu_step :: "nat \<Rightarrow> nat \<Rightarrow> bakery \<Rightarrow> bakery option" where
  "bakery_cpu_step ncpu me s =
     (case pcs s me of
        Idle \<Rightarrow> Some (bakery_get_ticket_enter me s)
      | Scan they my_ticket \<Rightarrow> Some (bakery_get_ticket_scan ncpu me they my_ticket s)
      | Check they my_ticket \<Rightarrow> bakery_lock_get_check ncpu me they my_ticket s
      | Spin they my_ticket their_ticket \<Rightarrow> bakery_lock_get_spin me they my_ticket their_ticket s
      | Locked \<Rightarrow> Some (bakery_lock_release me s))"

inductive bakery_step :: "nat \<Rightarrow> bakery \<Rightarrow> bakery \<Rightarrow> bool" for ncpu where
  cpu: "me < ncpu \<Longrightarrow> bakery_cpu_step ncpu me s = Some t \<Longrightarrow> bakery_step ncpu s t"

definition bakery_init :: "bakery \<Rightarrow> bool" where
  "bakery_init s \<longleftrightarrow> (\<forall>i. pcs s i = Idle \<and> lock_data s i = 0)"

abbreviation ticket :: "bakery \<Rightarrow> nat \<Rightarrow> u32" where
  "ticket s i \<equiv> bakery_ticket_number (lock_data s i)"

text \<open>
  The ticket field has 15 bits. A run is free of ticket wrap-around when every step is taken from a
  state in which no ticket has reached the largest value.
\<close>

definition tickets_bounded :: "nat \<Rightarrow> bakery \<Rightarrow> bool" where
  "tickets_bounded ncpu s \<longleftrightarrow> (\<forall>i < ncpu. ticket s i < 0x7FFF)"

definition bakery_step_bounded :: "nat \<Rightarrow> bakery \<Rightarrow> bakery \<Rightarrow> bool" where
  "bakery_step_bounded ncpu s t \<longleftrightarrow> tickets_bounded ncpu s \<and> bakery_step ncpu s t"

subsection \<open>The invariant\<close>

text \<open>
  \<open>passed s i k\<close>: CPU \<open>i\<close>, which holds a ticket, comes before CPU \<open>k\<close> whatever \<open>k\<close> does next. Either
  \<open>k\<close> does not contend, or it is scanning and has already seen \<open>i\<close>'s ticket if it has scanned past
  \<open>i\<close>, or its priority value is larger.
\<close>

definition has_ticket :: "bakery_pc \<Rightarrow> bool" where
  "has_ticket pc \<longleftrightarrow> (case pc of Idle \<Rightarrow> False | Scan _ _ \<Rightarrow> False | _ \<Rightarrow> True)"

definition passed :: "bakery \<Rightarrow> nat \<Rightarrow> nat \<Rightarrow> bool" where
  "passed s i k \<longleftrightarrow>
     (case pcs s k of
        Idle \<Rightarrow> True
      | Scan j mx \<Rightarrow> i < j \<longrightarrow> ticket s i \<le> mx
      | _ \<Rightarrow> PRIORITY (ticket s i) i < PRIORITY (ticket s k) k)"

definition bakery_local :: "nat \<Rightarrow> bakery \<Rightarrow> nat \<Rightarrow> bool" where
  "bakery_local ncpu s i \<longleftrightarrow>
     (case pcs s i of
        Idle \<Rightarrow> lock_data s i = 0
      | Scan j mx \<Rightarrow> lock_data s i = make_bakery_data CHOOSING_TICKET 0 \<and> j \<le> ncpu \<and> mx < 0x7FFF
      | Check j t \<Rightarrow> ticket s i = t \<and> t \<noteq> 0 \<and> \<not> bakery_is_choosing (lock_data s i) \<and> j \<le> ncpu
      | Spin j t tk \<Rightarrow> ticket s i = t \<and> t \<noteq> 0 \<and> \<not> bakery_is_choosing (lock_data s i) \<and> j < ncpu \<and>
           j \<noteq> i \<and> tk \<noteq> 0 \<and> PRIORITY tk j < PRIORITY t i
      | Locked \<Rightarrow> ticket s i \<noteq> 0 \<and> \<not> bakery_is_choosing (lock_data s i))"

definition bakery_order :: "nat \<Rightarrow> bakery \<Rightarrow> nat \<Rightarrow> bool" where
  "bakery_order ncpu s i \<longleftrightarrow>
     (case pcs s i of
        Check j t \<Rightarrow> \<forall>k < j. k \<noteq> i \<longrightarrow> passed s i k
      | Spin j t tk \<Rightarrow> (\<forall>k < j. k \<noteq> i \<longrightarrow> passed s i k) \<and> (ticket s j = tk \<or> passed s i j)
      | Locked \<Rightarrow> \<forall>k < ncpu. k \<noteq> i \<longrightarrow> passed s i k
      | _ \<Rightarrow> True)"

definition bakery_inv :: "nat \<Rightarrow> bakery \<Rightarrow> bool" where
  "bakery_inv ncpu s \<longleftrightarrow> (\<forall>i < ncpu. bakery_local ncpu s i \<and> bakery_order ncpu s i)"

subsection \<open>Every step keeps the invariant\<close>

lemma ticket_0 [simp]: "bakery_ticket_number 0 = 0"
  by (simp add: bakery_ticket_number_def)

lemma not_choosing_0 [simp]: "\<not> bakery_is_choosing 0"
  by (simp add: bakery_is_choosing_def)

lemma ticket_le: "unat (bakery_ticket_number d) \<le> 0x7FFF"
proof -
  have "bakery_ticket_number d \<le> 0x7FFF"
    unfolding bakery_ticket_number_def by (rule word_and_le1)
  then show ?thesis by (simp add: word_le_nat_alt)
qed

lemma PRIORITY_less_iff:
  assumes "unat t \<le> 2 ^ 15" "unat u \<le> 2 ^ 15" "i < 256" "k < 256"
  shows "PRIORITY t i < PRIORITY u k \<longleftrightarrow> t < u \<or> (t = u \<and> i < k)"
proof -
  have "unat t * 256 + i < unat u * 256 + k \<longleftrightarrow> unat t < unat u \<or> (unat t = unat u \<and> i < k)"
    using assms(3,4) by auto
  then show ?thesis
    by (simp only: word_less_nat_alt unat_PRIORITY [OF assms(1,3)] unat_PRIORITY [OF assms(2,4)]
        word_unat_eq_iff)
qed


lemmas bakery_step_defs = bakery_cpu_step_def bakery_get_ticket_enter_def bakery_get_ticket_scan_def
  bakery_lock_get_check_def bakery_lock_get_spin_def bakery_lock_release_def set_pc_def
  set_lock_data_def Let_def

lemma new_ticket:
  assumes "mx < (0x7FFF :: u32)"
  shows "bakery_ticket_number (make_bakery_data CHOSEN_TICKET (mx + 1)) = mx + 1"
    and "mx + 1 \<noteq> 0" and "mx < mx + 1"
proof -
  have u: "unat (mx + 1) = unat mx + 1" and m: "unat mx + 1 \<le> 0x7FFF"
    using assms by (simp_all add: word_less_nat_alt unat_word_ariths)
  have "unat ((mx + 1) AND mask 15) = unat (mx + 1)"
    using u m by (simp add: unat_and_mask)
  then have "(mx + 1) AND mask 15 = mx + 1"
    by (simp only: word_unat_eq_iff)
  then show "bakery_ticket_number (make_bakery_data CHOSEN_TICKET (mx + 1)) = mx + 1"
    by (simp add: ticket_number_chosen mask_eq_exp_minus_1)
  show "mx + 1 \<noteq> 0" "mx < mx + 1"
    using u by (auto simp: word_less_nat_alt word_unat_eq_iff)
qed

lemma bakery_step_frame:
  assumes "bakery_cpu_step ncpu me s = Some t" and "i \<noteq> me"
  shows "pcs t i = pcs s i" and "lock_data t i = lock_data s i"
  using assms by (auto simp: bakery_step_defs split: bakery_pc.splits if_splits)

lemma bakery_local_step:
  assumes "bakery_inv ncpu s" and "tickets_bounded ncpu s" and "me < ncpu"
    and "bakery_cpu_step ncpu me s = Some t" and "i < ncpu"
  shows "bakery_local ncpu t i"
proof (cases "i = me")
  case False
  then show ?thesis
    using assms bakery_step_frame [OF assms(4) False] by (simp add: bakery_inv_def bakery_local_def cong: bakery_pc.case_cong)
next
  case True
  have "bakery_local ncpu s me" using assms by (simp add: bakery_inv_def)
  moreover have "\<And>k. k < ncpu \<Longrightarrow> ticket s k < 0x7FFF" using assms(2) by (simp add: tickets_bounded_def)
  ultimately show ?thesis using assms(3,4) True
    by (auto simp: bakery_local_def bakery_step_defs new_ticket choosing_chosen
        split: bakery_pc.splits if_splits)
qed

lemma ticket_keep:
  assumes "bakery_cpu_step ncpu me s = Some t" and "has_ticket (pcs s i)" and "has_ticket (pcs t i)"
  shows "lock_data t i = lock_data s i"
  using assms by (cases "i = me") (auto simp: bakery_step_defs has_ticket_def split: bakery_pc.splits if_splits)

lemma passed_step:
  assumes inv: "bakery_inv ncpu s" and N: "ncpu \<le> 256" "i < ncpu" "k < ncpu" "i \<noteq> k" "me < ncpu"
    and step: "bakery_cpu_step ncpu me s = Some t"
    and ht: "has_ticket (pcs s i)" "has_ticket (pcs t i)"
    and p: "passed s i k"
  shows "passed t i k"
proof -
  have ti: "ticket t i = ticket s i" using ticket_keep [OF step ht] by simp
  show ?thesis
  proof (cases "k = me")
    case False
    then show ?thesis using p ti bakery_step_frame [OF step False]
      by (simp add: passed_def cong: bakery_pc.case_cong)
  next
    case True
    have loc: "bakery_local ncpu s k" using inv N by (simp add: bakery_inv_def)
    show ?thesis
    proof (cases "pcs s k")
      case Idle
      then show ?thesis using step True by (auto simp: passed_def bakery_step_defs)
    next
      case (Scan j mx)
      show ?thesis
      proof (cases "j < ncpu")
        case j: True
        then show ?thesis using step True Scan p ti N
          by (auto simp: passed_def bakery_step_defs less_Suc_eq split: if_splits)
      next
        case False
        with loc Scan have j: "j = ncpu" "mx < 0x7FFF" by (auto simp: bakery_local_def)
        with p Scan N have le: "ticket s i \<le> mx" by (simp add: passed_def)
        have tk: "ticket t k = mx + 1" "pcs t k = Check 0 (mx + 1)"
          using step True Scan j by (auto simp: bakery_step_defs new_ticket)
        have "ticket s i < mx + 1" using le new_ticket(3) [OF j(2)] by simp
        moreover have "unat (mx + 1) \<le> 2 ^ 15" using ticket_le [of "lock_data t k"] tk by simp
        moreover have "unat (ticket s i) \<le> 2 ^ 15" using ticket_le [of "lock_data s i"] by simp
        ultimately show ?thesis using tk ti N by (simp add: passed_def PRIORITY_less_iff)
      qed
    next
      case (Check j u)
      then show ?thesis using step True p ti ticket_keep [OF step, of k]
        by (auto simp: passed_def bakery_step_defs has_ticket_def split: if_splits)
    next
      case (Spin j u tk)
      then show ?thesis using step True p ti ticket_keep [OF step, of k]
        by (auto simp: passed_def bakery_step_defs has_ticket_def split: if_splits)
    next
      case Locked
      then show ?thesis using step True by (auto simp: passed_def bakery_step_defs)
    qed
  qed
qed


lemma bakery_order_step:
  assumes inv: "bakery_inv ncpu s" and N: "ncpu \<le> 256" "me < ncpu" "i < ncpu"
    and step: "bakery_cpu_step ncpu me s = Some t"
  shows "bakery_order ncpu t i"
proof -
  have loc: "\<And>k. k < ncpu \<Longrightarrow> bakery_local ncpu s k" and ord: "bakery_order ncpu s i"
    using inv N by (auto simp: bakery_inv_def)
  note keep = passed_step [OF inv N(1,3) _ _ N(2) step]
  show ?thesis
  proof (cases "i = me")
    case False
    note fr = bakery_step_frame [OF step False]
    show ?thesis
    proof (cases "pcs s i")
      case (Check j u)
      then show ?thesis using ord fr keep loc [OF N(3)]
        by (auto simp: bakery_order_def bakery_local_def has_ticket_def)
    next
      case (Spin j u tk)
      have j: "j < ncpu" "j \<noteq> i" "tk \<noteq> 0" using loc [OF N(3)] Spin by (auto simp: bakery_local_def)
      have "ticket t j = tk \<or> passed t i j"
      proof (cases "passed s i j")
        case True
        then show ?thesis using keep [of j] j fr Spin by (simp add: has_ticket_def)
      next
        case False
        with ord Spin have "ticket s j = tk" by (simp add: bakery_order_def)
        then show ?thesis using step loc [OF j(1)] j bakery_step_frame [OF step, of j]
          by (cases "j = me") (auto simp: bakery_step_defs bakery_local_def passed_def
              ticket_number_choosing split: bakery_pc.splits if_splits)
      qed
      then show ?thesis using ord fr keep Spin j
        by (auto simp: bakery_order_def has_ticket_def)
    next
      case Locked
      then show ?thesis using ord fr keep
        by (auto simp: bakery_order_def has_ticket_def)
    qed (use fr in \<open>simp_all add: bakery_order_def\<close>)
  next
    case True
    show ?thesis
    proof (cases "pcs s i")
      case (Check j u)
      have tk: "ticket s i = u" "j \<le> ncpu" using loc [OF N(3)] Check by (auto simp: bakery_local_def)
      have ld: "\<And>k. lock_data t k = lock_data s k"
        using step True Check by (auto simp: bakery_step_defs split: if_splits)
      have pc: "\<And>k. k \<noteq> i \<Longrightarrow> pcs t k = pcs s k" using bakery_step_frame [OF step] True by simp
      have old: "\<And>k. k < j \<Longrightarrow> k \<noteq> i \<Longrightarrow> passed t i k"
        using ord Check by (simp add: bakery_order_def passed_def ld pc cong: bakery_pc.case_cong)
      have new: "passed t i j"
        if "j < ncpu" "j \<noteq> i" "\<not> bakery_is_choosing (lock_data s j)"
          "\<not> (ticket s j \<noteq> 0 \<and> PRIORITY (ticket s j) j < PRIORITY u i)"
      proof -
        have "PRIORITY u i < PRIORITY (ticket s j) j" if "ticket s j \<noteq> 0"
          using that \<open>\<not> (ticket s j \<noteq> 0 \<and> _)\<close> ticket_le [of "lock_data s i"] ticket_le [of "lock_data s j"] tk
            \<open>j < ncpu\<close> \<open>j \<noteq> i\<close> N by (auto simp: PRIORITY_less_iff)
        then show ?thesis using loc [OF that(1)] that(1-3) tk
          by (auto simp: passed_def ld pc bakery_local_def choosing_choosing split: bakery_pc.splits)
      qed
      show ?thesis using step Check True old new less_Suc_eq
        by (auto simp: bakery_step_defs bakery_order_def split: if_splits)
    next
      case (Spin j u tk)
      have ld: "\<And>k. lock_data t k = lock_data s k"
        using step True Spin by (auto simp: bakery_step_defs split: if_splits)
      have pc: "\<And>k. k \<noteq> i \<Longrightarrow> pcs t k = pcs s k" using bakery_step_frame [OF step] True by simp
      have j: "j \<noteq> i" using loc [OF N(3)] Spin by (auto simp: bakery_local_def)
      have "passed s i j" using ord Spin step True by (auto simp: bakery_order_def bakery_step_defs split: if_splits)
      then have "\<And>k. k < Suc j \<Longrightarrow> k \<noteq> i \<Longrightarrow> passed t i k"
        using ord Spin j by (auto simp: bakery_order_def passed_def ld pc less_Suc_eq cong: bakery_pc.case_cong)
      then show ?thesis using step Spin True
        by (auto simp: bakery_step_defs bakery_order_def split: if_splits)
    qed (use step True in \<open>auto simp: bakery_step_defs bakery_order_def split: if_splits\<close>)
  qed
qed

interpretation bakery: inductive_invariant bakery_init "bakery_step_bounded ncpu"
    "\<lambda>s. ncpu \<le> 256 \<longrightarrow> bakery_inv ncpu s" for ncpu
proof
  show "bakery_init s \<Longrightarrow> ncpu \<le> 256 \<longrightarrow> bakery_inv ncpu s" for s
    by (simp add: bakery_init_def bakery_inv_def bakery_local_def bakery_order_def)
  show "ncpu \<le> 256 \<longrightarrow> bakery_inv ncpu s \<Longrightarrow> bakery_step_bounded ncpu s t \<Longrightarrow>
      ncpu \<le> 256 \<longrightarrow> bakery_inv ncpu t" for s t
    by (auto simp: bakery_step_bounded_def bakery_inv_def [of _ t] elim!: bakery_step.cases
        intro: bakery_local_step bakery_order_step)
qed

subsection \<open>Properties of the lock\<close>

text \<open>
  C1. Mutual exclusion: in every run of up to 256 CPUs through the lock code, interleaved at every
  access to the lock data and free of ticket wrap-around, at most one CPU holds the lock.
\<close>

theorem bakery_mutual_exclusion:
  assumes "ncpu \<le> 256"
    and "reach bakery_init (bakery_step_bounded ncpu) s"
    and "i < ncpu" and "j < ncpu" and "pcs s i = Locked" and "pcs s j = Locked"
  shows "i = j"
proof (rule ccontr)
  assume "i \<noteq> j"
  have "bakery_inv ncpu s" using bakery.inv_reach [OF assms(2)] assms(1) by simp
  with assms \<open>i \<noteq> j\<close> have "passed s i j" "passed s j i"
    by (auto simp: bakery_inv_def bakery_order_def)
  with assms show False by (simp add: passed_def)
qed






subsection \<open>Runs along a schedule, and ticket wrap-around\<close>

fun bakery_run :: "nat \<Rightarrow> nat list \<Rightarrow> bakery \<Rightarrow> bakery option" where
  "bakery_run ncpu [] s = Some s"
| "bakery_run ncpu (i # is) s =
     (case bakery_cpu_step ncpu i s of None \<Rightarrow> None | Some t \<Rightarrow> bakery_run ncpu is t)"

lemma bakery_run_reach:
  "bakery_run ncpu is s = Some t \<Longrightarrow> \<forall>i \<in> set is. i < ncpu \<Longrightarrow>
   reach bakery_init (bakery_step ncpu) s \<Longrightarrow> reach bakery_init (bakery_step ncpu) t"
proof (induction "is" arbitrary: s)
  case (Cons i "is")
  then obtain u where u: "bakery_cpu_step ncpu i s = Some u" "bakery_run ncpu is u = Some t"
    by (auto split: option.splits)
  have "reach bakery_init (bakery_step ncpu) u"
    by (rule reach_step [OF Cons.prems(3)], rule bakery_step.cpu [OF _ u(1)]) (use Cons.prems in simp)
  then show ?case using Cons.IH u Cons.prems by simp
qed simp

fun bakery_run_bounded :: "nat \<Rightarrow> nat list \<Rightarrow> bakery \<Rightarrow> bool" where
  "bakery_run_bounded ncpu [] s = True"
| "bakery_run_bounded ncpu (i # is) s =
     (tickets_bounded ncpu s \<and>
      (case bakery_cpu_step ncpu i s of None \<Rightarrow> False | Some t \<Rightarrow> bakery_run_bounded ncpu is t))"

lemma bakery_run_reach_bounded:
  "bakery_run ncpu is s = Some t \<Longrightarrow> \<forall>i \<in> set is. i < ncpu \<Longrightarrow> bakery_run_bounded ncpu is s \<Longrightarrow>
   reach bakery_init (bakery_step_bounded ncpu) s \<Longrightarrow> reach bakery_init (bakery_step_bounded ncpu) t"
proof (induction "is" arbitrary: s)
  case (Cons i "is")
  then obtain u where u: "bakery_cpu_step ncpu i s = Some u" "bakery_run ncpu is u = Some t"
      "bakery_run_bounded ncpu is u" "tickets_bounded ncpu s"
    by (auto split: option.splits)
  then have "bakery_step_bounded ncpu s u"
    unfolding bakery_step_bounded_def using Cons.prems by (auto intro: bakery_step.cpu)
  then have "reach bakery_init (bakery_step_bounded ncpu) u" by (rule reach_step [OF Cons.prems(4)])
  then show ?case using Cons.IH u Cons.prems(2) by simp
qed simp

lemma ticket_fix: assumes "n \<le> (0x7FFF :: u32)" shows "n AND 0x7FFF = n"
proof -
  have "unat (n AND mask 15) = unat n" using assms by (simp add: unat_and_mask word_le_nat_alt)
  then have "n AND mask 15 = n" by (simp only: word_unat_eq_iff)
  then show ?thesis by (simp add: mask_eq_exp_minus_1)
qed

lemma PRIORITY_succ:
  assumes "n \<le> (0x7FFF :: u32)" "i < 256" "k < 256"
  shows "PRIORITY n i < PRIORITY (n + 1) k"
proof -
  have un: "unat n \<le> 0x7FFF" using assms by (simp add: word_le_nat_alt)
  have u1: "unat (n + 1) = unat n + 1" using un by (simp add: unat_word_ariths)
  then have "n < n + 1" by (simp add: word_less_nat_alt)
  then show ?thesis using un u1 assms by (simp add: PRIORITY_less_iff)
qed


text \<open>The two CPUs of this platform, as one term.\<close>

definition duo :: "u16 \<Rightarrow> u16 \<Rightarrow> bakery_pc \<Rightarrow> bakery_pc \<Rightarrow> bakery" where
  "duo d0 d1 p0 p1 = \<lparr>lock_data = (\<lambda>_. 0)(0 := d0, 1 := d1), pcs = (\<lambda>_. Idle)(0 := p0, 1 := p1)\<rparr>"

lemma duo_sel [simp]:
  "lock_data (duo d0 d1 p0 p1) 0 = d0" "lock_data (duo d0 d1 p0 p1) (Suc 0) = d1"
  "pcs (duo d0 d1 p0 p1) 0 = p0" "pcs (duo d0 d1 p0 p1) (Suc 0) = p1"
  "set_pc 0 q (duo d0 d1 p0 p1) = duo d0 d1 q p1" "set_pc (Suc 0) q (duo d0 d1 p0 p1) = duo d0 d1 p0 q"
  "set_lock_data 0 e (duo d0 d1 p0 p1) = duo e d1 p0 p1"
  "set_lock_data (Suc 0) e (duo d0 d1 p0 p1) = duo d0 e p0 p1"
  by (simp_all add: duo_def set_pc_def set_lock_data_def fun_upd_twist)

lemmas duo_defs = bakery_cpu_step_def bakery_get_ticket_enter_def bakery_get_ticket_scan_def
  bakery_lock_get_check_def bakery_lock_get_spin_def bakery_lock_release_def Let_def


lemma bakery_handover:
  assumes "n \<noteq> 0" "n \<le> 0x7FFF"
  shows "bakery_run 2 [1,1,1,1,1,0,1,1,1] (duo (make_bakery_data CHOSEN_TICKET n) 0 Locked Idle) =
      Some (duo 0 (make_bakery_data CHOSEN_TICKET (n + 1)) Idle Locked)"
    and "bakery_run 2 [0,0,0,0,0,0,1,0,0] (duo 0 (make_bakery_data CHOSEN_TICKET n) Idle Locked) =
      Some (duo (make_bakery_data CHOSEN_TICKET (n + 1)) 0 Locked Idle)"
  using assms(1) ticket_fix [OF assms(2)] PRIORITY_succ [OF assms(2), of 0 1] PRIORITY_succ [OF assms(2), of 1 0]
  by (simp_all add: duo_defs ticket_number_chosen choosing_chosen word_gt_0)

lemma duo_start: "bakery_init (duo 0 0 Idle Idle)"
  by (simp add: bakery_init_def duo_def)

lemma bakery_first_lock:
  "bakery_run 2 [0,0,0,0,0,0,0] (duo 0 0 Idle Idle) = Some (duo (make_bakery_data CHOSEN_TICKET 1) 0 Locked Idle)"
  by (simp add: duo_defs)

lemma tickets_bounded_duo:
  "tickets_bounded 2 (duo d0 d1 p0 p1) \<longleftrightarrow>
     bakery_ticket_number d0 < 0x7FFF \<and> bakery_ticket_number d1 < 0x7FFF"
  by (auto simp: tickets_bounded_def numeral_2_eq_2 less_Suc_eq)

lemma bakery_first_lock_bounded:
  "reach bakery_init (bakery_step_bounded 2) (duo (make_bakery_data CHOSEN_TICKET 1) 0 Locked Idle)"
proof (rule bakery_run_reach_bounded [OF bakery_first_lock])
  show "bakery_run_bounded 2 [0,0,0,0,0,0,0] (duo 0 0 Idle Idle)"
    by (simp add: duo_defs tickets_bounded_duo ticket_number_choosing ticket_number_chosen)
qed (simp_all add: reach_start duo_start)

lemma bakery_ticket_chain:
  "k \<le> 0x7FFF \<Longrightarrow> reach bakery_init (bakery_step 2)
     (if even k then duo (make_bakery_data CHOSEN_TICKET (of_nat (Suc k))) 0 Locked Idle
      else duo 0 (make_bakery_data CHOSEN_TICKET (of_nat (Suc k))) Idle Locked)"
proof (induction k)
  case 0
  have "reach bakery_init (bakery_step 2) (duo 0 0 Idle Idle)"
    by (rule reach_start) (rule duo_start)
  from bakery_run_reach [OF bakery_first_lock _ this] show ?case by simp
next
  case (Suc k)
  let ?n = "of_nat (Suc k) :: u32"
  have u: "unat ?n = Suc k" using Suc.prems by (simp only: unat_of_nat) simp
  have n: "?n \<noteq> 0" "?n \<le> 0x7FFF" using u Suc.prems by (auto simp: word_le_nat_alt unat_eq_zero [symmetric] simp del: of_nat_Suc)
  have e: "of_nat (Suc (Suc k)) = ?n + 1" by simp
  note IH = Suc.IH [OF Suc_leD [OF Suc.prems]]
  show ?case
  proof (cases "even k")
    case True
    then show ?thesis using bakery_run_reach [OF bakery_handover(1) [OF n]] IH e by simp
  next
    case False
    then show ?thesis using bakery_run_reach [OF bakery_handover(2) [OF n]] IH e by simp
  qed
qed

text \<open>
  C4. The bound on tickets is needed: with two CPUs that keep handing the lock over to each
  other, the ticket grows by one at each handover, wraps to zero after 32767 of them, and both
  CPUs then hold the lock.
\<close>

theorem bakery_ticket_overflow:
  "\<exists>s. reach bakery_init (bakery_step 2) s \<and> pcs s 0 = Locked \<and> pcs s 1 = Locked"
proof -
  have z: "make_bakery_data CHOSEN_TICKET (of_nat (Suc 0x7FFF)) = 0"
    by (simp add: make_bakery_data_def CHOSEN_TICKET_def)
  have r: "reach bakery_init (bakery_step 2) (duo 0 0 Idle Locked)"
    using bakery_ticket_chain [of 32767] z by simp
  have run: "bakery_run 2 [0,0,0,0,0,0,0] (duo 0 0 Idle Locked) =
      Some (duo (make_bakery_data CHOSEN_TICKET 1) 0 Locked Locked)"
    by (simp add: duo_defs)
  show ?thesis
    by (rule exI [of _ "duo (make_bakery_data CHOSEN_TICKET 1) 0 Locked Locked"])
      (use bakery_run_reach [OF run _ r] in simp)
qed

subsection \<open>Witnesses\<close>

theorem bakery_mutual_exclusion_witness:
  "pcs (duo (make_bakery_data CHOSEN_TICKET 1) 0 Locked Idle) 0 = Locked \<and>
   pcs (duo (make_bakery_data CHOSEN_TICKET 1) 0 Locked Idle) 1 \<noteq> Locked"
  using bakery_mutual_exclusion [OF _ bakery_first_lock_bounded, of 0 1] by auto



end
