(* ===== verification/Psci_Types.thy ===== *)
theory Psci_Types
  imports Atf_Prelude
begin

unbundle bit_operations_syntax

text \<open>
  The data of the PSCI library of \<^verbatim>\<open>src/atf-marvell/lib/psci\<close>: constants and structures of
  \<^verbatim>\<open>include/lib/psci/psci.h\<close>, \<^verbatim>\<open>psci_lib.h\<close>, \<^verbatim>\<open>psci_private.h\<close> and \<^verbatim>\<open>ep_info.h\<close>, the compile-time
  constants and porting functions a platform gives the library, and the library's global state.
  An array is a function of its index; that the code stays within its bounds is proved, not built in.
  Calls out of the library (platform and secure-payload hooks, locks, cache maintenance, \<^verbatim>\<open>wfi\<close>)
  are recorded in order in \<open>psci_events\<close>, and the hooks act on a platform state of type \<open>'p\<close>.
\<close>

subsection \<open>Constants\<close>

definition PSCI_CPU_PWR_LVL :: nat where "PSCI_CPU_PWR_LVL = 0"
definition PSCI_MAX_PWR_LVL :: nat where "PSCI_MAX_PWR_LVL = 3"

definition PSCI_E_SUCCESS :: int where "PSCI_E_SUCCESS = 0"
definition PSCI_E_NOT_SUPPORTED :: int where "PSCI_E_NOT_SUPPORTED = -1"
definition PSCI_E_INVALID_PARAMS :: int where "PSCI_E_INVALID_PARAMS = -2"
definition PSCI_E_DENIED :: int where "PSCI_E_DENIED = -3"
definition PSCI_E_ALREADY_ON :: int where "PSCI_E_ALREADY_ON = -4"
definition PSCI_E_ON_PENDING :: int where "PSCI_E_ON_PENDING = -5"
definition PSCI_E_INTERN_FAIL :: int where "PSCI_E_INTERN_FAIL = -6"
definition PSCI_E_NOT_PRESENT :: int where "PSCI_E_NOT_PRESENT = -7"
definition PSCI_E_INVALID_ADDRESS :: int where "PSCI_E_INVALID_ADDRESS = -9"

lemmas psci_error_defs = PSCI_E_SUCCESS_def PSCI_E_NOT_SUPPORTED_def PSCI_E_INVALID_PARAMS_def
  PSCI_E_DENIED_def PSCI_E_ALREADY_ON_def PSCI_E_ON_PENDING_def PSCI_E_INTERN_FAIL_def
  PSCI_E_NOT_PRESENT_def PSCI_E_INVALID_ADDRESS_def

definition PSCI_INVALID_MPIDR :: u64 where "PSCI_INVALID_MPIDR = NOT 0"
definition MPIDR_AFFINITY_MASK :: u64 where "MPIDR_AFFINITY_MASK = 0xff00ffffff"

subsection \<open>Power states\<close>

type_synonym plat_local_state_t = u8

definition PSCI_LOCAL_STATE_RUN :: plat_local_state_t where "PSCI_LOCAL_STATE_RUN = 0"

text \<open>\<^verbatim>\<open>psci_power_state_t\<close> wraps one array, the local state at each power level.\<close>

type_synonym psci_power_state = "nat \<Rightarrow> plat_local_state_t"

datatype aff_info_state = AFF_STATE_ON | AFF_STATE_OFF | AFF_STATE_ON_PENDING

fun aff_info_val :: "aff_info_state \<Rightarrow> int" where
  "aff_info_val AFF_STATE_ON = 0"
| "aff_info_val AFF_STATE_OFF = 1"
| "aff_info_val AFF_STATE_ON_PENDING = 2"

text \<open>
  What a platform port gives the library at compile time: the sizes, the numbering of its local
  states, its topology descriptor, its map from MPIDR to core index, and the function
  \<^verbatim>\<open>plat_get_target_pwr_state\<close> that coordinates the states requested for a domain.
\<close>

record plat_def =
  PLATFORM_CORE_COUNT :: nat
  PSCI_NUM_NON_CPU_PWR_DOMAINS :: nat
  PLAT_MAX_PWR_LVL :: nat
  PLAT_MAX_RET_STATE :: plat_local_state_t
  PLAT_MAX_OFF_STATE :: plat_local_state_t
  plat_core_pos_by_mpidr :: "u64 \<Rightarrow> int"
  plat_get_power_domain_tree_desc :: "nat \<Rightarrow> nat"
  get_target_pwr_state :: "nat \<Rightarrow> (nat \<Rightarrow> plat_local_state_t) \<Rightarrow> nat \<Rightarrow> plat_local_state_t"

definition PSCI_INVALID_PWR_LVL :: "plat_def \<Rightarrow> nat" where
  "PSCI_INVALID_PWR_LVL P = PLAT_MAX_PWR_LVL P + 1"

text \<open>The compile-time assertions of \<^verbatim>\<open>psci_common.c\<close>.\<close>

definition plat_asserts :: "plat_def \<Rightarrow> bool" where
  "plat_asserts P \<longleftrightarrow>
     PLAT_MAX_PWR_LVL P \<le> PSCI_MAX_PWR_LVL \<and> PSCI_CPU_PWR_LVL \<le> PLAT_MAX_PWR_LVL P \<and>
     PLAT_MAX_RET_STATE P < PLAT_MAX_OFF_STATE P"

definition is_local_state_run :: "plat_local_state_t \<Rightarrow> bool" where
  "is_local_state_run st \<longleftrightarrow> st = PSCI_LOCAL_STATE_RUN"

definition is_local_state_retn :: "plat_def \<Rightarrow> plat_local_state_t \<Rightarrow> bool" where
  "is_local_state_retn P st \<longleftrightarrow> st > PSCI_LOCAL_STATE_RUN \<and> st \<le> PLAT_MAX_RET_STATE P"

definition is_local_state_off :: "plat_def \<Rightarrow> plat_local_state_t \<Rightarrow> bool" where
  "is_local_state_off P st \<longleftrightarrow> st > PLAT_MAX_RET_STATE P \<and> st \<le> PLAT_MAX_OFF_STATE P"

datatype plat_local_state_type = STATE_TYPE_RUN | STATE_TYPE_RETN | STATE_TYPE_OFF

definition find_local_state_type :: "plat_def \<Rightarrow> plat_local_state_t \<Rightarrow> plat_local_state_type" where
  "find_local_state_type P st =
     (if st \<noteq> 0 then if st > PLAT_MAX_RET_STATE P then STATE_TYPE_OFF else STATE_TYPE_RETN
      else STATE_TYPE_RUN)"

text \<open>The enumeration is ordered as its C values are.\<close>

fun state_type_val :: "plat_local_state_type \<Rightarrow> nat" where
  "state_type_val STATE_TYPE_RUN = 0"
| "state_type_val STATE_TYPE_RETN = 1"
| "state_type_val STATE_TYPE_OFF = 2"

instantiation plat_local_state_type :: linorder
begin

definition less_eq_plat_local_state_type :: "plat_local_state_type \<Rightarrow> plat_local_state_type \<Rightarrow> bool" where
  "less_eq_plat_local_state_type a b \<longleftrightarrow> state_type_val a \<le> state_type_val b"

definition less_plat_local_state_type :: "plat_local_state_type \<Rightarrow> plat_local_state_type \<Rightarrow> bool" where
  "less_plat_local_state_type a b \<longleftrightarrow> state_type_val a < state_type_val b"

instance
proof
  fix x y z :: plat_local_state_type
  show "(x < y) = (x \<le> y \<and> \<not> y \<le> x)"
    by (auto simp: less_eq_plat_local_state_type_def less_plat_local_state_type_def)
  show "x \<le> x" by (simp add: less_eq_plat_local_state_type_def)
  show "x \<le> y \<Longrightarrow> y \<le> z \<Longrightarrow> x \<le> z" by (simp add: less_eq_plat_local_state_type_def)
  show "x \<le> y \<Longrightarrow> y \<le> x \<Longrightarrow> x = y"
    by (cases x; cases y) (simp_all add: less_eq_plat_local_state_type_def)
  show "x \<le> y \<or> y \<le> x" by (auto simp: less_eq_plat_local_state_type_def)
qed

end

subsection \<open>Entry points\<close>

definition NON_SECURE :: u32 where "NON_SECURE = 1"
definition PARAM_EP :: u8 where "PARAM_EP = 1"
definition VERSION_1 :: u8 where "VERSION_1 = 1"

record entry_point_info =
  ep_type :: u8
  ep_version :: u8
  ep_size :: u16
  ep_attr :: u32
  ep_pc :: u64
  ep_spsr :: u32
  ep_args :: "u64 list"

subsection \<open>Nodes of the power domain tree\<close>

record non_cpu_pd_node =
  cpu_start_idx :: nat
  ncpus :: nat
  parent_node :: nat
  local_state :: plat_local_state_t
  level :: nat
  lock_index :: nat

record cpu_pd_node =
  cpu_mpidr :: u64
  cpu_parent_node :: nat

record psci_cpu_data =
  aff_info_state :: aff_info_state
  target_pwrlvl :: nat
  cpu_local_state :: plat_local_state_t

subsection \<open>Hooks\<close>

text \<open>
  A hook is a pointer, null or a function; the hooks that panic on some platform of the repository give
  an optional result, \<open>None\<close> for a panic.
\<close>

record 'p plat_psci_ops =
  cpu_standby :: "(plat_local_state_t \<Rightarrow> 'p \<Rightarrow> 'p option) option"
  pwr_domain_on :: "(u64 \<Rightarrow> 'p \<Rightarrow> int \<times> 'p) option"
  pwr_domain_off :: "(psci_power_state \<Rightarrow> 'p \<Rightarrow> 'p) option"
  pwr_domain_suspend_pwrdown_early :: "(psci_power_state \<Rightarrow> 'p \<Rightarrow> 'p) option"
  pwr_domain_suspend :: "(psci_power_state \<Rightarrow> 'p \<Rightarrow> 'p) option"
  pwr_domain_on_finish :: "(psci_power_state \<Rightarrow> 'p \<Rightarrow> 'p) option"
  pwr_domain_suspend_finish :: "(psci_power_state \<Rightarrow> 'p \<Rightarrow> 'p) option"
  pwr_domain_pwr_down_wfi :: "(psci_power_state \<Rightarrow> 'p \<Rightarrow> 'p) option"
  system_off :: "('p \<Rightarrow> 'p option) option"
  system_reset :: "('p \<Rightarrow> 'p) option"
  validate_power_state :: "(u32 \<Rightarrow> psci_power_state \<Rightarrow> (int \<times> psci_power_state) option) option"
  validate_ns_entrypoint :: "(u64 \<Rightarrow> int) option"
  get_sys_suspend_power_state :: "(psci_power_state \<Rightarrow> psci_power_state) option"
  get_node_hw_state :: "(u64 \<Rightarrow> u32 \<Rightarrow> 'p \<Rightarrow> int) option"
  mem_protect_chk :: "(u64 \<Rightarrow> u64 \<Rightarrow> 'p \<Rightarrow> int) option"
  read_mem_protect :: "('p \<Rightarrow> int \<times> int) option"
  write_mem_protect :: "(int \<Rightarrow> 'p \<Rightarrow> int \<times> 'p) option"
  system_reset2 :: "(int \<Rightarrow> u32 \<Rightarrow> u64 \<Rightarrow> 'p \<Rightarrow> int \<times> 'p) option"

record 'p spd_pm_ops =
  svc_on :: "(u64 \<Rightarrow> 'p \<Rightarrow> 'p) option"
  svc_off :: "(u64 \<Rightarrow> 'p \<Rightarrow> int \<times> 'p) option"
  svc_suspend :: "(u64 \<Rightarrow> 'p \<Rightarrow> 'p) option"
  svc_on_finish :: "(u64 \<Rightarrow> 'p \<Rightarrow> 'p) option"
  svc_suspend_finish :: "(u64 \<Rightarrow> 'p \<Rightarrow> 'p) option"
  svc_migrate :: "(u64 \<Rightarrow> u64 \<Rightarrow> 'p \<Rightarrow> int \<times> 'p) option"
  svc_migrate_info :: "('p \<Rightarrow> int \<times> u64) option"
  svc_system_off :: "('p \<Rightarrow> 'p) option"
  svc_system_reset :: "('p \<Rightarrow> 'p) option"

subsection \<open>Global state\<close>

datatype psci_event =
    Lock_get nat | Lock_release nat
  | Cpu_spin_lock nat | Cpu_spin_unlock nat
  | Pwrdown_sequence nat | Pwrup_cache_maintenance | Arch_setup | El3_exit
  | Plat_standby plat_local_state_t | Plat_on u64 | Plat_off psci_power_state
  | Plat_suspend_early psci_power_state | Plat_suspend psci_power_state
  | Plat_on_finish psci_power_state | Plat_suspend_finish psci_power_state
  | Plat_pwr_down_wfi psci_power_state | Psci_power_down_wfi | Wfi
  | Plat_system_off | Plat_system_reset | Plat_system_reset2 int u32 u64
  | Plat_write_mem_protect int
  | Spd_on u64 | Spd_off u64 | Spd_suspend u64 | Spd_on_finish u64 | Spd_suspend_finish u64
  | Spd_migrate u64 u64 | Spd_system_off | Spd_system_reset

record 'p psci_state =
  psci_req_local_pwr_states :: "nat \<Rightarrow> nat \<Rightarrow> plat_local_state_t"
  psci_non_cpu_pd_nodes :: "nat \<Rightarrow> non_cpu_pd_node"
  psci_cpu_pd_nodes :: "nat \<Rightarrow> cpu_pd_node"
  psci_svc_cpu_data :: "nat \<Rightarrow> psci_cpu_data"
  psci_locks :: "nat \<Rightarrow> nat option"
  cpu_locks :: "nat \<Rightarrow> nat option"
  psci_ns_context :: "nat \<Rightarrow> entry_point_info option"
  psci_caps :: u32
  psci_plat_pm_ops :: "'p plat_psci_ops"
  psci_spd_pm :: "'p spd_pm_ops option"
  plat_state :: 'p
  psci_events :: "psci_event list"

text \<open>
  How a call into the library ends: it returns a value; it waits in \<^verbatim>\<open>wfi\<close> in a retention
  state entered up to a power level and will return through the standby finisher; it powers the calling
  CPU (or the system) down and does not return; it panics; or it waits for a lock another CPU holds.
\<close>

datatype ('a, 's) outcome =
    Return 'a 's
  | Standby nat 's
  | PowerDown 's
  | Panic
  | Blocked

text \<open>
  The system registers of the calling CPU that the library reads, and what its stack holds where a
  function has an uninitialised local of type \<^verbatim>\<open>psci_power_state_t\<close> or \<^verbatim>\<open>entry_point_info_t\<close>.
\<close>

record arch_regs =
  my_core_pos :: nat
  mpidr_el1 :: u64
  scr_el3 :: u64
  sctlr_el1 :: u64
  sctlr_el2 :: u64
  isr_el1 :: u64
  stack_state :: psci_power_state
  stack_ep :: entry_point_info

definition emit :: "psci_event \<Rightarrow> 'p psci_state \<Rightarrow> 'p psci_state" where
  "emit e s = s\<lparr>psci_events := psci_events s @ [e]\<rparr>"

definition on_plat :: "('p \<Rightarrow> 'p) \<Rightarrow> 'p psci_state \<Rightarrow> 'p psci_state" where
  "on_plat f s = s\<lparr>plat_state := f (plat_state s)\<rparr>"

text \<open>
  A call through a hook pointer that the code tests first. A call through a pointer that it does not
  test is a case distinction in the model, with \<open>Panic\<close> for the null pointer.
\<close>

definition call_hook :: "('p \<Rightarrow> 'p) option \<Rightarrow> psci_event \<Rightarrow> 'p psci_state \<Rightarrow> 'p psci_state" where
  "call_hook h e s = (case h of None \<Rightarrow> s | Some f \<Rightarrow> on_plat f (emit e s))"

definition call_spd ::
    "('p spd_pm_ops \<Rightarrow> ('p \<Rightarrow> 'p) option) \<Rightarrow> psci_event \<Rightarrow> 'p psci_state \<Rightarrow> 'p psci_state" where
  "call_spd sel e s = (case psci_spd_pm s of None \<Rightarrow> s | Some pm \<Rightarrow> call_hook (sel pm) e s)"

end
