(* ===== verification/Psci_Common.thy ===== *)
theory Psci_Common
  imports Psci_Types
begin

text \<open>
  The helpers of \<^verbatim>\<open>lib/psci/psci_common.c\<close> and the accessors of \<^verbatim>\<open>psci_private.h\<close>: per-CPU data, locks,
  requested and local power states, state coordination, the validation of a suspend request and of an
  entry point, and the default coordination policy of \<^verbatim>\<open>plat_psci_common.c\<close>.
\<close>

unbundle bit_operations_syntax

subsection \<open>Per-CPU data\<close>

definition psci_get_aff_info_state_by_idx :: "nat \<Rightarrow> 'p psci_state \<Rightarrow> aff_info_state" where
  "psci_get_aff_info_state_by_idx idx s = aff_info_state (psci_svc_cpu_data s idx)"

definition psci_set_aff_info_state_by_idx ::
    "nat \<Rightarrow> aff_info_state \<Rightarrow> 'p psci_state \<Rightarrow> 'p psci_state" where
  "psci_set_aff_info_state_by_idx idx a s =
     s\<lparr>psci_svc_cpu_data := (psci_svc_cpu_data s)
        (idx := (psci_svc_cpu_data s idx)\<lparr>aff_info_state := a\<rparr>)\<rparr>"

definition psci_get_suspend_pwrlvl :: "nat \<Rightarrow> 'p psci_state \<Rightarrow> nat" where
  "psci_get_suspend_pwrlvl me s = target_pwrlvl (psci_svc_cpu_data s me)"

definition psci_set_suspend_pwrlvl :: "nat \<Rightarrow> nat \<Rightarrow> 'p psci_state \<Rightarrow> 'p psci_state" where
  "psci_set_suspend_pwrlvl me l s =
     s\<lparr>psci_svc_cpu_data := (psci_svc_cpu_data s)
        (me := (psci_svc_cpu_data s me)\<lparr>target_pwrlvl := l\<rparr>)\<rparr>"

definition psci_get_cpu_local_state_by_idx :: "nat \<Rightarrow> 'p psci_state \<Rightarrow> plat_local_state_t" where
  "psci_get_cpu_local_state_by_idx idx s = cpu_local_state (psci_svc_cpu_data s idx)"

definition psci_set_cpu_local_state :: "nat \<Rightarrow> plat_local_state_t \<Rightarrow> 'p psci_state \<Rightarrow> 'p psci_state" where
  "psci_set_cpu_local_state me st s =
     s\<lparr>psci_svc_cpu_data := (psci_svc_cpu_data s)
        (me := (psci_svc_cpu_data s me)\<lparr>cpu_local_state := st\<rparr>)\<rparr>"

subsection \<open>Locks\<close>

text \<open>
  A lock is free or held by a CPU; taking one that is held is \<open>None\<close>, the caller waits.
\<close>

definition psci_lock_get :: "nat \<Rightarrow> nat \<Rightarrow> 'p psci_state \<Rightarrow> 'p psci_state option" where
  "psci_lock_get me idx s =
     (let l = lock_index (psci_non_cpu_pd_nodes s idx) in
      case psci_locks s l of
        None \<Rightarrow> Some (emit (Lock_get l) (s\<lparr>psci_locks := (psci_locks s)(l := Some me)\<rparr>))
      | Some _ \<Rightarrow> None)"

definition psci_lock_release :: "nat \<Rightarrow> 'p psci_state \<Rightarrow> 'p psci_state" where
  "psci_lock_release idx s =
     (let l = lock_index (psci_non_cpu_pd_nodes s idx) in
      emit (Lock_release l) (s\<lparr>psci_locks := (psci_locks s)(l := None)\<rparr>))"

definition psci_spin_lock_cpu :: "nat \<Rightarrow> nat \<Rightarrow> 'p psci_state \<Rightarrow> 'p psci_state option" where
  "psci_spin_lock_cpu me idx s =
     (case cpu_locks s idx of
        None \<Rightarrow> Some (emit (Cpu_spin_lock idx) (s\<lparr>cpu_locks := (cpu_locks s)(idx := Some me)\<rparr>))
      | Some _ \<Rightarrow> None)"

definition psci_spin_unlock_cpu :: "nat \<Rightarrow> 'p psci_state \<Rightarrow> 'p psci_state" where
  "psci_spin_unlock_cpu idx s =
     emit (Cpu_spin_unlock idx) (s\<lparr>cpu_locks := (cpu_locks s)(idx := None)\<rparr>)"

subsection \<open>The functions of psci\_common.c\<close>

definition PSTATE_VALID_MASK :: u32 where "PSTATE_VALID_MASK = 0xFCFE0000"

definition psci_check_power_state :: "u32 \<Rightarrow> u32" where
  "psci_check_power_state pstate = pstate AND PSTATE_VALID_MASK"

text \<open>\<open>None\<close>: the platform exports no \<^verbatim>\<open>validate_power_state\<close> hook, or the hook panics.\<close>

definition psci_validate_power_state ::
    "u32 \<Rightarrow> psci_power_state \<Rightarrow> 'p psci_state \<Rightarrow> (int \<times> psci_power_state) option" where
  "psci_validate_power_state power_state state_info s =
     (if psci_check_power_state power_state \<noteq> 0 then Some (PSCI_E_INVALID_PARAMS, state_info)
      else case validate_power_state (psci_plat_pm_ops s) of
             None \<Rightarrow> None
           | Some f \<Rightarrow> f power_state state_info)"

definition psci_query_sys_suspend_pwrstate ::
    "psci_power_state \<Rightarrow> 'p psci_state \<Rightarrow> psci_power_state option" where
  "psci_query_sys_suspend_pwrstate state_info s =
     map_option (\<lambda>f. f state_info) (get_sys_suspend_power_state (psci_plat_pm_ops s))"

definition psci_is_last_on_cpu :: "plat_def \<Rightarrow> nat \<Rightarrow> 'p psci_state \<Rightarrow> bool" where
  "psci_is_last_on_cpu P me s =
     list_all (\<lambda>cpu_idx. cpu_idx = me \<or> psci_get_aff_info_state_by_idx cpu_idx s = AFF_STATE_OFF)
       [0..<PLATFORM_CORE_COUNT P]"

definition get_power_on_target_pwrlvl :: "plat_def \<Rightarrow> nat \<Rightarrow> 'p psci_state \<Rightarrow> nat" where
  "get_power_on_target_pwrlvl P me s =
     (let pwrlvl = psci_get_suspend_pwrlvl me s in
      if pwrlvl = PSCI_INVALID_PWR_LVL P then PLAT_MAX_PWR_LVL P else pwrlvl)"

definition psci_set_req_local_pwr_state ::
    "nat \<Rightarrow> nat \<Rightarrow> plat_local_state_t \<Rightarrow> 'p psci_state \<Rightarrow> 'p psci_state" where
  "psci_set_req_local_pwr_state pwrlvl cpu_idx req_pwr_state s =
     s\<lparr>psci_req_local_pwr_states := (psci_req_local_pwr_states s)
        (pwrlvl - 1 := (psci_req_local_pwr_states s (pwrlvl - 1))(cpu_idx := req_pwr_state))\<rparr>"

definition psci_init_req_local_pwr_states :: "plat_def \<Rightarrow> 'p psci_state \<Rightarrow> 'p psci_state" where
  "psci_init_req_local_pwr_states P s =
     s\<lparr>psci_req_local_pwr_states := (\<lambda>l c.
        if l < PLAT_MAX_PWR_LVL P \<and> c < PLATFORM_CORE_COUNT P then PLAT_MAX_OFF_STATE P
        else psci_req_local_pwr_states s l c)\<rparr>"

text \<open>A pointer into the array of requested states is the array read from that offset on.\<close>

definition psci_get_req_local_pwr_states ::
    "nat \<Rightarrow> nat \<Rightarrow> 'p psci_state \<Rightarrow> nat \<Rightarrow> plat_local_state_t" where
  "psci_get_req_local_pwr_states pwrlvl cpu_idx s =
     (\<lambda>k. psci_req_local_pwr_states s (pwrlvl - 1) (cpu_idx + k))"

definition get_non_cpu_pd_node_local_state :: "nat \<Rightarrow> 'p psci_state \<Rightarrow> plat_local_state_t" where
  "get_non_cpu_pd_node_local_state parent_idx s = local_state (psci_non_cpu_pd_nodes s parent_idx)"

definition set_non_cpu_pd_node_local_state ::
    "nat \<Rightarrow> plat_local_state_t \<Rightarrow> 'p psci_state \<Rightarrow> 'p psci_state" where
  "set_non_cpu_pd_node_local_state parent_idx st s =
     s\<lparr>psci_non_cpu_pd_nodes := (psci_non_cpu_pd_nodes s)
        (parent_idx := (psci_non_cpu_pd_nodes s parent_idx)\<lparr>local_state := st\<rparr>)\<rparr>"

function get_target_states_loop ::
    "nat \<Rightarrow> nat \<Rightarrow> nat \<Rightarrow> psci_power_state \<Rightarrow> 'p psci_state \<Rightarrow> psci_power_state" where
  "get_target_states_loop end_pwrlvl lvl parent_idx pd_state s =
     (if lvl \<le> end_pwrlvl
      then get_target_states_loop end_pwrlvl (lvl + 1)
             (parent_node (psci_non_cpu_pd_nodes s parent_idx))
             (pd_state(lvl := get_non_cpu_pd_node_local_state parent_idx s)) s
      else pd_state)"
  by pat_completeness auto
termination
  by (relation "measure (\<lambda>(e, lvl, _). Suc e - lvl)") auto

function set_run_loop :: "nat \<Rightarrow> nat \<Rightarrow> psci_power_state \<Rightarrow> psci_power_state" where
  "set_run_loop end_pwrlvl lvl pd_state =
     (if lvl \<le> end_pwrlvl then set_run_loop end_pwrlvl (lvl + 1) (pd_state(lvl := PSCI_LOCAL_STATE_RUN))
      else pd_state)"
  by pat_completeness auto
termination
  by (relation "measure (\<lambda>(e, lvl, _). Suc e - lvl)") auto

text \<open>After the first loop the level counter is \<open>max 1 (end_pwrlvl + 1)\<close>, where the second goes on.\<close>

definition psci_get_target_local_pwr_states ::
    "plat_def \<Rightarrow> nat \<Rightarrow> nat \<Rightarrow> psci_power_state \<Rightarrow> 'p psci_state \<Rightarrow> psci_power_state" where
  "psci_get_target_local_pwr_states P me end_pwrlvl target_state s =
     (let pd_state = target_state(PSCI_CPU_PWR_LVL := psci_get_cpu_local_state_by_idx me s);
          parent_idx = cpu_parent_node (psci_cpu_pd_nodes s me);
          pd_state = get_target_states_loop end_pwrlvl (PSCI_CPU_PWR_LVL + 1) parent_idx pd_state s
      in set_run_loop (PLAT_MAX_PWR_LVL P) (end_pwrlvl + 1) pd_state)"

function set_target_states_loop ::
    "nat \<Rightarrow> nat \<Rightarrow> nat \<Rightarrow> psci_power_state \<Rightarrow> 'p psci_state \<Rightarrow> 'p psci_state" where
  "set_target_states_loop end_pwrlvl lvl parent_idx pd_state s =
     (if lvl \<le> end_pwrlvl
      then let s' = set_non_cpu_pd_node_local_state parent_idx (pd_state lvl) s
           in set_target_states_loop end_pwrlvl (lvl + 1)
                (parent_node (psci_non_cpu_pd_nodes s' parent_idx)) pd_state s'
      else s)"
  by pat_completeness auto
termination
  by (relation "measure (\<lambda>(e, lvl, _). Suc e - lvl)") auto

definition psci_set_target_local_pwr_states ::
    "nat \<Rightarrow> nat \<Rightarrow> psci_power_state \<Rightarrow> 'p psci_state \<Rightarrow> 'p psci_state" where
  "psci_set_target_local_pwr_states me end_pwrlvl target_state s =
     (let s = psci_set_cpu_local_state me (target_state PSCI_CPU_PWR_LVL) s;
          parent_idx = cpu_parent_node (psci_cpu_pd_nodes s me)
      in set_target_states_loop end_pwrlvl 1 parent_idx target_state s)"

function parent_nodes_loop :: "nat \<Rightarrow> nat \<Rightarrow> nat \<Rightarrow> 'p psci_state \<Rightarrow> nat list" where
  "parent_nodes_loop end_lvl i parent s =
     (if i \<le> end_lvl
      then parent # parent_nodes_loop end_lvl (i + 1) (parent_node (psci_non_cpu_pd_nodes s parent)) s
      else [])"
  by pat_completeness auto
termination
  by (relation "measure (\<lambda>(e, lvl, _). Suc e - lvl)") auto

text \<open>The nodes written to the caller's array, in order.\<close>

definition psci_get_parent_pwr_domain_nodes :: "nat \<Rightarrow> nat \<Rightarrow> 'p psci_state \<Rightarrow> nat list" where
  "psci_get_parent_pwr_domain_nodes cpu_idx end_lvl s =
     parent_nodes_loop end_lvl (PSCI_CPU_PWR_LVL + 1) (cpu_parent_node (psci_cpu_pd_nodes s cpu_idx)) s"

function set_domains_run_loop :: "nat \<Rightarrow> nat \<Rightarrow> nat \<Rightarrow> nat \<Rightarrow> 'p psci_state \<Rightarrow> 'p psci_state" where
  "set_domains_run_loop end_pwrlvl cpu_idx lvl parent_idx s =
     (if lvl \<le> end_pwrlvl
      then let s = set_non_cpu_pd_node_local_state parent_idx PSCI_LOCAL_STATE_RUN s;
               s = psci_set_req_local_pwr_state lvl cpu_idx PSCI_LOCAL_STATE_RUN s
           in set_domains_run_loop end_pwrlvl cpu_idx (lvl + 1)
                (parent_node (psci_non_cpu_pd_nodes s parent_idx)) s
      else s)"
  by pat_completeness auto
termination
  by (relation "measure (\<lambda>(e, _, lvl, _). Suc e - lvl)") auto

definition psci_set_pwr_domains_to_run :: "nat \<Rightarrow> nat \<Rightarrow> 'p psci_state \<Rightarrow> 'p psci_state" where
  "psci_set_pwr_domains_to_run me end_pwrlvl s =
     (let s = set_domains_run_loop end_pwrlvl me (PSCI_CPU_PWR_LVL + 1)
                (cpu_parent_node (psci_cpu_pd_nodes s me)) s;
          s = psci_set_aff_info_state_by_idx me AFF_STATE_ON s
      in psci_set_cpu_local_state me PSCI_LOCAL_STATE_RUN s)"

subsubsection \<open>State coordination\<close>

text \<open>
  The default \<^verbatim>\<open>plat_get_target_pwr_state\<close> of \<^verbatim>\<open>plat/common/plat_psci_common.c\<close>, a do-while loop
  that counts the unsigned \<open>ncpu\<close> down to zero; \<open>i\<close> is the distance the states pointer has moved.
\<close>

primrec target_state_loop ::
    "nat \<Rightarrow> nat \<Rightarrow> (nat \<Rightarrow> plat_local_state_t) \<Rightarrow> plat_local_state_t \<Rightarrow> plat_local_state_t" where
  "target_state_loop 0 i states target = target"
| "target_state_loop (Suc n) i states target =
     target_state_loop n (i + 1) states (if states i < target then states i else target)"

definition plat_get_target_pwr_state ::
    "plat_local_state_t \<Rightarrow> nat \<Rightarrow> (nat \<Rightarrow> plat_local_state_t) \<Rightarrow> nat \<Rightarrow> plat_local_state_t" where
  "plat_get_target_pwr_state max_off_state lvl states ncpu =
     target_state_loop (if ncpu = 0 then 2 ^ 32 else ncpu) 0 states max_off_state"

text \<open>The first loop of \<^verbatim>\<open>psci_do_state_coordination\<close>; it gives the level it stopped at.\<close>

function coordination_loop ::
    "plat_def \<Rightarrow> nat \<Rightarrow> nat \<Rightarrow> nat \<Rightarrow> nat \<Rightarrow> psci_power_state \<Rightarrow> 'p psci_state \<Rightarrow>
     nat \<times> psci_power_state \<times> 'p psci_state" where
  "coordination_loop P cpu_idx end_pwrlvl lvl parent_idx state_info s =
     (if lvl \<le> end_pwrlvl
      then let s = psci_set_req_local_pwr_state lvl cpu_idx (state_info lvl) s;
               start_idx = cpu_start_idx (psci_non_cpu_pd_nodes s parent_idx);
               req_states = psci_get_req_local_pwr_states lvl start_idx s;
               ncpu = ncpus (psci_non_cpu_pd_nodes s parent_idx);
               state_info = state_info(lvl := get_target_pwr_state P lvl req_states ncpu)
           in if is_local_state_run (state_info lvl) then (lvl, state_info, s)
              else coordination_loop P cpu_idx end_pwrlvl (lvl + 1)
                     (parent_node (psci_non_cpu_pd_nodes s parent_idx)) state_info s
      else (lvl, state_info, s))"
  by pat_completeness auto
termination
  by (relation "measure (\<lambda>(_, _, e, lvl, _). Suc e - lvl)") auto

function coordination_rest ::
    "nat \<Rightarrow> nat \<Rightarrow> nat \<Rightarrow> psci_power_state \<Rightarrow> 'p psci_state \<Rightarrow> psci_power_state \<times> 'p psci_state" where
  "coordination_rest cpu_idx end_pwrlvl lvl state_info s =
     (if lvl \<le> end_pwrlvl
      then coordination_rest cpu_idx end_pwrlvl (lvl + 1) (state_info(lvl := PSCI_LOCAL_STATE_RUN))
             (psci_set_req_local_pwr_state lvl cpu_idx (state_info lvl) s)
      else (state_info, s))"
  by pat_completeness auto
termination
  by (relation "measure (\<lambda>(_, e, lvl, _). Suc e - lvl)") auto

definition psci_do_state_coordination ::
    "plat_def \<Rightarrow> nat \<Rightarrow> nat \<Rightarrow> psci_power_state \<Rightarrow> 'p psci_state \<Rightarrow> psci_power_state \<times> 'p psci_state" where
  "psci_do_state_coordination P me end_pwrlvl state_info s =
     (let (lvl, state_info, s) =
            coordination_loop P me end_pwrlvl (PSCI_CPU_PWR_LVL + 1)
              (cpu_parent_node (psci_cpu_pd_nodes s me)) state_info s;
          (state_info, s) = coordination_rest me end_pwrlvl (lvl + 1) state_info s
      in (state_info, psci_set_target_local_pwr_states me end_pwrlvl state_info s))"

declare get_target_states_loop.simps [simp del] set_run_loop.simps [simp del]
  set_target_states_loop.simps [simp del] parent_nodes_loop.simps [simp del]
  set_domains_run_loop.simps [simp del] coordination_loop.simps [simp del]
  coordination_rest.simps [simp del]

subsubsection \<open>Validation of suspend requests\<close>

primrec max_off_lvl_loop :: "plat_def \<Rightarrow> psci_power_state \<Rightarrow> nat \<Rightarrow> nat" where
  "max_off_lvl_loop P state_info 0 =
     (if is_local_state_off P (state_info 0) then 0 else PSCI_INVALID_PWR_LVL P)"
| "max_off_lvl_loop P state_info (Suc i) =
     (if is_local_state_off P (state_info (Suc i)) then Suc i else max_off_lvl_loop P state_info i)"

definition psci_find_max_off_lvl :: "plat_def \<Rightarrow> psci_power_state \<Rightarrow> nat" where
  "psci_find_max_off_lvl P state_info = max_off_lvl_loop P state_info (PLAT_MAX_PWR_LVL P)"

primrec target_suspend_lvl_loop :: "plat_def \<Rightarrow> psci_power_state \<Rightarrow> nat \<Rightarrow> nat" where
  "target_suspend_lvl_loop P state_info 0 =
     (if \<not> is_local_state_run (state_info 0) then 0 else PSCI_INVALID_PWR_LVL P)"
| "target_suspend_lvl_loop P state_info (Suc i) =
     (if \<not> is_local_state_run (state_info (Suc i)) then Suc i
      else target_suspend_lvl_loop P state_info i)"

definition psci_find_target_suspend_lvl :: "plat_def \<Rightarrow> psci_power_state \<Rightarrow> nat" where
  "psci_find_target_suspend_lvl P state_info =
     target_suspend_lvl_loop P state_info (PLAT_MAX_PWR_LVL P)"

text \<open>
  The descending loop of \<^verbatim>\<open>psci_validate_suspend_req\<close>: \<open>False\<close> is its early return of
  \<^verbatim>\<open>PSCI_E_INVALID_PARAMS\<close>.
\<close>

primrec suspend_req_loop :: "plat_def \<Rightarrow> psci_power_state \<Rightarrow> nat \<Rightarrow> plat_local_state_type \<Rightarrow> bool" where
  "suspend_req_loop P state_info 0 deepest =
     (\<not> find_local_state_type P (state_info 0) < deepest)"
| "suspend_req_loop P state_info (Suc i) deepest =
     (if find_local_state_type P (state_info (Suc i)) < deepest then False
      else suspend_req_loop P state_info i (find_local_state_type P (state_info (Suc i))))"

definition psci_validate_suspend_req :: "plat_def \<Rightarrow> psci_power_state \<Rightarrow> bool \<Rightarrow> int" where
  "psci_validate_suspend_req P state_info is_power_down_state =
     (let target_lvl = psci_find_target_suspend_lvl P state_info in
      if target_lvl = PSCI_INVALID_PWR_LVL P then PSCI_E_INVALID_PARAMS
      else if \<not> suspend_req_loop P state_info target_lvl STATE_TYPE_RUN then PSCI_E_INVALID_PARAMS
      else let max_off_lvl = psci_find_max_off_lvl P state_info;
               max_retn_lvl = (if target_lvl \<noteq> max_off_lvl then target_lvl else PSCI_INVALID_PWR_LVL P)
           in if \<not> is_power_down_state \<and>
                 (max_off_lvl \<noteq> PSCI_INVALID_PWR_LVL P \<or> max_retn_lvl = PSCI_INVALID_PWR_LVL P)
              then PSCI_E_INVALID_PARAMS
              else PSCI_E_SUCCESS)"

subsubsection \<open>Locking the path to the root\<close>

function acquire_locks_loop :: "nat \<Rightarrow> nat \<Rightarrow> nat \<Rightarrow> nat \<Rightarrow> 'p psci_state \<Rightarrow> 'p psci_state option" where
  "acquire_locks_loop me end_pwrlvl lvl parent_idx s =
     (if lvl \<le> end_pwrlvl
      then case psci_lock_get me parent_idx s of
             None \<Rightarrow> None
           | Some s' \<Rightarrow> acquire_locks_loop me end_pwrlvl (lvl + 1)
               (parent_node (psci_non_cpu_pd_nodes s' parent_idx)) s'
      else Some s)"
  by pat_completeness auto
termination
  by (relation "measure (\<lambda>(_, e, lvl, _). Suc e - lvl)") auto

definition psci_acquire_pwr_domain_locks :: "nat \<Rightarrow> nat \<Rightarrow> 'p psci_state \<Rightarrow> 'p psci_state option" where
  "psci_acquire_pwr_domain_locks end_pwrlvl cpu_idx s =
     acquire_locks_loop cpu_idx end_pwrlvl (PSCI_CPU_PWR_LVL + 1)
       (cpu_parent_node (psci_cpu_pd_nodes s cpu_idx)) s"

primrec release_locks_loop :: "nat list \<Rightarrow> nat \<Rightarrow> 'p psci_state \<Rightarrow> 'p psci_state" where
  "release_locks_loop parent_nodes 0 s = s"
| "release_locks_loop parent_nodes (Suc l) s =
     release_locks_loop parent_nodes l (psci_lock_release (parent_nodes ! l) s)"

definition psci_release_pwr_domain_locks :: "nat \<Rightarrow> nat \<Rightarrow> 'p psci_state \<Rightarrow> 'p psci_state" where
  "psci_release_pwr_domain_locks end_pwrlvl cpu_idx s =
     release_locks_loop (psci_get_parent_pwr_domain_nodes cpu_idx end_pwrlvl s) end_pwrlvl s"

declare acquire_locks_loop.simps [simp del]

subsubsection \<open>Entry points\<close>

definition psci_validate_mpidr :: "plat_def \<Rightarrow> u64 \<Rightarrow> int" where
  "psci_validate_mpidr P mpidr =
     (if plat_core_pos_by_mpidr P mpidr < 0 then PSCI_E_INVALID_PARAMS else PSCI_E_SUCCESS)"

definition SCR_HCE_BIT :: u64 where "SCR_HCE_BIT = push_bit 8 1"
definition SCR_RW_BIT :: u64 where "SCR_RW_BIT = push_bit 10 1"
definition SCTLR_EE_BIT :: u64 where "SCTLR_EE_BIT = push_bit 25 1"
definition EP_ST_DISABLE :: u32 where "EP_ST_DISABLE = 0"
definition EP_EE_BIG :: u32 where "EP_EE_BIG = 2"
definition MODE_EL1 :: u32 where "MODE_EL1 = 1"
definition MODE_EL2 :: u32 where "MODE_EL2 = 2"
definition MODE_SP_ELX :: u32 where "MODE_SP_ELX = 1"
definition MODE32_svc :: u32 where "MODE32_svc = 3"
definition MODE32_hyp :: u32 where "MODE32_hyp = 0xa"
definition DAIF_FIQ_BIT :: u32 where "DAIF_FIQ_BIT = 1"
definition DAIF_IRQ_BIT :: u32 where "DAIF_IRQ_BIT = 2"
definition DAIF_ABT_BIT :: u32 where "DAIF_ABT_BIT = 4"
definition DAIF_DBG_BIT :: u32 where "DAIF_DBG_BIT = 8"
definition DISABLE_ALL_EXCEPTIONS :: u32 where
  "DISABLE_ALL_EXCEPTIONS = DAIF_FIQ_BIT OR DAIF_IRQ_BIT OR DAIF_ABT_BIT OR DAIF_DBG_BIT"

definition SPSR_64 :: "u32 \<Rightarrow> u32 \<Rightarrow> u32 \<Rightarrow> u32" where
  "SPSR_64 el sp daif =
     push_bit 4 0 OR push_bit 2 (el AND 3) OR push_bit 0 (sp AND 1) OR push_bit 6 (daif AND 0xf)"

definition SPSR_MODE32 :: "u32 \<Rightarrow> u32 \<Rightarrow> u32 \<Rightarrow> u32 \<Rightarrow> u32" where
  "SPSR_MODE32 mode isa endian aif =
     push_bit 4 1 OR push_bit 0 (mode AND 0xf) OR push_bit 5 (isa AND 1) OR push_bit 9 (endian AND 1)
     OR push_bit 6 (aif AND 7)"

text \<open>The AArch64 variant. The structure is the caller's, so fields it leaves alone keep their value.\<close>

definition psci_get_ns_ep_info ::
    "arch_regs \<Rightarrow> entry_point_info \<Rightarrow> u64 \<Rightarrow> u64 \<Rightarrow> int \<times> entry_point_info" where
  "psci_get_ns_ep_info R ep entrypoint context_id =
     (let ns_scr_el3 = scr_el3 R;
          sctlr = (if ns_scr_el3 AND SCR_HCE_BIT \<noteq> 0 then sctlr_el2 R else sctlr_el1 R);
          big = (sctlr AND SCTLR_EE_BIT \<noteq> 0);
          ee = (if big then 1 else 0);
          ep_attr_v = (NON_SECURE OR EP_ST_DISABLE) OR (if big then EP_EE_BIG else 0);
          ep = ep\<lparr>ep_type := PARAM_EP, ep_version := VERSION_1, ep_size := 88, ep_attr := ep_attr_v,
                  ep_pc := entrypoint, ep_args := context_id # replicate 7 0\<rparr>
      in if ns_scr_el3 AND SCR_RW_BIT \<noteq> 0
         then if entrypoint AND 1 \<noteq> 0 then (PSCI_E_INVALID_ADDRESS, ep)
              else let mode = (if ns_scr_el3 AND SCR_HCE_BIT \<noteq> 0 then MODE_EL2 else MODE_EL1)
                   in (PSCI_E_SUCCESS, ep\<lparr>ep_spsr := SPSR_64 mode MODE_SP_ELX DISABLE_ALL_EXCEPTIONS\<rparr>)
         else let mode = (if ns_scr_el3 AND SCR_HCE_BIT \<noteq> 0 then MODE32_hyp else MODE32_svc);
                  daif = DAIF_ABT_BIT OR DAIF_IRQ_BIT OR DAIF_FIQ_BIT
              in (PSCI_E_SUCCESS, ep\<lparr>ep_spsr := SPSR_MODE32 mode (ucast (entrypoint AND 1)) ee daif\<rparr>))"

definition psci_validate_entry_point ::
    "arch_regs \<Rightarrow> entry_point_info \<Rightarrow> u64 \<Rightarrow> u64 \<Rightarrow> 'p psci_state \<Rightarrow> int \<times> entry_point_info" where
  "psci_validate_entry_point R ep entrypoint context_id s =
     (case validate_ns_entrypoint (psci_plat_pm_ops s) of
        Some f \<Rightarrow>
          if f entrypoint \<noteq> PSCI_E_SUCCESS then (PSCI_E_INVALID_ADDRESS, ep)
          else psci_get_ns_ep_info R ep entrypoint context_id
      | None \<Rightarrow> psci_get_ns_ep_info R ep entrypoint context_id)"

subsubsection \<open>Secure payload hooks and capabilities\<close>

definition PSCI_MIG_AARCH64 :: u32 where "PSCI_MIG_AARCH64 = 0xc4000005"
definition PSCI_MIG_INFO_TYPE :: u32 where "PSCI_MIG_INFO_TYPE = 0x84000006"
definition PSCI_MIG_INFO_UP_CPU_AARCH64 :: u32 where "PSCI_MIG_INFO_UP_CPU_AARCH64 = 0xc4000007"

definition PSCI_TOS_UP_MIG_CAP :: int where "PSCI_TOS_UP_MIG_CAP = 0"
definition PSCI_TOS_NOT_UP_MIG_CAP :: int where "PSCI_TOS_NOT_UP_MIG_CAP = 1"
definition PSCI_TOS_NOT_PRESENT_MP :: int where "PSCI_TOS_NOT_PRESENT_MP = 2"

definition define_psci_cap :: "u32 \<Rightarrow> u32" where
  "define_psci_cap x = push_bit (unat (x AND 0x1f)) 1"

definition psci_register_spd_pm_hook :: "'p spd_pm_ops \<Rightarrow> 'p psci_state \<Rightarrow> 'p psci_state" where
  "psci_register_spd_pm_hook pm s =
     (let s = s\<lparr>psci_spd_pm := Some pm\<rparr>;
          s = (if svc_migrate pm \<noteq> None
               then s\<lparr>psci_caps := psci_caps s OR define_psci_cap PSCI_MIG_AARCH64\<rparr> else s)
      in if svc_migrate_info pm \<noteq> None
         then s\<lparr>psci_caps := psci_caps s OR (define_psci_cap PSCI_MIG_INFO_UP_CPU_AARCH64
                  OR define_psci_cap PSCI_MIG_INFO_TYPE)\<rparr>
         else s)"

text \<open>The return code and the MPIDR the hook stores, if it is called.\<close>

definition psci_spd_migrate_info :: "'p psci_state \<Rightarrow> int \<times> u64 option" where
  "psci_spd_migrate_info s =
     (case psci_spd_pm s of
        None \<Rightarrow> (PSCI_E_NOT_SUPPORTED, None)
      | Some pm \<Rightarrow>
          (case svc_migrate_info pm of
             None \<Rightarrow> (PSCI_E_NOT_SUPPORTED, None)
           | Some f \<Rightarrow> (let (rc, mpidr) = f (plat_state s) in (rc, Some mpidr))))"

definition psci_secondaries_brought_up :: "plat_def \<Rightarrow> 'p psci_state \<Rightarrow> bool" where
  "psci_secondaries_brought_up P s \<longleftrightarrow>
     length (filter (\<lambda>idx. cpu_mpidr (psci_cpu_pd_nodes s idx) \<noteq> PSCI_INVALID_MPIDR)
       [0..<PLATFORM_CORE_COUNT P]) > 1"

definition psci_do_pwrdown_sequence :: "nat \<Rightarrow> 'p psci_state \<Rightarrow> 'p psci_state" where
  "psci_do_pwrdown_sequence power_level s = emit (Pwrdown_sequence power_level) s"

text \<open>
  \<^verbatim>\<open>cm_init_context_by_index\<close> and \<^verbatim>\<open>cm_init_my_context\<close> of the context library: the entry point
  the CPU resumes the non-secure world at.
\<close>

definition cm_init_context_by_index :: "nat \<Rightarrow> entry_point_info \<Rightarrow> 'p psci_state \<Rightarrow> 'p psci_state" where
  "cm_init_context_by_index cpu_idx ep s = s\<lparr>psci_ns_context := (psci_ns_context s)(cpu_idx := Some ep)\<rparr>"

end
