(* ===== verification/Psci_Coord.thy ===== *)
theory Psci_Coord
  imports Psci_Common
begin

text \<open>
  The laws of the helpers: the well-formed power domain tree, and what the loops over the path of a CPU
  do to it. Each loop is equal to one update of the whole path.
\<close>

subsection \<open>The tree\<close>

primrec ancestor :: "'p psci_state \<Rightarrow> nat \<Rightarrow> nat \<Rightarrow> nat" where
  "ancestor s c 0 = cpu_parent_node (psci_cpu_pd_nodes s c)"
| "ancestor s c (Suc k) = parent_node (psci_non_cpu_pd_nodes s (ancestor s c k))"

definition pd_node :: "'p psci_state \<Rightarrow> nat \<Rightarrow> nat \<Rightarrow> nat" where
  "pd_node s c l = ancestor s c (l - 1)"

definition in_domain :: "'p psci_state \<Rightarrow> nat \<Rightarrow> nat \<Rightarrow> bool" where
  "in_domain s n c \<longleftrightarrow>
     (let nd = psci_non_cpu_pd_nodes s n in cpu_start_idx nd \<le> c \<and> c < cpu_start_idx nd + ncpus nd)"

definition wf_node :: "plat_def \<Rightarrow> 'p psci_state \<Rightarrow> nat \<Rightarrow> nat \<Rightarrow> bool" where
  "wf_node P s c l \<longleftrightarrow>
     (let n = pd_node s c l; nd = psci_non_cpu_pd_nodes s n in
      n < PSCI_NUM_NON_CPU_PWR_DOMAINS P \<and> level nd = l \<and> lock_index nd = n \<and>
      in_domain s n c \<and> cpu_start_idx nd + ncpus nd \<le> PLATFORM_CORE_COUNT P \<and>
      (\<forall>c' < PLATFORM_CORE_COUNT P. in_domain s n c' \<longrightarrow> pd_node s c' l = n))"

definition wf_tree :: "plat_def \<Rightarrow> 'p psci_state \<Rightarrow> bool" where
  "wf_tree P s \<longleftrightarrow>
     (\<forall>c < PLATFORM_CORE_COUNT P. \<forall>l \<in> {1..PLAT_MAX_PWR_LVL P}. wf_node P s c l)"

definition same_tree :: "'p psci_state \<Rightarrow> 'p psci_state \<Rightarrow> bool" where
  "same_tree s s' \<longleftrightarrow>
     (\<forall>n. (psci_non_cpu_pd_nodes s' n)\<lparr>local_state := 0\<rparr> = (psci_non_cpu_pd_nodes s n)\<lparr>local_state := 0\<rparr>) \<and>
     (\<forall>c. cpu_parent_node (psci_cpu_pd_nodes s' c) = cpu_parent_node (psci_cpu_pd_nodes s c))"

lemma pd_node_1: "pd_node s c (Suc 0) = cpu_parent_node (psci_cpu_pd_nodes s c)"
  by (simp add: pd_node_def)

lemma pd_node_Suc: "1 \<le> l \<Longrightarrow> parent_node (psci_non_cpu_pd_nodes s (pd_node s c l)) = pd_node s c (Suc l)"
  by (cases l) (simp_all add: pd_node_def)

lemma node_eq_iff:
  "(a :: non_cpu_pd_node)\<lparr>local_state := 0\<rparr> = b\<lparr>local_state := 0\<rparr> \<longleftrightarrow>
   cpu_start_idx a = cpu_start_idx b \<and> ncpus a = ncpus b \<and> parent_node a = parent_node b \<and>
   level a = level b \<and> lock_index a = lock_index b"
  by (cases a; cases b) auto

lemma same_tree_refl [simp]: "same_tree s s"
  by (simp add: same_tree_def)

lemma same_tree_trans: "same_tree s t \<Longrightarrow> same_tree t u \<Longrightarrow> same_tree s u"
  by (simp add: same_tree_def)

lemma same_tree_sym: "same_tree s t \<Longrightarrow> same_tree t s"
  by (simp add: same_tree_def)

lemma same_tree_fields:
  assumes "same_tree s s'"
  shows "cpu_start_idx (psci_non_cpu_pd_nodes s' n) = cpu_start_idx (psci_non_cpu_pd_nodes s n)"
    and "ncpus (psci_non_cpu_pd_nodes s' n) = ncpus (psci_non_cpu_pd_nodes s n)"
    and "parent_node (psci_non_cpu_pd_nodes s' n) = parent_node (psci_non_cpu_pd_nodes s n)"
    and "level (psci_non_cpu_pd_nodes s' n) = level (psci_non_cpu_pd_nodes s n)"
    and "lock_index (psci_non_cpu_pd_nodes s' n) = lock_index (psci_non_cpu_pd_nodes s n)"
    and "cpu_parent_node (psci_cpu_pd_nodes s' c) = cpu_parent_node (psci_cpu_pd_nodes s c)"
  using assms by (auto simp: same_tree_def node_eq_iff)

lemma same_tree_pd_node: "same_tree s s' \<Longrightarrow> pd_node s' c l = pd_node s c l"
proof -
  assume t: "same_tree s s'"
  have "ancestor s' c k = ancestor s c k" for k
    by (induction k) (simp_all add: same_tree_fields [OF t])
  then show ?thesis by (simp add: pd_node_def)
qed

lemma same_tree_in_domain: "same_tree s s' \<Longrightarrow> in_domain s' n c = in_domain s n c"
  unfolding in_domain_def Let_def by (simp only: same_tree_fields(1,2) [of s s'])

lemma same_tree_wf:
  assumes t: "same_tree s s'"
  shows "wf_tree P s' = wf_tree P s"
  unfolding wf_tree_def wf_node_def Let_def
  by (simp only: same_tree_pd_node [OF t] same_tree_in_domain [OF t] same_tree_fields [OF t])

text \<open>The tree does not depend on the rest of the state.\<close>

lemma same_tree_upd [simp]:
  "same_tree s (psci_req_local_pwr_states_update f1 s)" "same_tree s (psci_svc_cpu_data_update f2 s)"
  "same_tree s (psci_locks_update f3 s)" "same_tree s (cpu_locks_update f4 s)"
  "same_tree s (psci_ns_context_update f5 s)" "same_tree s (plat_state_update f6 s)"
  "same_tree s (psci_events_update f7 s)" "same_tree s (emit ev s)" "same_tree s (on_plat g s)"
  by (simp_all add: same_tree_def emit_def on_plat_def)

lemmas pd_node_upd [simp] = same_tree_upd [THEN same_tree_pd_node]
lemmas in_domain_upd [simp] = same_tree_upd [THEN same_tree_in_domain]
lemmas wf_tree_upd [simp] = same_tree_upd [THEN same_tree_wf]

lemma wf_treeD:
  assumes "wf_tree P s" "c < PLATFORM_CORE_COUNT P" "1 \<le> l" "l \<le> PLAT_MAX_PWR_LVL P"
  shows "pd_node s c l < PSCI_NUM_NON_CPU_PWR_DOMAINS P"
    and "level (psci_non_cpu_pd_nodes s (pd_node s c l)) = l"
    and "lock_index (psci_non_cpu_pd_nodes s (pd_node s c l)) = pd_node s c l"
    and "in_domain s (pd_node s c l) c"
    and "cpu_start_idx (psci_non_cpu_pd_nodes s (pd_node s c l)) +
         ncpus (psci_non_cpu_pd_nodes s (pd_node s c l)) \<le> PLATFORM_CORE_COUNT P"
    and "c' < PLATFORM_CORE_COUNT P \<Longrightarrow> in_domain s (pd_node s c l) c' \<Longrightarrow> pd_node s c' l = pd_node s c l"
proof -
  have w: "wf_node P s c l" using assms unfolding wf_tree_def by simp
  show "pd_node s c l < PSCI_NUM_NON_CPU_PWR_DOMAINS P"
    and "level (psci_non_cpu_pd_nodes s (pd_node s c l)) = l"
    and "lock_index (psci_non_cpu_pd_nodes s (pd_node s c l)) = pd_node s c l"
    and "in_domain s (pd_node s c l) c"
    and "cpu_start_idx (psci_non_cpu_pd_nodes s (pd_node s c l)) +
         ncpus (psci_non_cpu_pd_nodes s (pd_node s c l)) \<le> PLATFORM_CORE_COUNT P"
    and "c' < PLATFORM_CORE_COUNT P \<Longrightarrow> in_domain s (pd_node s c l) c' \<Longrightarrow> pd_node s c' l = pd_node s c l"
    using w unfolding wf_node_def Let_def by blast+
qed

lemma pd_node_inj:
  assumes "wf_tree P s" "c < PLATFORM_CORE_COUNT P" "c' < PLATFORM_CORE_COUNT P"
    "1 \<le> l" "l \<le> PLAT_MAX_PWR_LVL P" "1 \<le> m" "m \<le> PLAT_MAX_PWR_LVL P"
    and "pd_node s c l = pd_node s c' m"
  shows "l = m"
  using wf_treeD(2) [OF assms(1,2,4,5)] wf_treeD(2) [OF assms(1,3,6,7)] assms(8) by simp

subsection \<open>Loops along the path to the root\<close>

lemma parent_nodes_loop_eq:
  "1 \<le> i \<Longrightarrow> parent_nodes_loop e i (pd_node s c i) s = map (pd_node s c) [i..<Suc e]"
proof (induction "Suc e - i" arbitrary: i)
  case 0
  then show ?case by (subst parent_nodes_loop.simps) simp
next
  case (Suc n)
  then have "i \<le> e" "n = Suc e - Suc i" by auto
  then have "parent_nodes_loop e (Suc i) (pd_node s c (Suc i)) s = map (pd_node s c) [Suc i..<Suc e]"
    using Suc by simp
  then show ?case using \<open>i \<le> e\<close> Suc.prems
    by (subst parent_nodes_loop.simps) (simp add: pd_node_Suc upt_conv_Cons del: upt_Suc)
qed

lemma psci_get_parent_pwr_domain_nodes_eq:
  "psci_get_parent_pwr_domain_nodes c e s = map (pd_node s c) [1..<Suc e]"
  using parent_nodes_loop_eq [of 1 e s c]
  by (simp add: psci_get_parent_pwr_domain_nodes_def PSCI_CPU_PWR_LVL_def pd_node_1 del: upt_Suc)

subsection \<open>Coordination\<close>

text \<open>The states requested after CPU \<open>c\<close> asked for \<open>si\<close> at the levels \<open>lo\<close> to \<open>e\<close>.\<close>

definition requests :: "nat \<Rightarrow> nat \<Rightarrow> nat \<Rightarrow> psci_power_state \<Rightarrow> (nat \<Rightarrow> nat \<Rightarrow> plat_local_state_t) \<Rightarrow>
    nat \<Rightarrow> nat \<Rightarrow> plat_local_state_t" where
  "requests c lo e si req = (\<lambda>l c'. if lo \<le> Suc l \<and> Suc l \<le> e \<and> c' = c then si (Suc l) else req l c')"

definition domain_target :: "plat_def \<Rightarrow> 'p psci_state \<Rightarrow> nat \<Rightarrow> (nat \<Rightarrow> nat \<Rightarrow> plat_local_state_t) \<Rightarrow>
    nat \<Rightarrow> plat_local_state_t" where
  "domain_target P s c req l =
     (let nd = psci_non_cpu_pd_nodes s (pd_node s c l)
      in get_target_pwr_state P l (\<lambda>k. req (l - 1) (cpu_start_idx nd + k)) (ncpus nd))"

definition coordinated :: "plat_def \<Rightarrow> 'p psci_state \<Rightarrow> nat \<Rightarrow> (nat \<Rightarrow> nat \<Rightarrow> plat_local_state_t) \<Rightarrow>
    nat \<Rightarrow> nat \<Rightarrow> plat_local_state_t" where
  "coordinated P s c req lo l =
     (if \<exists>m \<in> {lo..l}. domain_target P s c req m = PSCI_LOCAL_STATE_RUN then PSCI_LOCAL_STATE_RUN
      else domain_target P s c req l)"

lemma coordination_rest_eq:
  "1 \<le> lvl \<Longrightarrow> coordination_rest c e lvl si s =
     (\<lambda>l. if lvl \<le> l \<and> l \<le> e then PSCI_LOCAL_STATE_RUN else si l,
      s\<lparr>psci_req_local_pwr_states := requests c lvl e si (psci_req_local_pwr_states s)\<rparr>)"
proof (induction "Suc e - lvl" arbitrary: lvl si s)
  case 0
  then show ?case
    by (subst coordination_rest.simps) (auto simp: requests_def fun_eq_iff intro!: psci_state.equality)
next
  case (Suc n)
  then have "lvl \<le> e" "n = Suc e - Suc lvl" by auto
  with Suc.hyps(1) [of "Suc lvl"] Suc.prems \<open>lvl \<le> e\<close> show ?case
    by (subst coordination_rest.simps)
      (auto simp: requests_def psci_set_req_local_pwr_state_def fun_eq_iff intro!: psci_state.equality)
qed

lemma requests_split:
  "1 \<le> lvl \<Longrightarrow> lvl \<le> e \<Longrightarrow>
   requests c (Suc lvl) e (si(lvl := t)) (requests c lvl lvl si req) = requests c lvl e si req"
  by (auto simp: requests_def fun_eq_iff)

lemma domain_target_req [simp]:
  "domain_target P (s\<lparr>psci_req_local_pwr_states := r\<rparr>) c req l = domain_target P s c req l"
proof -
  have "same_tree s (s\<lparr>psci_req_local_pwr_states := r\<rparr>)" by (simp add: same_tree_def)
  then show ?thesis by (simp add: domain_target_def same_tree_pd_node)
qed

lemma coordinated_req [simp]:
  "coordinated P (s\<lparr>psci_req_local_pwr_states := r\<rparr>) c req lo l = coordinated P s c req lo l"
  by (simp add: coordinated_def)

lemma coordinated_Suc:
  assumes "lo \<le> l"
  shows "coordinated P s c req lo l =
    (if domain_target P s c req lo = PSCI_LOCAL_STATE_RUN then PSCI_LOCAL_STATE_RUN
     else if lo = l then domain_target P s c req l else coordinated P s c req (Suc lo) l)"
proof -
  have "{lo..l} = insert lo {Suc lo..l}" using assms by auto
  then show ?thesis by (auto simp: coordinated_def)
qed

lemma coordination_loop_step:
  assumes "1 \<le> lvl" "lvl \<le> e"
    and "t = domain_target P s c (requests c lvl e si (psci_req_local_pwr_states s)) lvl"
    and s': "s' = s\<lparr>psci_req_local_pwr_states := requests c lvl lvl si (psci_req_local_pwr_states s)\<rparr>"
  shows "coordination_loop P c e lvl (pd_node s c lvl) si s =
    (if t = PSCI_LOCAL_STATE_RUN then (lvl, si(lvl := t), s')
     else coordination_loop P c e (Suc lvl) (pd_node s' c (Suc lvl)) (si(lvl := t)) s')"
proof -
  have st: "same_tree s s'" by (simp add: s' same_tree_def)
  have set: "psci_set_req_local_pwr_state lvl c (si lvl) s = s'"
    using assms(1) by (auto simp: s' psci_set_req_local_pwr_state_def requests_def fun_eq_iff
        intro!: psci_state.equality)
  have "psci_get_req_local_pwr_states lvl x s' =
      (\<lambda>k. requests c lvl e si (psci_req_local_pwr_states s) (lvl - 1) (x + k))" for x
    using assms(1,2) by (auto simp: psci_get_req_local_pwr_states_def s' requests_def)
  then have "get_target_pwr_state P lvl
      (psci_get_req_local_pwr_states lvl (cpu_start_idx (psci_non_cpu_pd_nodes s' (pd_node s c lvl))) s')
      (ncpus (psci_non_cpu_pd_nodes s' (pd_node s c lvl))) = t"
    by (simp add: assms(3) domain_target_def s' Let_def)
  moreover have "parent_node (psci_non_cpu_pd_nodes s' (pd_node s c lvl)) = pd_node s' c (Suc lvl)"
    using pd_node_Suc [OF assms(1), of s' c] by (simp add: same_tree_pd_node [OF st])
  ultimately show ?thesis
    using assms(2) by (subst coordination_loop.simps) (simp add: set is_local_state_run_def Let_def)
qed

lemma coordination_loop_eq:
  assumes "1 \<le> lvl" and "coordination_loop P c e lvl (pd_node s c lvl) si s = (l1, si1, s1)"
  shows "coordination_rest c e (l1 + 1) si1 s1 =
     (\<lambda>l. if lvl \<le> l \<and> l \<le> e
          then coordinated P s c (requests c lvl e si (psci_req_local_pwr_states s)) lvl l else si l,
      s\<lparr>psci_req_local_pwr_states := requests c lvl e si (psci_req_local_pwr_states s)\<rparr>)"
  using assms
proof (induction "Suc e - lvl" arbitrary: lvl si s)
  case 0
  then have "\<not> lvl \<le> e" by simp
  with 0 have "l1 = lvl" "si1 = si" "s1 = s" by (simp_all add: coordination_loop.simps)
  with \<open>\<not> lvl \<le> e\<close> show ?case
    by (auto simp: coordination_rest_eq requests_def fun_eq_iff intro!: psci_state.equality)
next
  case (Suc n)
  then have le: "lvl \<le> e" "n = Suc e - Suc lvl" by auto
  define r where "r = requests c lvl e si (psci_req_local_pwr_states s)"
  define t where "t = domain_target P s c r lvl"
  define s' where "s' = s\<lparr>psci_req_local_pwr_states := requests c lvl lvl si (psci_req_local_pwr_states s)\<rparr>"
  note split = requests_split [OF Suc.prems(1) le(1)]
  note step = coordination_loop_step [OF Suc.prems(1) le(1) t_def [unfolded r_def] s'_def]
  show ?case
  proof (cases "t = PSCI_LOCAL_STATE_RUN")
    case True
    then have "l1 = lvl" "si1 = si(lvl := t)" "s1 = s'" using Suc.prems(2) step by auto
    then show ?thesis using True le(1)
      by (simp add: coordination_rest_eq s'_def split)
        (auto simp: fun_eq_iff coordinated_Suc t_def [unfolded r_def])
  next
    case False
    then have "coordination_loop P c e (Suc lvl) (pd_node s' c (Suc lvl)) (si(lvl := t)) s' = (l1, si1, s1)"
      using Suc.prems(2) step by simp
    from Suc.hyps(1) [OF le(2) _ this] False le(1) show ?thesis
      by (auto simp: s'_def split fun_eq_iff coordinated_Suc t_def [unfolded r_def])
  qed
qed

definition coord_reqs ::
    "nat \<Rightarrow> nat \<Rightarrow> psci_power_state \<Rightarrow> 'p psci_state \<Rightarrow> nat \<Rightarrow> nat \<Rightarrow> plat_local_state_t" where
  "coord_reqs me e si s = requests me 1 e si (psci_req_local_pwr_states s)"

definition coord_states ::
    "plat_def \<Rightarrow> nat \<Rightarrow> nat \<Rightarrow> psci_power_state \<Rightarrow> 'p psci_state \<Rightarrow> psci_power_state" where
  "coord_states P me e si s =
     (\<lambda>l. if 1 \<le> l \<and> l \<le> e then coordinated P s me (coord_reqs me e si s) 1 l else si l)"

lemma psci_do_state_coordination_eq:
  "psci_do_state_coordination P me e si s =
     (coord_states P me e si s,
      psci_set_target_local_pwr_states me e (coord_states P me e si s)
        (s\<lparr>psci_req_local_pwr_states := coord_reqs me e si s\<rparr>))"
proof -
  obtain l1 si1 s1 where l: "coordination_loop P me e 1 (pd_node s me 1) si s = (l1, si1, s1)"
    by (cases "coordination_loop P me e 1 (pd_node s me 1) si s")
  have "pd_node s me 1 = cpu_parent_node (psci_cpu_pd_nodes s me)" by (simp add: pd_node_1)
  with coordination_loop_eq [OF _ l] l show ?thesis
    by (simp add: psci_do_state_coordination_def PSCI_CPU_PWR_LVL_def coord_reqs_def coord_states_def cong: if_cong)
qed

subsection \<open>Writing the states of the path\<close>

lemma same_tree_set_node [simp]: "same_tree s (set_non_cpu_pd_node_local_state n v s)"
  by (simp add: same_tree_def set_non_cpu_pd_node_local_state_def)

text \<open>The states of the domains above CPU \<open>c\<close> at levels \<open>lo\<close> to \<open>e\<close> set to \<open>si\<close>.\<close>

definition path_states ::
    "nat \<Rightarrow> nat \<Rightarrow> nat \<Rightarrow> psci_power_state \<Rightarrow> 'p psci_state \<Rightarrow> nat \<Rightarrow> non_cpu_pd_node" where
  "path_states c lo e si s =
     (\<lambda>n. let nd = psci_non_cpu_pd_nodes s n
          in if n \<in> pd_node s c ` {lo..e} then nd\<lparr>local_state := si (level nd)\<rparr> else nd)"

definition path_levels :: "nat \<Rightarrow> nat \<Rightarrow> 'p psci_state \<Rightarrow> bool" where
  "path_levels c e s \<longleftrightarrow> (\<forall>l \<in> {1..e}. level (psci_non_cpu_pd_nodes s (pd_node s c l)) = l)"

lemma wf_path_levels:
  "wf_tree P s \<Longrightarrow> c < PLATFORM_CORE_COUNT P \<Longrightarrow> e \<le> PLAT_MAX_PWR_LVL P \<Longrightarrow> path_levels c e s"
  using wf_treeD(2) [of P s c] by (simp add: path_levels_def)

lemma path_states_step:
  assumes "1 \<le> lvl" "lvl \<le> e" "path_levels c e s" and t: "same_tree s s'"
    and n: "psci_non_cpu_pd_nodes s' =
      psci_non_cpu_pd_nodes (set_non_cpu_pd_node_local_state (pd_node s c lvl) (si lvl) s)"
  shows "path_states c (Suc lvl) e si s' = path_states c lvl e si s"
proof -
  have "{lvl..e} = insert lvl {Suc lvl..e}" using assms(2) by auto
  moreover have "level (psci_non_cpu_pd_nodes s (pd_node s c lvl)) = lvl"
    using assms(1-3) by (simp add: path_levels_def)
  ultimately show ?thesis
    by (auto simp: path_states_def fun_eq_iff Let_def same_tree_pd_node [OF t] n
        set_non_cpu_pd_node_local_state_def)
qed

lemma set_target_states_loop_eq:
  assumes "1 \<le> lvl" "path_levels c e s"
  shows "set_target_states_loop e lvl (pd_node s c lvl) si s =
     s\<lparr>psci_non_cpu_pd_nodes := path_states c lvl e si s\<rparr>"
  using assms
proof (induction "Suc e - lvl" arbitrary: lvl s)
  case 0
  then have "\<not> lvl \<le> e" by simp
  then show ?case by (simp add: set_target_states_loop.simps path_states_def Let_def)
next
  case (Suc n)
  then have le: "lvl \<le> e" "n = Suc e - Suc lvl" by auto
  define s' where "s' = set_non_cpu_pd_node_local_state (pd_node s c lvl) (si lvl) s"
  have t: "same_tree s s'" by (simp add: s'_def)
  have pl: "path_levels c e s'"
    using Suc.prems(2) by (simp add: path_levels_def same_tree_pd_node [OF t] same_tree_fields [OF t])
  have "set_target_states_loop e lvl (pd_node s c lvl) si s =
      set_target_states_loop e (Suc lvl) (pd_node s' c (Suc lvl)) si s'"
    using le(1) Suc.prems(1) pd_node_Suc [of lvl s' c]
    by (subst set_target_states_loop.simps) (simp add: s'_def [symmetric] same_tree_pd_node [OF t])
  also have "\<dots> = s'\<lparr>psci_non_cpu_pd_nodes := path_states c (Suc lvl) e si s'\<rparr>"
    using Suc.hyps(1) [OF le(2) _ pl] by simp
  also have "\<dots> = s\<lparr>psci_non_cpu_pd_nodes := path_states c lvl e si s\<rparr>"
    using path_states_step [OF Suc.prems(1) le(1) Suc.prems(2) t] by (simp add: s'_def
        set_non_cpu_pd_node_local_state_def)
  finally show ?case .
qed

lemma path_levels_cong: "same_tree s s' \<Longrightarrow> path_levels c e s' = path_levels c e s"
  by (simp add: path_levels_def same_tree_pd_node [of s s'] same_tree_fields [of s s'])

lemma path_states_cong:
  "same_tree s s' \<Longrightarrow> psci_non_cpu_pd_nodes s' = psci_non_cpu_pd_nodes s \<Longrightarrow>
   path_states c lo e si s' = path_states c lo e si s"
  by (simp add: path_states_def same_tree_pd_node [of s s'] Let_def fun_eq_iff)

lemma psci_set_target_local_pwr_states_eq:
  assumes "path_levels me e s"
  shows "psci_set_target_local_pwr_states me e si s =
     (psci_set_cpu_local_state me (si 0) s)\<lparr>psci_non_cpu_pd_nodes := path_states me 1 e si s\<rparr>"
proof -
  define s' where "s' = psci_set_cpu_local_state me (si 0) s"
  have n: "psci_non_cpu_pd_nodes s' = psci_non_cpu_pd_nodes s" and t: "same_tree s s'"
    by (simp_all add: s'_def psci_set_cpu_local_state_def same_tree_def)
  have "set_target_states_loop e 1 (pd_node s' me 1) si s' =
      s'\<lparr>psci_non_cpu_pd_nodes := path_states me 1 e si s\<rparr>"
    using set_target_states_loop_eq [of 1 me e s'] assms
    by (simp add: path_levels_cong [OF t] path_states_cong [OF t n])
  then show ?thesis
    by (simp add: psci_set_target_local_pwr_states_def PSCI_CPU_PWR_LVL_def s'_def pd_node_1)
qed

lemma set_domains_run_loop_eq:
  assumes "1 \<le> lvl" "path_levels c e s"
  shows "set_domains_run_loop e c lvl (pd_node s c lvl) s =
     s\<lparr>psci_non_cpu_pd_nodes := path_states c lvl e (\<lambda>_. PSCI_LOCAL_STATE_RUN) s,
       psci_req_local_pwr_states :=
         requests c lvl e (\<lambda>_. PSCI_LOCAL_STATE_RUN) (psci_req_local_pwr_states s)\<rparr>"
  using assms
proof (induction "Suc e - lvl" arbitrary: lvl s)
  case 0
  then have "\<not> lvl \<le> e" by simp
  then have "requests c lvl e (\<lambda>_. PSCI_LOCAL_STATE_RUN) r = r" for r
    by (auto simp: requests_def fun_eq_iff)
  with \<open>\<not> lvl \<le> e\<close> show ?case
    by (subst set_domains_run_loop.simps) (simp add: path_states_def Let_def)
next
  case (Suc n)
  then have le: "lvl \<le> e" "n = Suc e - Suc lvl" by auto
  define s1 where "s1 = set_non_cpu_pd_node_local_state (pd_node s c lvl) PSCI_LOCAL_STATE_RUN s"
  define s' where "s' = psci_set_req_local_pwr_state lvl c PSCI_LOCAL_STATE_RUN s1"
  have t: "same_tree s s'" and n: "psci_non_cpu_pd_nodes s' = psci_non_cpu_pd_nodes s1"
    by (simp_all add: s'_def s1_def psci_set_req_local_pwr_state_def same_tree_def
        set_non_cpu_pd_node_local_state_def)
  have r: "requests c (Suc lvl) e (\<lambda>_. PSCI_LOCAL_STATE_RUN) (psci_req_local_pwr_states s') =
      requests c lvl e (\<lambda>_. PSCI_LOCAL_STATE_RUN) (psci_req_local_pwr_states s)"
    using Suc.prems(1) le(1) by (auto simp: fun_eq_iff requests_def s'_def s1_def
        psci_set_req_local_pwr_state_def set_non_cpu_pd_node_local_state_def)
  have pl: "path_levels c e s'" using Suc.prems(2) by (simp add: path_levels_cong [OF t])
  have "set_domains_run_loop e c lvl (pd_node s c lvl) s =
      set_domains_run_loop e c (Suc lvl) (pd_node s' c (Suc lvl)) s'"
    using le(1) Suc.prems(1) pd_node_Suc [of lvl s' c]
    by (subst set_domains_run_loop.simps)
      (simp add: s'_def [symmetric] s1_def [symmetric] same_tree_pd_node [OF t])
  then show ?case
    using Suc.hyps(1) [OF le(2) _ pl] Suc.prems le(1)
      path_states_step [OF Suc.prems(1) le(1) Suc.prems(2) t n [unfolded s1_def]] r
    by (simp add: s'_def s1_def psci_set_req_local_pwr_state_def set_non_cpu_pd_node_local_state_def)
qed

lemma psci_set_pwr_domains_to_run_eq:
  assumes "path_levels me e s"
  shows "psci_set_pwr_domains_to_run me e s =
    s\<lparr>psci_non_cpu_pd_nodes := path_states me 1 e (\<lambda>_. PSCI_LOCAL_STATE_RUN) s,
      psci_req_local_pwr_states :=
        requests me 1 e (\<lambda>_. PSCI_LOCAL_STATE_RUN) (psci_req_local_pwr_states s),
      psci_svc_cpu_data := (psci_svc_cpu_data s)(me := (psci_svc_cpu_data s me)
        \<lparr>aff_info_state := AFF_STATE_ON, cpu_local_state := PSCI_LOCAL_STATE_RUN\<rparr>)\<rparr>"
  using set_domains_run_loop_eq [OF _ assms, of 1]
  by (simp add: psci_set_pwr_domains_to_run_def PSCI_CPU_PWR_LVL_def pd_node_1
      psci_set_aff_info_state_by_idx_def psci_set_cpu_local_state_def)

lemma get_target_states_loop_eq:
  assumes "1 \<le> lvl"
  shows "get_target_states_loop e lvl (pd_node s c lvl) si s =
    (\<lambda>l. if lvl \<le> l \<and> l \<le> e then local_state (psci_non_cpu_pd_nodes s (pd_node s c l)) else si l)"
  using assms
proof (induction "Suc e - lvl" arbitrary: lvl si)
  case 0
  then show ?case by (subst get_target_states_loop.simps) (auto simp: fun_eq_iff)
next
  case (Suc n)
  then have le: "lvl \<le> e" "n = Suc e - Suc lvl" by auto
  show ?case using le(1) Suc.prems Suc.hyps(1) [OF le(2)]
    by (subst get_target_states_loop.simps)
      (auto simp: pd_node_Suc get_non_cpu_pd_node_local_state_def fun_eq_iff)
qed

lemma set_run_loop_eq:
  "set_run_loop e lvl si = (\<lambda>l. if lvl \<le> l \<and> l \<le> e then PSCI_LOCAL_STATE_RUN else si l)"
proof (induction "Suc e - lvl" arbitrary: lvl si)
  case 0
  then show ?case by (subst set_run_loop.simps) (auto simp: fun_eq_iff)
next
  case (Suc n)
  then have le: "lvl \<le> e" "n = Suc e - Suc lvl" by auto
  show ?case using le(1) Suc.hyps(1) [OF le(2)]
    by (subst set_run_loop.simps) (auto simp: fun_eq_iff)
qed

lemma psci_get_target_local_pwr_states_eq:
  "psci_get_target_local_pwr_states P me e si s =
     (\<lambda>l. if l = 0 then cpu_local_state (psci_svc_cpu_data s me)
          else if l \<le> e then local_state (psci_non_cpu_pd_nodes s (pd_node s me l))
          else if l \<le> PLAT_MAX_PWR_LVL P then PSCI_LOCAL_STATE_RUN else si l)"
  using get_target_states_loop_eq [of 1 e s me]
  by (auto simp: psci_get_target_local_pwr_states_def PSCI_CPU_PWR_LVL_def pd_node_1 set_run_loop_eq
      psci_get_cpu_local_state_by_idx_def fun_eq_iff)

lemma same_tree_path_states [simp]: "same_tree s (s\<lparr>psci_non_cpu_pd_nodes := path_states c lo e si s\<rparr>)"
  by (simp add: same_tree_def path_states_def Let_def)

lemma path_states_at:
  assumes "wf_tree P s" "c < PLATFORM_CORE_COUNT P" "me < PLATFORM_CORE_COUNT P"
    "1 \<le> l" "l \<le> PLAT_MAX_PWR_LVL P" "e \<le> PLAT_MAX_PWR_LVL P"
  shows "local_state (path_states me 1 e si s (pd_node s c l)) =
    (if l \<le> e \<and> pd_node s c l = pd_node s me l then si l
     else local_state (psci_non_cpu_pd_nodes s (pd_node s c l)))"
proof -
  have "pd_node s c l \<in> pd_node s me ` {1..e} \<longleftrightarrow> l \<le> e \<and> pd_node s c l = pd_node s me l"
    using pd_node_inj [OF assms(1-3) assms(4,5)] assms(4,6) by fastforce
  then show ?thesis
    using wf_treeD(2) [OF assms(1,2,4,5)] by (auto simp: path_states_def Let_def)
qed

subsection \<open>Locks\<close>

definition path_locked :: "nat \<Rightarrow> nat \<Rightarrow> nat \<Rightarrow> 'p psci_state \<Rightarrow> 'p psci_state" where
  "path_locked c lo e s =
     s\<lparr>psci_locks := (\<lambda>n. if n \<in> pd_node s c ` {lo..e} then Some c else psci_locks s n),
       psci_events := psci_events s @ map (\<lambda>l. Lock_get (pd_node s c l)) [lo..<Suc e]\<rparr>"

definition path_unlocked :: "nat \<Rightarrow> nat \<Rightarrow> 'p psci_state \<Rightarrow> 'p psci_state" where
  "path_unlocked c e s =
     s\<lparr>psci_locks := (\<lambda>n. if n \<in> pd_node s c ` {1..e} then None else psci_locks s n),
       psci_events := psci_events s @ map (\<lambda>l. Lock_release (pd_node s c l)) (rev [1..<Suc e])\<rparr>"

definition path_free :: "nat \<Rightarrow> nat \<Rightarrow> 'p psci_state \<Rightarrow> bool" where
  "path_free c e s \<longleftrightarrow> (\<forall>l \<in> {1..e}. psci_locks s (pd_node s c l) = None)"

text \<open>What the lock functions need of the path: its nodes are distinct and each has a lock of its own.\<close>

definition path_lockable :: "nat \<Rightarrow> nat \<Rightarrow> 'p psci_state \<Rightarrow> bool" where
  "path_lockable c e s \<longleftrightarrow>
     path_levels c e s \<and> (\<forall>l \<in> {1..e}. lock_index (psci_non_cpu_pd_nodes s (pd_node s c l)) = pd_node s c l)"

lemma wf_path_lockable:
  "wf_tree P s \<Longrightarrow> c < PLATFORM_CORE_COUNT P \<Longrightarrow> e \<le> PLAT_MAX_PWR_LVL P \<Longrightarrow> path_lockable c e s"
  using wf_treeD(3) [of P s c] by (simp add: path_lockable_def wf_path_levels)

lemma path_lockable_cong: "same_tree s s' \<Longrightarrow> path_lockable c e s' = path_lockable c e s"
  by (simp add: path_lockable_def path_levels_cong [of s s'] same_tree_pd_node [of s s']
      same_tree_fields [of s s'])

lemma path_levels_inj: "path_levels c e s \<Longrightarrow> inj_on (pd_node s c) {1..e}"
  by (rule inj_on_inverseI [where g = "\<lambda>n. level (psci_non_cpu_pd_nodes s n)"]) (simp add: path_levels_def)

lemma acquire_locks_loop_eq:
  assumes "1 \<le> lvl" "path_lockable c e s"
  shows "acquire_locks_loop c e lvl (pd_node s c lvl) s =
    (if \<forall>l \<in> {lvl..e}. psci_locks s (pd_node s c l) = None then Some (path_locked c lvl e s) else None)"
  using assms
proof (induction "Suc e - lvl" arbitrary: lvl s)
  case 0
  then have "\<not> lvl \<le> e" by simp
  then show ?case by (subst acquire_locks_loop.simps) (simp add: path_locked_def)
next
  case (Suc n)
  then have le: "lvl \<le> e" "n = Suc e - Suc lvl" by auto
  let ?m = "pd_node s c lvl"
  have ins: "{lvl..e} = insert lvl {Suc lvl..e}" using le by auto
  have li: "lock_index (psci_non_cpu_pd_nodes s ?m) = ?m"
    using Suc.prems le(1) by (simp add: path_lockable_def)
  show ?case
  proof (cases "psci_locks s ?m")
    case (Some x)
    then show ?thesis using le(1)
      by (subst acquire_locks_loop.simps) (simp add: psci_lock_get_def li ins)
  next
    case None
    define s' where "s' = emit (Lock_get ?m) (s\<lparr>psci_locks := (psci_locks s)(?m := Some c)\<rparr>)"
    have t: "same_tree s s'" by (simp add: s'_def emit_def same_tree_def)
    have inj: "pd_node s c l \<noteq> ?m" if "l \<in> {Suc lvl..e}" for l
      using path_levels_inj [of c e s] Suc.prems that by (auto simp: path_lockable_def dest: inj_onD)
    have free: "(\<forall>l \<in> {Suc lvl..e}. psci_locks s' (pd_node s c l) = None) =
        (\<forall>l \<in> {lvl..e}. psci_locks s (pd_node s c l) = None)"
      using inj None by (simp add: ins s'_def emit_def)
    have "acquire_locks_loop c e lvl ?m s = acquire_locks_loop c e (Suc lvl) (pd_node s' c (Suc lvl)) s'"
      using le(1) None Suc.prems(1) pd_node_Suc [of lvl s' c]
      by (subst acquire_locks_loop.simps)
        (simp add: psci_lock_get_def li s'_def [symmetric] same_tree_pd_node [OF t])
    moreover have "path_locked c (Suc lvl) e s' = path_locked c lvl e s"
      using le(1) by (auto simp: path_locked_def s'_def emit_def ins upt_conv_Cons fun_eq_iff
          intro!: psci_state.equality simp del: upt_Suc)
    ultimately show ?thesis
      using Suc.hyps(1) [OF le(2), of s'] Suc.prems(2)
      by (simp add: path_lockable_cong [OF t] same_tree_pd_node [OF t] free)
  qed
qed

lemma psci_acquire_pwr_domain_locks_eq:
  assumes "path_lockable c e s"
  shows "psci_acquire_pwr_domain_locks e c s =
    (if path_free c e s then Some (path_locked c 1 e s) else None)"
  using acquire_locks_loop_eq [OF _ assms, of 1]
  by (simp add: psci_acquire_pwr_domain_locks_def PSCI_CPU_PWR_LVL_def pd_node_1 path_free_def)

lemma release_locks_loop_eq:
  assumes "path_lockable c e s" "k \<le> e"
  shows "release_locks_loop (map (pd_node s c) [1..<Suc e]) k s = path_unlocked c k s"
  using assms
proof (induction k arbitrary: s)
  case 0
  then show ?case by (simp add: path_unlocked_def)
next
  case (Suc k)
  let ?m = "pd_node s c (Suc k)"
  define s' where "s' = psci_lock_release ?m s"
  have t: "same_tree s s'" by (simp add: s'_def psci_lock_release_def emit_def same_tree_def Let_def)
  have m: "map (pd_node s c) [1..<Suc e] ! k = ?m" using Suc.prems by (simp del: upt_Suc)
  have li: "lock_index (psci_non_cpu_pd_nodes s ?m) = ?m"
    using Suc.prems by (simp add: path_lockable_def)
  have pm: "pd_node s' c = pd_node s c" by (simp add: fun_eq_iff same_tree_pd_node [OF t])
  have "{1..Suc k} = insert (Suc k) {1..k}" by auto
  then have "path_unlocked c k s' = path_unlocked c (Suc k) s"
    by (auto simp: path_unlocked_def s'_def psci_lock_release_def li emit_def Let_def fun_eq_iff
        intro!: psci_state.equality)
  moreover have "release_locks_loop (map (pd_node s' c) [1..<Suc e]) k s' = path_unlocked c k s'"
    using Suc.IH [of s'] Suc.prems by (simp add: path_lockable_cong [OF t])
  ultimately show ?case
    unfolding release_locks_loop.simps m s'_def [symmetric] pm by simp
qed

lemma psci_release_pwr_domain_locks_eq:
  "path_lockable c e s \<Longrightarrow> psci_release_pwr_domain_locks e c s = path_unlocked c e s"
  using release_locks_loop_eq [of c e s e]
  by (simp add: psci_release_pwr_domain_locks_def psci_get_parent_pwr_domain_nodes_eq)

subsection \<open>The default coordination policy\<close>

text \<open>\<^verbatim>\<open>plat_get_target_pwr_state\<close> of \<^verbatim>\<open>plat_psci_common.c\<close> is the shallowest state requested.\<close>

lemma target_state_loop_eq:
  "target_state_loop n i states t = Min (insert t (states ` {i..<i + n}))"
proof (induction n arbitrary: i t)
  case 0
  then show ?case by simp
next
  case (Suc n)
  let ?A = "states ` {Suc i..<Suc i + n}"
  have "{i..<i + Suc n} = insert i {Suc i..<Suc i + n}" by auto
  then have "Min (insert t (states ` {i..<i + Suc n})) = Min (insert t (insert (states i) ?A))" by simp
  also have "\<dots> = Min (insert (min t (states i)) ?A)"
    by (cases "?A = {}") (simp_all add: Min_insert min.assoc del: image_is_empty)
  also have "min t (states i) = (if states i < t then states i else t)" by (auto simp: min_def)
  finally show ?case by (simp add: Suc.IH)
qed

lemma plat_get_target_pwr_state_Min:
  assumes "0 < n" and "\<And>k. k < n \<Longrightarrow> states k \<le> m"
  shows "plat_get_target_pwr_state m l states n = Min (states ` {..<n})"
proof -
  have "Min (states ` {..<n}) \<le> states 0" using assms(1) by (intro Min_le) auto
  also have "states 0 \<le> m" using assms by simp
  finally have "min m (Min (states ` {..<n})) = Min (states ` {..<n})" by (rule min_absorb2)
  moreover have "{0..<0 + n} = {..<n}" by auto
  moreover have "Min (insert m (states ` {..<n})) = min m (Min (states ` {..<n}))"
    using assms(1) by (intro Min_insert) auto
  ultimately show ?thesis
    using assms(1) by (simp add: plat_get_target_pwr_state_def target_state_loop_eq)
qed

lemma plat_get_target_pwr_state_le: "k < n \<Longrightarrow> plat_get_target_pwr_state m l states n \<le> states k"
  unfolding plat_get_target_pwr_state_def target_state_loop_eq by (intro Min_le) auto

end
