(* ===== verification/Psci_Setup.thy ===== *)
theory Psci_Setup
  imports Psci_Coord
begin

unbundle bit_operations_syntax

text \<open>
  \<^verbatim>\<open>lib/psci/psci_setup.c\<close>: the power domain tree is built from the platform's topology descriptor,
  and the capabilities from its hooks. The main result is that for every descriptor of the right size the tree
  is well formed, which is what the rest of the library relies on.
\<close>

subsection \<open>Building the tree\<close>

definition psci_init_pwr_domain_node ::
    "plat_def \<Rightarrow> nat \<Rightarrow> nat \<Rightarrow> nat \<Rightarrow> 'p psci_state \<Rightarrow> 'p psci_state" where
  "psci_init_pwr_domain_node P node_idx parent_idx lvl s =
     (if lvl > PSCI_CPU_PWR_LVL
      then s\<lparr>psci_non_cpu_pd_nodes := (psci_non_cpu_pd_nodes s)(node_idx :=
              (psci_non_cpu_pd_nodes s node_idx)
                \<lparr>level := lvl mod 256, lock_index := node_idx mod 256, parent_node := parent_idx,
                 local_state := PLAT_MAX_OFF_STATE P\<rparr>)\<rparr>
      else s\<lparr>psci_cpu_pd_nodes := (psci_cpu_pd_nodes s)(node_idx :=
              \<lparr>cpu_mpidr = PSCI_INVALID_MPIDR, cpu_parent_node = parent_idx\<rparr>),
             psci_svc_cpu_data := (psci_svc_cpu_data s)(node_idx :=
              \<lparr>aff_info_state = AFF_STATE_OFF, target_pwrlvl = PSCI_INVALID_PWR_LVL P,
               cpu_local_state = PLAT_MAX_OFF_STATE P\<rparr>)\<rparr>)"

text \<open>\<open>k - 1\<close> on unsigned 32-bit integers; it wraps at 0, the parent index of the root domains.\<close>

definition pred32 :: "nat \<Rightarrow> nat" where "pred32 k = (k + 2 ^ 32 - 1) mod 2 ^ 32"

text \<open>The inner two loops.\<close>

primrec populate_level_loop ::
    "plat_def \<Rightarrow> (nat \<Rightarrow> nat) \<Rightarrow> nat \<Rightarrow> nat \<Rightarrow> nat \<Rightarrow> nat \<Rightarrow> nat \<Rightarrow> 'p psci_state \<Rightarrow>
     nat \<times> nat \<times> nat \<times> 'p psci_state" where
  "populate_level_loop P topology lvl 0 node_index parent_node_index num_next s =
     (node_index, parent_node_index, num_next, s)"
| "populate_level_loop P topology lvl (Suc n) node_index parent_node_index num_next s =
     (let num_children = topology parent_node_index;
          s = fold (\<lambda>j. psci_init_pwr_domain_node P j (pred32 parent_node_index) lvl)
                [node_index..<node_index + num_children] s
      in populate_level_loop P topology lvl n (node_index + num_children) (parent_node_index + 1)
           (num_next + num_children) s)"

primrec populate_tree_loop ::
    "plat_def \<Rightarrow> (nat \<Rightarrow> nat) \<Rightarrow> nat \<Rightarrow> nat \<Rightarrow> nat \<Rightarrow> nat \<Rightarrow> 'p psci_state \<Rightarrow> 'p psci_state" where
  "populate_tree_loop P topology 0 num_nodes node_index parent_node_index s =
     (let (_, _, _, s) = populate_level_loop P topology 0 num_nodes node_index parent_node_index 0 s in s)"
| "populate_tree_loop P topology (Suc lvl) num_nodes node_index parent_node_index s =
     (let (node_index, parent_node_index, num_next, s) =
            populate_level_loop P topology (Suc lvl) num_nodes node_index parent_node_index 0 s
      in populate_tree_loop P topology lvl num_next
           (if lvl = PSCI_CPU_PWR_LVL then 0 else node_index) parent_node_index s)"

definition populate_power_domain_tree :: "plat_def \<Rightarrow> (nat \<Rightarrow> nat) \<Rightarrow> 'p psci_state \<Rightarrow> 'p psci_state" where
  "populate_power_domain_tree P topology s = populate_tree_loop P topology (PLAT_MAX_PWR_LVL P) 1 0 0 s"

text \<open>
  The loop of \<^verbatim>\<open>psci_update_pwrlvl_limits\<close> over the levels, downwards; \<open>nodes_idx\<close> is the node last
  seen at each level and \<open>temp_index\<close> the path of the current CPU.
\<close>

primrec limits_level_loop ::
    "nat list \<Rightarrow> nat \<Rightarrow> nat \<Rightarrow> (nat \<Rightarrow> nat) \<Rightarrow> 'p psci_state \<Rightarrow> (nat \<Rightarrow> nat) \<times> 'p psci_state" where
  "limits_level_loop temp_index cpu_idx 0 nodes_idx s = (nodes_idx, s)"
| "limits_level_loop temp_index cpu_idx (Suc j) nodes_idx s =
     (let n = temp_index ! j;
          nd = psci_non_cpu_pd_nodes s n;
          nd = (if n \<noteq> nodes_idx j then nd\<lparr>cpu_start_idx := cpu_idx\<rparr> else nd);
          nodes_idx = nodes_idx(j := n);
          s = s\<lparr>psci_non_cpu_pd_nodes := (psci_non_cpu_pd_nodes s)(n := nd\<lparr>ncpus := ncpus nd + 1\<rparr>)\<rparr>
      in limits_level_loop temp_index cpu_idx j nodes_idx s)"

definition limits_cpu :: "plat_def \<Rightarrow> nat \<Rightarrow> (nat \<Rightarrow> nat) \<times> 'p psci_state \<Rightarrow> (nat \<Rightarrow> nat) \<times> 'p psci_state" where
  "limits_cpu P cpu_idx = (\<lambda>(nodes_idx, s).
     limits_level_loop (psci_get_parent_pwr_domain_nodes cpu_idx (PLAT_MAX_PWR_LVL P) s) cpu_idx
       (PLAT_MAX_PWR_LVL P) nodes_idx s)"

definition psci_update_pwrlvl_limits :: "plat_def \<Rightarrow> 'p psci_state \<Rightarrow> 'p psci_state" where
  "psci_update_pwrlvl_limits P s =
     snd (fold (limits_cpu P) [0..<PLATFORM_CORE_COUNT P] (\<lambda>_. 0, s))"

subsection \<open>Capabilities and setup\<close>

definition PSCI_VERSION :: u32 where "PSCI_VERSION = 0x84000000"
definition PSCI_CPU_SUSPEND_AARCH32 :: u32 where "PSCI_CPU_SUSPEND_AARCH32 = 0x84000001"
definition PSCI_CPU_SUSPEND_AARCH64 :: u32 where "PSCI_CPU_SUSPEND_AARCH64 = 0xc4000001"
definition PSCI_CPU_OFF :: u32 where "PSCI_CPU_OFF = 0x84000002"
definition PSCI_CPU_ON_AARCH32 :: u32 where "PSCI_CPU_ON_AARCH32 = 0x84000003"
definition PSCI_CPU_ON_AARCH64 :: u32 where "PSCI_CPU_ON_AARCH64 = 0xc4000003"
definition PSCI_AFFINITY_INFO_AARCH32 :: u32 where "PSCI_AFFINITY_INFO_AARCH32 = 0x84000004"
definition PSCI_AFFINITY_INFO_AARCH64 :: u32 where "PSCI_AFFINITY_INFO_AARCH64 = 0xc4000004"
definition PSCI_MIG_AARCH32 :: u32 where "PSCI_MIG_AARCH32 = 0x84000005"
definition PSCI_MIG_INFO_UP_CPU_AARCH32 :: u32 where "PSCI_MIG_INFO_UP_CPU_AARCH32 = 0x84000007"
definition PSCI_SYSTEM_OFF :: u32 where "PSCI_SYSTEM_OFF = 0x84000008"
definition PSCI_SYSTEM_RESET :: u32 where "PSCI_SYSTEM_RESET = 0x84000009"
definition PSCI_FEATURES :: u32 where "PSCI_FEATURES = 0x8400000A"
definition PSCI_NODE_HW_STATE_AARCH32 :: u32 where "PSCI_NODE_HW_STATE_AARCH32 = 0x8400000d"
definition PSCI_NODE_HW_STATE_AARCH64 :: u32 where "PSCI_NODE_HW_STATE_AARCH64 = 0xc400000d"
definition PSCI_SYSTEM_SUSPEND_AARCH32 :: u32 where "PSCI_SYSTEM_SUSPEND_AARCH32 = 0x8400000E"
definition PSCI_SYSTEM_SUSPEND_AARCH64 :: u32 where "PSCI_SYSTEM_SUSPEND_AARCH64 = 0xc400000E"
definition PSCI_STAT_RESIDENCY_AARCH64 :: u32 where "PSCI_STAT_RESIDENCY_AARCH64 = 0xc4000010"
definition PSCI_STAT_COUNT_AARCH64 :: u32 where "PSCI_STAT_COUNT_AARCH64 = 0xc4000011"
definition PSCI_SYSTEM_RESET2_AARCH32 :: u32 where "PSCI_SYSTEM_RESET2_AARCH32 = 0x84000012"
definition PSCI_SYSTEM_RESET2_AARCH64 :: u32 where "PSCI_SYSTEM_RESET2_AARCH64 = 0xc4000012"
definition PSCI_MEM_PROTECT :: u32 where "PSCI_MEM_PROTECT = 0x84000013"
definition PSCI_MEM_CHK_RANGE_AARCH32 :: u32 where "PSCI_MEM_CHK_RANGE_AARCH32 = 0x84000014"
definition PSCI_MEM_CHK_RANGE_AARCH64 :: u32 where "PSCI_MEM_CHK_RANGE_AARCH64 = 0xc4000014"

lemmas psci_fid_defs = PSCI_VERSION_def PSCI_CPU_SUSPEND_AARCH32_def PSCI_CPU_SUSPEND_AARCH64_def
  PSCI_CPU_OFF_def PSCI_CPU_ON_AARCH32_def PSCI_CPU_ON_AARCH64_def PSCI_AFFINITY_INFO_AARCH32_def
  PSCI_AFFINITY_INFO_AARCH64_def PSCI_MIG_AARCH32_def PSCI_MIG_AARCH64_def PSCI_MIG_INFO_TYPE_def
  PSCI_MIG_INFO_UP_CPU_AARCH32_def PSCI_MIG_INFO_UP_CPU_AARCH64_def PSCI_SYSTEM_OFF_def
  PSCI_SYSTEM_RESET_def PSCI_FEATURES_def PSCI_NODE_HW_STATE_AARCH32_def
  PSCI_NODE_HW_STATE_AARCH64_def PSCI_SYSTEM_SUSPEND_AARCH32_def PSCI_SYSTEM_SUSPEND_AARCH64_def
  PSCI_STAT_RESIDENCY_AARCH64_def PSCI_STAT_COUNT_AARCH64_def PSCI_SYSTEM_RESET2_AARCH32_def
  PSCI_SYSTEM_RESET2_AARCH64_def PSCI_MEM_PROTECT_def PSCI_MEM_CHK_RANGE_AARCH32_def
  PSCI_MEM_CHK_RANGE_AARCH64_def

definition PSCI_GENERIC_CAP :: u32 where
  "PSCI_GENERIC_CAP = define_psci_cap PSCI_VERSION OR define_psci_cap PSCI_AFFINITY_INFO_AARCH64 OR
     define_psci_cap PSCI_FEATURES"

definition add_cap :: "bool \<Rightarrow> u32 \<Rightarrow> u32 \<Rightarrow> u32" where
  "add_cap b fid caps = (if b then caps OR define_psci_cap fid else caps)"

text \<open>The sequence of tests at the end of \<^verbatim>\<open>psci_setup\<close>.\<close>

definition psci_setup_caps :: "'p plat_psci_ops \<Rightarrow> u32" where
  "psci_setup_caps ops =
     (let caps = PSCI_GENERIC_CAP;
          caps = add_cap (pwr_domain_off ops \<noteq> None) PSCI_CPU_OFF caps;
          caps = add_cap (pwr_domain_on ops \<noteq> None \<and> pwr_domain_on_finish ops \<noteq> None)
                   PSCI_CPU_ON_AARCH64 caps;
          caps = (if pwr_domain_suspend ops \<noteq> None \<and> pwr_domain_suspend_finish ops \<noteq> None
                  then add_cap (get_sys_suspend_power_state ops \<noteq> None) PSCI_SYSTEM_SUSPEND_AARCH64
                         (add_cap True PSCI_CPU_SUSPEND_AARCH64 caps)
                  else caps);
          caps = add_cap (system_off ops \<noteq> None) PSCI_SYSTEM_OFF caps;
          caps = add_cap (system_reset ops \<noteq> None) PSCI_SYSTEM_RESET caps;
          caps = add_cap (get_node_hw_state ops \<noteq> None) PSCI_NODE_HW_STATE_AARCH64 caps;
          caps = add_cap (read_mem_protect ops \<noteq> None \<and> write_mem_protect ops \<noteq> None)
                   PSCI_MEM_PROTECT caps;
          caps = add_cap (mem_protect_chk ops \<noteq> None) PSCI_MEM_CHK_RANGE_AARCH64 caps
      in add_cap (system_reset2 ops \<noteq> None) PSCI_SYSTEM_RESET2_AARCH64 caps)"

text \<open>\<open>ops\<close> is what \<^verbatim>\<open>plat_setup_psci_ops\<close> exports.\<close>

definition psci_arch_setup :: "'p psci_state \<Rightarrow> 'p psci_state" where
  "psci_arch_setup s = emit Arch_setup s"

definition psci_setup ::
    "plat_def \<Rightarrow> arch_regs \<Rightarrow> 'p plat_psci_ops \<Rightarrow> 'p psci_state \<Rightarrow> int \<times> 'p psci_state" where
  "psci_setup P R ops s =
     (let me = my_core_pos R;
          s = psci_arch_setup s;
          s = populate_power_domain_tree P (plat_get_power_domain_tree_desc P) s;
          s = psci_update_pwrlvl_limits P s;
          s = s\<lparr>psci_cpu_pd_nodes := (psci_cpu_pd_nodes s)(me :=
                 (psci_cpu_pd_nodes s me)\<lparr>cpu_mpidr := mpidr_el1 R AND MPIDR_AFFINITY_MASK\<rparr>)\<rparr>;
          s = psci_init_req_local_pwr_states P s;
          s = psci_set_pwr_domains_to_run me (PLAT_MAX_PWR_LVL P) s;
          s = s\<lparr>psci_plat_pm_ops := ops\<rparr>
      in (0, s\<lparr>psci_caps := psci_setup_caps ops\<rparr>))"

definition psci_prepare_next_non_secure_ctx ::
    "arch_regs \<Rightarrow> entry_point_info \<Rightarrow> 'p psci_state \<Rightarrow> 'p psci_state" where
  "psci_prepare_next_non_secure_ctx R next_image_info s =
     emit El3_exit (cm_init_context_by_index (my_core_pos R) next_image_info s)"

subsection \<open>Descriptors of the right size\<close>

definition children :: "(nat \<Rightarrow> nat) \<Rightarrow> nat \<Rightarrow> nat \<Rightarrow> nat" where
  "children topology start n = sum_list (map topology [start..<start + n])"

text \<open>The number of domains at each level, from the top down, the CPUs last.\<close>

primrec tree_sizes :: "(nat \<Rightarrow> nat) \<Rightarrow> nat \<Rightarrow> nat \<Rightarrow> nat \<Rightarrow> nat list" where
  "tree_sizes topology 0 num start = [children topology start num]"
| "tree_sizes topology (Suc l) num start =
     children topology start num # tree_sizes topology l (children topology start num) (start + num)"

definition valid_topology :: "plat_def \<Rightarrow> bool" where
  "valid_topology P \<longleftrightarrow>
     (let sizes = tree_sizes (plat_get_power_domain_tree_desc P) (PLAT_MAX_PWR_LVL P) 1 0
      in last sizes = PLATFORM_CORE_COUNT P \<and>
         sum_list (butlast sizes) \<le> PSCI_NUM_NON_CPU_PWR_DOMAINS P)"

lemma children_Suc: "children t start (Suc n) = t start + children t (Suc start) n"
  by (simp add: children_def upt_conv_Cons del: upt_Suc)

lemma children_0 [simp]: "children t start 0 = 0"
  by (simp add: children_def)

subsection \<open>What the loops build\<close>

text \<open>All nodes of \<open>A\<close> at level \<open>lvl\<close> initialised, node \<open>n\<close> with parent \<open>p n\<close>.\<close>

definition init_nodes ::
    "plat_def \<Rightarrow> nat \<Rightarrow> nat set \<Rightarrow> (nat \<Rightarrow> nat) \<Rightarrow> 'p psci_state \<Rightarrow> 'p psci_state" where
  "init_nodes P lvl A p s =
     (if lvl > 0
      then s\<lparr>psci_non_cpu_pd_nodes := (\<lambda>n. if n \<in> A then (psci_non_cpu_pd_nodes s n)
                \<lparr>level := lvl mod 256, lock_index := n mod 256, parent_node := p n,
                 local_state := PLAT_MAX_OFF_STATE P\<rparr> else psci_non_cpu_pd_nodes s n)\<rparr>
      else s\<lparr>psci_cpu_pd_nodes := (\<lambda>n. if n \<in> A
               then \<lparr>cpu_mpidr = PSCI_INVALID_MPIDR, cpu_parent_node = p n\<rparr> else psci_cpu_pd_nodes s n),
             psci_svc_cpu_data := (\<lambda>n. if n \<in> A
               then \<lparr>aff_info_state = AFF_STATE_OFF, target_pwrlvl = PSCI_INVALID_PWR_LVL P,
                     cpu_local_state = PLAT_MAX_OFF_STATE P\<rparr> else psci_svc_cpu_data s n)\<rparr>)"

lemma init_nodes_empty [simp]: "init_nodes P lvl {} p s = s"
  by (simp add: init_nodes_def)

lemma init_nodes_union:
  "init_nodes P lvl B q (init_nodes P lvl A p s) =
   init_nodes P lvl (A \<union> B) (\<lambda>n. if n \<in> B then q n else p n) s"
  by (auto simp: init_nodes_def fun_eq_iff intro!: psci_state.equality)

lemma init_nodes_cong: "(\<And>n. n \<in> A \<Longrightarrow> p n = q n) \<Longrightarrow> init_nodes P lvl A p s = init_nodes P lvl A q s"
  by (auto simp: init_nodes_def fun_eq_iff intro!: psci_state.equality)

lemma psci_init_pwr_domain_node_eq:
  "psci_init_pwr_domain_node P n q lvl s = init_nodes P lvl {n} (\<lambda>_. q) s"
  by (auto simp: init_nodes_def psci_init_pwr_domain_node_def PSCI_CPU_PWR_LVL_def fun_eq_iff
      intro!: psci_state.equality)

lemma fold_init_eq:
  "fold (\<lambda>j. psci_init_pwr_domain_node P j q lvl) [a..<a + k] s = init_nodes P lvl {a..<a + k} (\<lambda>_. q) s"
proof (induction k)
  case (Suc k)
  have "{a..<a + Suc k} = {a..<a + k} \<union> {a + k}" by auto
  with Suc show ?case by (simp add: psci_init_pwr_domain_node_eq init_nodes_union)
qed simp

lemma pred32_eq: "1 \<le> k \<Longrightarrow> k \<le> 2 ^ 32 \<Longrightarrow> pred32 k = k - 1"
proof -
  assume k: "1 \<le> k" "k \<le> 2 ^ 32"
  then obtain m where m: "k = Suc m" by (cases k) auto
  then have "pred32 k = (m + 2 ^ 32) mod 2 ^ 32" by (simp add: pred32_def add.commute)
  also have "\<dots> = m" using k m by simp
  finally show ?thesis using m by simp
qed

lemma populate_level_loop_eq:
  "\<exists>p. (\<forall>n \<in> {ni..<ni + children t pni num}. pni \<le> p n \<and> p n < pni + num) \<and>
     mono_on {ni..<ni + children t pni num} p \<and>
     populate_level_loop P t lvl num ni pni nx s =
       (ni + children t pni num, pni + num, nx + children t pni num,
        init_nodes P lvl {ni..<ni + children t pni num} (\<lambda>n. pred32 (p n)) s)"
proof (induction num arbitrary: ni pni nx s)
  case 0
  show ?case by (simp add: mono_on_def)
next
  case (Suc num)
  let ?K = "children t (Suc pni) num" and ?ni = "ni + t pni"
  let ?s = "init_nodes P lvl {ni..<?ni} (\<lambda>_. pred32 pni) s"
  from Suc.IH [of ?ni "Suc pni" "nx + t pni" ?s] obtain p where
    p: "\<forall>n \<in> {?ni..<?ni + ?K}. Suc pni \<le> p n \<and> p n < Suc pni + num" "mono_on {?ni..<?ni + ?K} p"
      "populate_level_loop P t lvl num ?ni (Suc pni) (nx + t pni) ?s =
        (?ni + ?K, Suc pni + num, nx + t pni + ?K, init_nodes P lvl {?ni..<?ni + ?K} (\<lambda>n. pred32 (p n)) ?s)"
    by blast
  let ?p = "\<lambda>n. if n \<in> {?ni..<?ni + ?K} then p n else pni"
  have un: "{ni..<?ni} \<union> {?ni..<?ni + ?K} = {ni..<ni + children t pni (Suc num)}"
    by (auto simp: children_Suc)
  have "(\<lambda>n. if n \<in> {?ni..<?ni + ?K} then pred32 (p n) else pred32 pni) = (\<lambda>n. pred32 (?p n))"
    by auto
  then have "populate_level_loop P t lvl (Suc num) ni pni nx s =
      (ni + children t pni (Suc num), pni + Suc num, nx + children t pni (Suc num),
       init_nodes P lvl {ni..<ni + children t pni (Suc num)} (\<lambda>n. pred32 (?p n)) s)"
    using p(3) un by (simp add: fold_init_eq init_nodes_union children_Suc Let_def add.assoc del: upt_Suc)
  moreover have "\<forall>n \<in> {ni..<ni + children t pni (Suc num)}. pni \<le> ?p n \<and> ?p n < pni + Suc num"
  proof
    fix n
    assume "n \<in> {ni..<ni + children t pni (Suc num)}"
    then show "pni \<le> ?p n \<and> ?p n < pni + Suc num" using p(1) [rule_format, of n] by auto
  qed
  moreover have "mono_on {ni..<ni + children t pni (Suc num)} ?p"
  proof (rule mono_onI)
    fix a b
    assume "a \<in> {ni..<ni + children t pni (Suc num)}" "b \<in> {ni..<ni + children t pni (Suc num)}" "a \<le> b"
    then show "?p a \<le> ?p b"
      using p(1) [rule_format, of b] mono_onD [OF p(2), of a b] by (auto simp: children_Suc)
  qed
  ultimately show ?case by (intro exI [of _ ?p]) simp
qed

text \<open>
  The part of the tree down to level \<open>l + 1\<close>: nodes \<open>0\<close> to \<open>ni - 1\<close>, those of level \<open>l + 1\<close>
  from \<open>lo\<close> on.
\<close>

definition layered :: "plat_def \<Rightarrow> nat \<Rightarrow> nat \<Rightarrow> nat \<Rightarrow> 'p psci_state \<Rightarrow> bool" where
  "layered P l lo ni s \<longleftrightarrow>
     (let nd = psci_non_cpu_pd_nodes s in
      (\<forall>n < ni. l < level (nd n) \<and> level (nd n) \<le> PLAT_MAX_PWR_LVL P \<and> lock_index (nd n) = n \<and>
         local_state (nd n) = PLAT_MAX_OFF_STATE P) \<and>
      (\<forall>n < ni. lo \<le> n \<longrightarrow> level (nd n) = Suc l) \<and>
      (\<forall>n < ni. level (nd n) < PLAT_MAX_PWR_LVL P \<longrightarrow>
         parent_node (nd n) < ni \<and> level (nd (parent_node (nd n))) = Suc (level (nd n))) \<and>
      (\<forall>n < ni. \<forall>m \<le> n. level (nd m) = level (nd n) \<longrightarrow> level (nd n) < PLAT_MAX_PWR_LVL P \<longrightarrow>
         parent_node (nd m) \<le> parent_node (nd n)))"

lemma layered_init:
  assumes lay: "layered P (Suc l) lo ni s" and "Suc l \<le> PLAT_MAX_PWR_LVL P" "PLAT_MAX_PWR_LVL P < 256" "ni + K \<le> 256"
    and p: "\<forall>n \<in> {ni..<ni + K}. pni \<le> p n \<and> p n < pni + num" "mono_on {ni..<ni + K} p"
    and lo: "Suc l < PLAT_MAX_PWR_LVL P \<Longrightarrow> 1 \<le> pni \<and> pni - 1 = lo" and num: "pni + num = ni + 1"
  shows "layered P l ni (ni + K) (init_nodes P (Suc l) {ni..<ni + K} (\<lambda>n. pred32 (p n)) s)"
proof -
  let ?s = "init_nodes P (Suc l) {ni..<ni + K} (\<lambda>n. pred32 (p n)) s"
  let ?nd = "psci_non_cpu_pd_nodes s" and ?nd' = "psci_non_cpu_pd_nodes ?s"
  have old: "?nd' n = ?nd n" if "n < ni" for n
    using that by (simp add: init_nodes_def)
  have new: "level (?nd' n) = Suc l" "local_state (?nd' n) = PLAT_MAX_OFF_STATE P" "lock_index (?nd' n) = n" "parent_node (?nd' n) = pred32 (p n)"
    if "ni \<le> n" "n < ni + K" for n
    using that assms(2-4) by (simp_all add: init_nodes_def)
  have par: "pred32 (p n) = p n - 1" "lo \<le> p n - 1" "p n - 1 < ni"
    if "ni \<le> n" "n < ni + K" "Suc l < PLAT_MAX_PWR_LVL P" for n
  proof -
    have "pni \<le> p n" "p n < ni + 1" using p(1) num that by auto
    then show "pred32 (p n) = p n - 1" "lo \<le> p n - 1" "p n - 1 < ni"
      using lo [OF that(3)] assms(4) pred32_eq [of "p n"] by auto
  qed
  have cases: "n < ni \<or> ni \<le> n \<and> n < ni + K" if "n < ni + K" for n using that by auto
  have A: "l < level (?nd' n) \<and> level (?nd' n) \<le> PLAT_MAX_PWR_LVL P \<and> lock_index (?nd' n) = n \<and>
      local_state (?nd' n) = PLAT_MAX_OFF_STATE P" if "n < ni + K" for n
    using cases [OF that] lay assms(2) new [of n] old [of n] by (auto simp: layered_def Let_def)
  have B: "parent_node (?nd' n) < ni + K \<and> level (?nd' (parent_node (?nd' n))) = Suc (level (?nd' n))"
    if "n < ni + K" "level (?nd' n) < PLAT_MAX_PWR_LVL P" for n
  proof (cases "n < ni")
    case True
    then have "parent_node (?nd n) < ni" "level (?nd (parent_node (?nd n))) = Suc (level (?nd n))"
      using lay that(2) old [OF True] by (simp_all add: layered_def Let_def)
    then show ?thesis using old [OF True] old [of "parent_node (?nd n)"] by simp
  next
    case False
    then have n: "ni \<le> n" "n < ni + K" "Suc l < PLAT_MAX_PWR_LVL P" using that new [of n] by auto
    have "level (?nd (p n - 1)) = Suc (Suc l)"
      using lay par(2,3) [OF n] by (simp add: layered_def Let_def)
    then show ?thesis using new [OF n(1,2)] par [OF n] old [of "p n - 1"] by simp
  qed
  have C: "parent_node (?nd' m) \<le> parent_node (?nd' n)"
    if "n < ni + K" "m \<le> n" "level (?nd' m) = level (?nd' n)" "level (?nd' n) < PLAT_MAX_PWR_LVL P" for m n
  proof (cases "n < ni")
    case True
    then show ?thesis using lay that old [of n] old [of m] by (simp add: layered_def Let_def)
  next
    case False
    then have n: "ni \<le> n" "n < ni + K" "Suc l < PLAT_MAX_PWR_LVL P" using that new [of n] by auto
    have "\<not> m < ni"
    proof
      assume "m < ni"
      then have "Suc l < level (?nd' m)" using lay old [of m] by (simp add: layered_def Let_def)
      with that(3) new [OF n(1,2)] show False by simp
    qed
    then have m: "ni \<le> m" "m < ni + K" using that(2) n by auto
    have "p m \<le> p n" using p(2) m n that(2) unfolding mono_on_def by auto
    then show ?thesis using new [OF n(1,2)] new [OF m] par [OF n] par(1) [OF m n(3)] by simp
  qed
  show ?thesis using A B C new(1) unfolding layered_def Let_def by simp
qed

text \<open>What the tree loop leaves: the layers, the CPUs below them, and the counters untouched.\<close>

definition populated :: "plat_def \<Rightarrow> nat \<Rightarrow> nat \<Rightarrow> 'p psci_state \<Rightarrow> 'p psci_state \<Rightarrow> bool" where
  "populated P ni N s s' \<longleftrightarrow>
     (\<exists>lo. layered P 0 lo ni s' \<and>
       (0 < PLAT_MAX_PWR_LVL P \<longrightarrow>
         (\<forall>c < N. lo \<le> cpu_parent_node (psci_cpu_pd_nodes s' c) \<and> cpu_parent_node (psci_cpu_pd_nodes s' c) < ni) \<and>
         (\<forall>c < N. \<forall>b \<le> c. cpu_parent_node (psci_cpu_pd_nodes s' b) \<le> cpu_parent_node (psci_cpu_pd_nodes s' c)))) \<and>
     (\<forall>c < N. psci_svc_cpu_data s' c =
        \<lparr>aff_info_state = AFF_STATE_OFF, target_pwrlvl = PSCI_INVALID_PWR_LVL P,
         cpu_local_state = PLAT_MAX_OFF_STATE P\<rparr>) \<and>
     (\<forall>n. ncpus (psci_non_cpu_pd_nodes s' n) = ncpus (psci_non_cpu_pd_nodes s n) \<and>
        cpu_start_idx (psci_non_cpu_pd_nodes s' n) = cpu_start_idx (psci_non_cpu_pd_nodes s n)) \<and>
     psci_locks s' = psci_locks s \<and> cpu_locks s' = cpu_locks s \<and> psci_spd_pm s' = psci_spd_pm s"

lemma populate_cpus:
  assumes "layered P 0 lo ni s" "ni \<le> 256" "pni + num = ni + 1"
    and lo: "0 < PLAT_MAX_PWR_LVL P \<Longrightarrow> 1 \<le> pni \<and> pni - 1 = lo"
  shows "populated P ni (children t pni num) s (populate_tree_loop P t 0 num 0 pni s)"
proof -
  let ?N = "children t pni num"
  obtain p where p: "\<forall>n \<in> {0..<0 + ?N}. pni \<le> p n \<and> p n < pni + num" "mono_on {0..<0 + ?N} p"
    and s': "populate_tree_loop P t 0 num 0 pni s = init_nodes P 0 {0..<0 + ?N} (\<lambda>n. pred32 (p n)) s"
    using populate_level_loop_eq [of 0 t pni num P 0 0 s] by auto
  have par: "pred32 (p c) = p c - 1" "lo \<le> p c - 1" "p c - 1 < ni"
    if "c < ?N" "0 < PLAT_MAX_PWR_LVL P" for c
  proof -
    have "pni \<le> p c" "p c < ni + 1" using p(1) assms(3) that by auto
    then show "pred32 (p c) = p c - 1" "lo \<le> p c - 1" "p c - 1 < ni"
      using lo [OF that(2)] assms(2) pred32_eq [of "p c"] by auto
  qed
  have "layered P 0 lo ni (s\<lparr>psci_cpu_pd_nodes := x, psci_svc_cpu_data := y\<rparr>)" for x y
    using assms(1) by (simp add: layered_def)
  moreover have "p b - 1 \<le> p c - 1" if "c < ?N" "b \<le> c" for b c
    using mono_onD [OF p(2), of b c] that by simp
  ultimately show ?thesis
    unfolding populated_def s' using par
    by (intro conjI exI [of _ lo]) (simp_all add: init_nodes_def)
qed

lemma populated_trans:
  assumes "populated P ni N s1 s'"
    and "\<And>n. ncpus (psci_non_cpu_pd_nodes s1 n) = ncpus (psci_non_cpu_pd_nodes s n)"
    and "\<And>n. cpu_start_idx (psci_non_cpu_pd_nodes s1 n) = cpu_start_idx (psci_non_cpu_pd_nodes s n)"
    and "psci_locks s1 = psci_locks s" "cpu_locks s1 = cpu_locks s" "psci_spd_pm s1 = psci_spd_pm s"
  shows "populated P ni N s s'"
  using assms unfolding populated_def by simp

lemma populate_tree_loop_populated:
  assumes "layered P l lo ni s" "l \<le> PLAT_MAX_PWR_LVL P" "PLAT_MAX_PWR_LVL P < 256"
    "ni + sum_list (butlast (tree_sizes t l num pni)) \<le> 256" "pni + num = ni + 1"
    and "l < PLAT_MAX_PWR_LVL P \<Longrightarrow> 1 \<le> pni \<and> pni - 1 = lo"
  shows "populated P (ni + sum_list (butlast (tree_sizes t l num pni))) (last (tree_sizes t l num pni)) s
    (populate_tree_loop P t l num (if l = 0 then 0 else ni) pni s)"
  using assms
proof (induction l arbitrary: lo ni s num pni)
  case 0
  then show ?case using populate_cpus [of P lo ni s pni num t] by simp
next
  case (Suc l)
  let ?K = "children t pni num"
  obtain p where p: "\<forall>n \<in> {ni..<ni + ?K}. pni \<le> p n \<and> p n < pni + num" "mono_on {ni..<ni + ?K} p"
    and s1: "populate_level_loop P t (Suc l) num ni pni 0 s =
      (ni + ?K, pni + num, ?K, init_nodes P (Suc l) {ni..<ni + ?K} (\<lambda>n. pred32 (p n)) s)"
    using populate_level_loop_eq [of ni t pni num P "Suc l" 0 s] by auto
  define s1 where "s1 = init_nodes P (Suc l) {ni..<ni + ?K} (\<lambda>n. pred32 (p n)) s"
  have ne: "tree_sizes t l ?K (pni + num) \<noteq> []" by (cases l) simp_all
  have K: "ni + ?K \<le> 256" using Suc.prems(4) ne by simp
  have "layered P l ni (ni + ?K) s1"
    unfolding s1_def using layered_init [OF Suc.prems(1-3) K p Suc.prems(6,5)] .
  then have "populated P (ni + ?K + sum_list (butlast (tree_sizes t l ?K (pni + num))))
      (last (tree_sizes t l ?K (pni + num))) s1
      (populate_tree_loop P t l ?K (if l = 0 then 0 else ni + ?K) (pni + num) s1)"
    using Suc.prems ne by (intro Suc.IH [of ni]) auto
  moreover have "populate_tree_loop P t (Suc l) num ni pni s =
      populate_tree_loop P t l ?K (if l = 0 then 0 else ni + ?K) (pni + num) s1"
    by (simp add: s1 s1_def PSCI_CPU_PWR_LVL_def)
  ultimately have "populated P (ni + sum_list (butlast (tree_sizes t (Suc l) num pni)))
      (last (tree_sizes t (Suc l) num pni)) s1 (populate_tree_loop P t (Suc l) num ni pni s)"
    using ne by (simp add: add.assoc)
  then show ?case
    by (auto intro: populated_trans simp: s1_def init_nodes_def)
qed

subsection \<open>Counting the CPUs of each domain\<close>

text \<open>The tree before its CPUs are counted: paths with the right levels, in the order of the CPUs.\<close>

definition shaped :: "plat_def \<Rightarrow> 'p psci_state \<Rightarrow> bool" where
  "shaped P s \<longleftrightarrow>
     (\<forall>c < PLATFORM_CORE_COUNT P. \<forall>l \<in> {1..PLAT_MAX_PWR_LVL P}.
        pd_node s c l < PSCI_NUM_NON_CPU_PWR_DOMAINS P \<and>
        level (psci_non_cpu_pd_nodes s (pd_node s c l)) = l \<and>
        lock_index (psci_non_cpu_pd_nodes s (pd_node s c l)) = pd_node s c l \<and>
        (\<forall>b \<le> c. pd_node s b l \<le> pd_node s c l) \<and>
        local_state (psci_non_cpu_pd_nodes s (pd_node s c l)) = PLAT_MAX_OFF_STATE P)"

lemma shapedD:
  assumes "shaped P s" "c < PLATFORM_CORE_COUNT P" "1 \<le> l" "l \<le> PLAT_MAX_PWR_LVL P"
  shows "pd_node s c l < PSCI_NUM_NON_CPU_PWR_DOMAINS P"
    and "level (psci_non_cpu_pd_nodes s (pd_node s c l)) = l"
    and "lock_index (psci_non_cpu_pd_nodes s (pd_node s c l)) = pd_node s c l"
    and "b \<le> c \<Longrightarrow> pd_node s b l \<le> pd_node s c l"
    and "local_state (psci_non_cpu_pd_nodes s (pd_node s c l)) = PLAT_MAX_OFF_STATE P"
  using assms unfolding shaped_def by simp_all

lemma populated_shaped:
  assumes "populated P ni (PLATFORM_CORE_COUNT P) s0 s" "ni \<le> PSCI_NUM_NON_CPU_PWR_DOMAINS P"
  shows "shaped P s"
proof -
  let ?nd = "psci_non_cpu_pd_nodes s" and ?M = "PLAT_MAX_PWR_LVL P" and ?N = "PLATFORM_CORE_COUNT P"
  obtain lo where lay: "layered P 0 lo ni s"
    and cpu: "0 < ?M \<Longrightarrow> \<forall>c < ?N. lo \<le> pd_node s c 1 \<and> pd_node s c 1 < ni"
    and mono: "0 < ?M \<Longrightarrow> \<forall>c < ?N. \<forall>b \<le> c. pd_node s b 1 \<le> pd_node s c 1"
    using assms(1) by (auto simp: populated_def pd_node_1)
  have path: "pd_node s c (Suc k) < ni \<and> level (?nd (pd_node s c (Suc k))) = Suc k \<and>
      (\<forall>b \<le> c. pd_node s b (Suc k) \<le> pd_node s c (Suc k))" if "c < ?N" "Suc k \<le> ?M" for c k
    using that
  proof (induction k arbitrary: c)
    case 0
    then show ?case using lay cpu mono by (simp add: layered_def Let_def)
  next
    case (Suc k)
    let ?n = "\<lambda>b. pd_node s b (Suc k)"
    have IH: "?n b < ni" "level (?nd (?n b)) = Suc k" "b \<le> c \<Longrightarrow> ?n b \<le> ?n c" if "b \<le> c" for b
      using Suc.IH [of b] Suc.IH [of c] Suc.prems that by auto
    have par: "parent_node (?nd (?n b)) = pd_node s b (Suc (Suc k))" for b
      by (rule pd_node_Suc) simp
    have "parent_node (?nd (?n c)) < ni \<and> level (?nd (parent_node (?nd (?n c)))) = Suc (Suc k)"
      using lay IH [of c] Suc.prems by (simp add: layered_def Let_def)
    moreover have "parent_node (?nd (?n b)) \<le> parent_node (?nd (?n c))" if "b \<le> c" for b
      using lay IH [of c] IH [OF that] that Suc.prems unfolding layered_def Let_def by simp
    ultimately show ?case by (simp add: par)
  qed
  have "lock_index (?nd n) = n \<and> local_state (?nd n) = PLAT_MAX_OFF_STATE P" if "n < ni" for n
    using lay that by (simp add: layered_def Let_def)
  with path assms(2) show ?thesis
    unfolding shaped_def by (auto simp: Suc_le_eq dest!: gr0_implies_Suc) (meson less_le_trans)
qed

text \<open>
  The effect of the level loop on the node table: each domain of the path gains a CPU, and starts at it
  when it is not the domain last seen at its level.
\<close>

definition count_cpu :: "nat \<Rightarrow> (nat \<Rightarrow> nat) \<Rightarrow> nat \<Rightarrow> non_cpu_pd_node \<Rightarrow> non_cpu_pd_node" where
  "count_cpu c idx n nd =
     nd\<lparr>cpu_start_idx := (if n \<noteq> idx (level nd - 1) then c else cpu_start_idx nd), ncpus := ncpus nd + 1\<rparr>"

definition count_path ::
    "nat \<Rightarrow> (nat \<Rightarrow> nat) \<Rightarrow> nat set \<Rightarrow> (nat \<Rightarrow> non_cpu_pd_node) \<Rightarrow> nat \<Rightarrow> non_cpu_pd_node" where
  "count_path c idx A nodes = (\<lambda>n. if n \<in> A then count_cpu c idx n (nodes n) else nodes n)"

lemma limits_level_loop_eq:
  assumes "j \<le> maxl" "path_levels c maxl s"
    and "\<And>n. level (psci_non_cpu_pd_nodes s' n) = level (psci_non_cpu_pd_nodes s n)"
  shows "limits_level_loop (map (pd_node s c) [1..<Suc maxl]) c j idx s' =
    (\<lambda>i. if i < j then pd_node s c (Suc i) else idx i,
     s'\<lparr>psci_non_cpu_pd_nodes :=
        count_path c idx (pd_node s c ` {1..j}) (psci_non_cpu_pd_nodes s')\<rparr>)"
  using assms
proof (induction j arbitrary: idx s')
  case 0
  then show ?case by (simp add: count_path_def)
next
  case (Suc j)
  let ?n = "pd_node s c (Suc j)"
  let ?nd = "(psci_non_cpu_pd_nodes s')(?n := count_cpu c idx ?n (psci_non_cpu_pd_nodes s' ?n))"
  let ?s' = "s'\<lparr>psci_non_cpu_pd_nodes := ?nd\<rparr>"
  have nth: "map (pd_node s c) [1..<Suc maxl] ! j = ?n" using Suc.prems(1) by (simp del: upt_Suc)
  have lev: "level (psci_non_cpu_pd_nodes s' ?n) = Suc j"
    using Suc.prems by (simp add: path_levels_def)
  have step: "limits_level_loop (map (pd_node s c) [1..<Suc maxl]) c (Suc j) idx s' =
      limits_level_loop (map (pd_node s c) [1..<Suc maxl]) c j (idx(j := ?n)) ?s'"
    unfolding limits_level_loop.simps nth Let_def by (simp add: count_cpu_def lev)
  have lev': "level (psci_non_cpu_pd_nodes ?s' n) = level (psci_non_cpu_pd_nodes s n)" for n
    using Suc.prems(3) [of n] Suc.prems(3) [of ?n] by (simp add: count_cpu_def)
  have ins: "{Suc 0..Suc j} = insert (Suc j) {Suc 0..j}" by auto
  have inj: "pd_node s c l \<noteq> ?n" if "l \<in> {1..j}" for l
    using path_levels_inj [OF Suc.prems(2)] that Suc.prems(1) by (auto dest: inj_onD)
  have cnt: "count_cpu c (idx(j := ?n)) n (psci_non_cpu_pd_nodes s' n) =
      count_cpu c idx n (psci_non_cpu_pd_nodes s' n)" if n: "n \<in> pd_node s c ` {1..j}" for n
  proof -
    obtain l where l: "l \<in> {1..j}" "n = pd_node s c l" using n by blast
    then have "level (psci_non_cpu_pd_nodes s' n) = l" using Suc.prems by (simp add: path_levels_def)
    with l show ?thesis by (auto simp: count_cpu_def)
  qed
  have "?n \<notin> pd_node s c ` {1..j}" using inj by (metis imageE)
  then have "count_path c (idx(j := ?n)) (pd_node s c ` {1..j}) ?nd =
      count_path c idx (pd_node s c ` {1..Suc j}) (psci_non_cpu_pd_nodes s')"
    using cnt by (auto simp: count_path_def fun_eq_iff ins)
  moreover have "(\<lambda>i. if i < j then pd_node s c (Suc i) else (idx(j := ?n)) i) =
      (\<lambda>i. if i < Suc j then pd_node s c (Suc i) else idx i)"
    by (auto simp: fun_eq_iff less_Suc_eq)
  moreover have "j \<le> maxl" using Suc.prems(1) by simp
  moreover have upd: "?s'\<lparr>psci_non_cpu_pd_nodes := x\<rparr> = s'\<lparr>psci_non_cpu_pd_nodes := x\<rparr>" for x by simp
  moreover have nd: "psci_non_cpu_pd_nodes ?s' = ?nd" by simp
  ultimately show ?case
    unfolding step by (simp only: Suc.IH [OF _ Suc.prems(2) lev'])
qed

text \<open>The CPUs of node \<open>n\<close> among the first \<open>k\<close>.\<close>

definition cpus_of :: "plat_def \<Rightarrow> 'p psci_state \<Rightarrow> nat \<Rightarrow> nat \<Rightarrow> nat set" where
  "cpus_of P s k n = {c. c < k \<and> n \<in> pd_node s c ` {1..PLAT_MAX_PWR_LVL P}}"

definition counted :: "plat_def \<Rightarrow> 'p psci_state \<Rightarrow> nat \<Rightarrow> nat \<Rightarrow> non_cpu_pd_node" where
  "counted P s k n = (psci_non_cpu_pd_nodes s n)
     \<lparr>cpu_start_idx := (if cpus_of P s k n = {} then 0 else Min (cpus_of P s k n)),
      ncpus := card (cpus_of P s k n)\<rparr>"

lemma pd_node_cong:
  assumes "\<And>n. parent_node (psci_non_cpu_pd_nodes s' n) = parent_node (psci_non_cpu_pd_nodes s n)"
    and "\<And>c. cpu_parent_node (psci_cpu_pd_nodes s' c) = cpu_parent_node (psci_cpu_pd_nodes s c)"
  shows "pd_node s' = pd_node s"
proof -
  have "ancestor s' c k = ancestor s c k" for c k
    by (induction k) (simp_all add: assms)
  then show ?thesis by (simp add: pd_node_def fun_eq_iff)
qed

lemma shaped_path_levels: "shaped P s \<Longrightarrow> c < PLATFORM_CORE_COUNT P \<Longrightarrow> path_levels c (PLAT_MAX_PWR_LVL P) s"
  using shapedD(2) [of P s c] by (simp add: path_levels_def)

lemma cpus_of_Suc:
  "cpus_of P s (Suc k) n =
     (if n \<in> pd_node s k ` {1..PLAT_MAX_PWR_LVL P} then insert k (cpus_of P s k n) else cpus_of P s k n)"
  by (auto simp: cpus_of_def less_Suc_eq)

lemma finite_cpus_of [simp]: "finite (cpus_of P s k n)"
  by (simp add: cpus_of_def)

lemma cpus_of_less: "c \<in> cpus_of P s k n \<Longrightarrow> c < k"
  by (simp add: cpus_of_def)

definition last_seen :: "plat_def \<Rightarrow> 'p psci_state \<Rightarrow> nat \<Rightarrow> nat \<Rightarrow> nat" where
  "last_seen P s k i = (if k = 0 \<or> PLAT_MAX_PWR_LVL P \<le> i then 0 else pd_node s (k - 1) (Suc i))"

lemma cpus_of_same_level:
  assumes "shaped P s" "k \<le> PLATFORM_CORE_COUNT P" "1 \<le> l" "l \<le> PLAT_MAX_PWR_LVL P"
    and "level (psci_non_cpu_pd_nodes s n) = l" "c \<in> cpus_of P s k n"
  shows "pd_node s c l = n"
proof -
  obtain m where m: "m \<in> {1..PLAT_MAX_PWR_LVL P}" "n = pd_node s c m" and "c < k"
    using assms(6) by (auto simp: cpus_of_def)
  then have "m = l" using shapedD(2) [OF assms(1), of c m] assms(2,5) by simp
  with m show ?thesis by simp
qed

text \<open>A domain not seen at the CPU before has not been seen at all, since the CPUs are in tree order.\<close>

lemma new_domain:
  assumes sh: "shaped P s" and k: "k < PLATFORM_CORE_COUNT P" and l: "1 \<le> l" "l \<le> PLAT_MAX_PWR_LVL P"
    and n: "pd_node s k l = n" and new: "n \<noteq> last_seen P s k (l - 1)"
  shows "cpus_of P s k n = {}"
proof (rule ccontr)
  assume "cpus_of P s k n \<noteq> {}"
  then obtain c where c: "c \<in> cpus_of P s k n" by blast
  then have ck: "c < k" by (rule cpus_of_less)
  have "level (psci_non_cpu_pd_nodes s n) = l" using shapedD(2) [OF sh k l] n by simp
  then have "pd_node s c l = n" using cpus_of_same_level [OF sh _ l _ c] k by simp
  moreover have "pd_node s c l \<le> pd_node s (k - 1) l" "pd_node s (k - 1) l \<le> pd_node s k l"
    using shapedD(4) [OF sh _ l, of "k - 1" c] shapedD(4) [OF sh k l, of "k - 1"] ck k by auto
  ultimately have "pd_node s (k - 1) l = n" using n by simp
  with new ck l show False by (cases l) (auto simp: last_seen_def split: if_splits)
qed

lemma counted_Suc:
  assumes sh: "shaped P s" and k: "k < PLATFORM_CORE_COUNT P"
  shows "count_path k (last_seen P s k) (pd_node s k ` {1..PLAT_MAX_PWR_LVL P}) (counted P s k) n =
    counted P s (Suc k) n"
proof (cases "n \<in> pd_node s k ` {1..PLAT_MAX_PWR_LVL P}")
  case False
  then show ?thesis by (simp add: count_path_def counted_def cpus_of_Suc)
next
  case True
  then obtain l where l: "1 \<le> l" "l \<le> PLAT_MAX_PWR_LVL P" and n: "pd_node s k l = n" by auto
  have lev: "level (psci_non_cpu_pd_nodes s n) = l" using shapedD(2) [OF sh k l] n by simp
  have nin: "k \<notin> cpus_of P s k n" using cpus_of_less by blast
  have start: "(if n \<noteq> last_seen P s k (l - 1) then k
      else if cpus_of P s k n = {} then 0 else Min (cpus_of P s k n)) = Min (insert k (cpus_of P s k n))"
  proof (cases "n \<noteq> last_seen P s k (l - 1)")
    case True
    then show ?thesis using new_domain [OF sh k l n] by simp
  next
    case same: False
    show ?thesis
    proof (cases "k = 0")
      case True
      then have "cpus_of P s k n = {}" by (simp add: cpus_of_def)
      with True same show ?thesis by simp
    next
      case False
      then have "k - 1 \<in> cpus_of P s k n" using same l by (auto simp: cpus_of_def last_seen_def)
      then have ne: "cpus_of P s k n \<noteq> {}" by blast
      then have "Min (cpus_of P s k n) < k" using Min_in [OF finite_cpus_of ne] cpus_of_less by blast
      with ne same show ?thesis by (simp add: Min_insert)
    qed
  qed
  show ?thesis using True start nin
    by (simp add: count_path_def counted_def count_cpu_def cpus_of_Suc lev cong: if_cong split del: if_split)
qed

lemma limits_fold_eq:
  assumes sh: "shaped P s" and "k \<le> PLATFORM_CORE_COUNT P"
    and z: "\<And>n. ncpus (psci_non_cpu_pd_nodes s n) = 0 \<and> cpu_start_idx (psci_non_cpu_pd_nodes s n) = 0"
  shows "fold (limits_cpu P) [0..<k] (\<lambda>_. 0, s) =
    (last_seen P s k, s\<lparr>psci_non_cpu_pd_nodes := counted P s k\<rparr>)"
  using assms(2)
proof (induction k)
  case 0
  have "counted P s 0 n = psci_non_cpu_pd_nodes s n" for n
    using z [of n] by (cases "psci_non_cpu_pd_nodes s n") (simp add: counted_def cpus_of_def)
  then have "counted P s 0 = psci_non_cpu_pd_nodes s" by (simp add: fun_eq_iff)
  then show ?case by (simp add: last_seen_def fun_eq_iff)
next
  case (Suc k)
  let ?s = "s\<lparr>psci_non_cpu_pd_nodes := counted P s k\<rparr>" and ?M = "PLAT_MAX_PWR_LVL P"
  have k: "k < PLATFORM_CORE_COUNT P" using Suc.prems by simp
  have pd: "pd_node ?s = pd_node s" by (rule pd_node_cong) (simp_all add: counted_def)
  have "limits_cpu P k (last_seen P s k, ?s) =
      limits_level_loop (map (pd_node s k) [1..<Suc ?M]) k ?M (last_seen P s k) ?s"
    by (simp only: limits_cpu_def prod.case psci_get_parent_pwr_domain_nodes_eq pd)
  also have "\<dots> = (last_seen P s (Suc k), s\<lparr>psci_non_cpu_pd_nodes := counted P s (Suc k)\<rparr>)"
  proof -
    have "count_path k (last_seen P s k) (pd_node s k ` {1..?M}) (counted P s k) = counted P s (Suc k)"
      by (rule ext) (rule counted_Suc [OF sh k])
    moreover have "(\<lambda>i. if i < ?M then pd_node s k (Suc i) else last_seen P s k i) = last_seen P s (Suc k)"
      by (auto simp: last_seen_def)
    moreover have "level (psci_non_cpu_pd_nodes ?s n) = level (psci_non_cpu_pd_nodes s n)" for n
      by (simp add: counted_def)
    moreover note limits_level_loop_eq [OF order_refl shaped_path_levels [OF sh k], of ?s "last_seen P s k"]
    ultimately show ?thesis by simp
  qed
  finally show ?case using Suc by simp
qed

lemma interval_of_convex:
  fixes A :: "nat set"
  assumes "finite A" "A \<noteq> {}" and convex: "\<And>a b x. a \<in> A \<Longrightarrow> b \<in> A \<Longrightarrow> a \<le> x \<Longrightarrow> x \<le> b \<Longrightarrow> x \<in> A"
  shows "x \<in> A \<longleftrightarrow> Min A \<le> x \<and> x < Min A + card A"
proof -
  have iff: "y \<in> A \<longleftrightarrow> y \<in> {Min A..Max A}" for y
    using convex [OF Min_in [OF assms(1,2)] Max_in [OF assms(1,2)], of y]
      Min_le [OF assms(1), of y] Max_ge [OF assms(1), of y] by auto
  then have "A = {Min A..Max A}" by blast
  then have "card A = card {Min A..Max A}" by (rule arg_cong)
  moreover have "Min A \<le> Max A" by (rule Min_le [OF assms(1) Max_in [OF assms(1,2)]])
  ultimately show ?thesis unfolding iff [of x] by auto
qed

lemma psci_update_pwrlvl_limits_wf:
  assumes sh: "shaped P s"
    and z: "\<And>n. ncpus (psci_non_cpu_pd_nodes s n) = 0 \<and> cpu_start_idx (psci_non_cpu_pd_nodes s n) = 0"
  shows "wf_tree P (psci_update_pwrlvl_limits P s)"
proof -
  let ?N = "PLATFORM_CORE_COUNT P" and ?M = "PLAT_MAX_PWR_LVL P"
  let ?s = "s\<lparr>psci_non_cpu_pd_nodes := counted P s ?N\<rparr>"
  have eq: "psci_update_pwrlvl_limits P s = ?s"
    using limits_fold_eq [OF sh order_refl z] by (simp add: psci_update_pwrlvl_limits_def)
  have pd: "pd_node ?s = pd_node s" by (rule pd_node_cong) (simp_all add: counted_def)
  have "wf_node P ?s c l" if c: "c < ?N" and l: "1 \<le> l" "l \<le> ?M" for c l
  proof -
    define n where "n = pd_node s c l"
    let ?A = "cpus_of P s ?N n"
    have lev: "level (psci_non_cpu_pd_nodes s n) = l" using shapedD(2) [OF sh c l] by (simp add: n_def)
    have A: "b \<in> ?A \<longleftrightarrow> b < ?N \<and> pd_node s b l = n" for b
      using cpus_of_same_level [OF sh order_refl l lev, of b] l by (auto simp: cpus_of_def)
    have cA: "c \<in> ?A" using A c by (simp add: n_def)
    have cv: "x \<in> ?A" if "a \<in> ?A" "b \<in> ?A" "a \<le> x" "x \<le> b" for a b x
    proof -
      have "a < ?N" "b < ?N" "pd_node s a l = n" "pd_node s b l = n" using that(1,2) unfolding A by auto
      moreover have "x < ?N" using \<open>b < ?N\<close> that(4) by simp
      ultimately have "pd_node s x l = n"
        using shapedD(4) [OF sh \<open>x < ?N\<close> l that(3)] shapedD(4) [OF sh \<open>b < ?N\<close> l that(4)] by simp
      with \<open>x < ?N\<close> show ?thesis unfolding A by simp
    qed
    have ne: "?A \<noteq> {}" using cA by blast
    have iv: "x \<in> ?A \<longleftrightarrow> Min ?A \<le> x \<and> x < Min ?A + card ?A" for x
      by (rule interval_of_convex [OF finite_cpus_of ne cv])
    have nd: "psci_non_cpu_pd_nodes ?s n = (psci_non_cpu_pd_nodes s n)\<lparr>cpu_start_idx := Min ?A, ncpus := card ?A\<rparr>"
      using ne by (simp add: counted_def)
    have dom: "in_domain ?s n x \<longleftrightarrow> x < ?N \<and> pd_node s x l = n" for x
      unfolding in_domain_def Let_def nd A [symmetric] iv by simp
    have "0 < card ?A" using ne by (simp add: card_gt_0_iff)
    then have "Min ?A + card ?A - 1 \<in> ?A" unfolding iv by simp
    then have "Min ?A + card ?A \<le> ?N" using cpus_of_less [of "Min ?A + card ?A - 1" P s ?N n] by simp
    moreover have "in_domain ?s n c" unfolding dom using c by (simp add: n_def)
    moreover have "n < PSCI_NUM_NON_CPU_PWR_DOMAINS P" "lock_index (psci_non_cpu_pd_nodes s n) = n"
      using shapedD(1,3) [OF sh c l] by (simp_all add: n_def)
    ultimately show ?thesis
      unfolding wf_node_def Let_def pd n_def [symmetric] nd by (simp add: lev dom)
  qed
  then show ?thesis by (simp add: eq wf_tree_def)
qed

subsection \<open>Setup\<close>

text \<open>The state in which \<^verbatim>\<open>psci_setup\<close> is called: the arrays are zero and the locks free.\<close>

definition cold_state :: "'p psci_state \<Rightarrow> bool" where
  "cold_state s \<longleftrightarrow>
     (\<forall>n. ncpus (psci_non_cpu_pd_nodes s n) = 0 \<and> cpu_start_idx (psci_non_cpu_pd_nodes s n) = 0) \<and>
     psci_locks s = Map.empty \<and> cpu_locks s = Map.empty"

lemma populate_power_domain_tree_populated:
  assumes "valid_topology P" "PSCI_NUM_NON_CPU_PWR_DOMAINS P \<le> 256" "PLAT_MAX_PWR_LVL P < 256"
  shows "\<exists>ni \<le> PSCI_NUM_NON_CPU_PWR_DOMAINS P. populated P ni (PLATFORM_CORE_COUNT P) s
    (populate_power_domain_tree P (plat_get_power_domain_tree_desc P) s)"
proof -
  let ?t = "plat_get_power_domain_tree_desc P" and ?M = "PLAT_MAX_PWR_LVL P"
  let ?sizes = "tree_sizes ?t ?M 1 0"
  have sz: "last ?sizes = PLATFORM_CORE_COUNT P" "sum_list (butlast ?sizes) \<le> PSCI_NUM_NON_CPU_PWR_DOMAINS P"
    using assms(1) by (simp_all add: valid_topology_def Let_def)
  have "layered P ?M 0 0 s" by (simp add: layered_def)
  from populate_tree_loop_populated [OF this order_refl assms(3), of ?t 1 0] sz assms(2)
  show ?thesis by (auto simp: populate_power_domain_tree_def)
qed

lemma psci_setup_tree:
  assumes top: "valid_topology P" "PSCI_NUM_NON_CPU_PWR_DOMAINS P \<le> 256" "PLAT_MAX_PWR_LVL P < 256"
    and cold: "cold_state s"
  defines "t \<equiv> psci_update_pwrlvl_limits P
    (populate_power_domain_tree P (plat_get_power_domain_tree_desc P) (psci_arch_setup s))"
  shows "wf_tree P t" and "psci_locks t = Map.empty" and "cpu_locks t = Map.empty"
    and "psci_spd_pm t = psci_spd_pm s"
    and "c < PLATFORM_CORE_COUNT P \<Longrightarrow> psci_svc_cpu_data t c =
        \<lparr>aff_info_state = AFF_STATE_OFF, target_pwrlvl = PSCI_INVALID_PWR_LVL P,
         cpu_local_state = PLAT_MAX_OFF_STATE P\<rparr>"
    and "c < PLATFORM_CORE_COUNT P \<Longrightarrow> 1 \<le> l \<Longrightarrow> l \<le> PLAT_MAX_PWR_LVL P \<Longrightarrow>
      local_state (psci_non_cpu_pd_nodes t (pd_node t c l)) = PLAT_MAX_OFF_STATE P"
proof -
  let ?N = "PLATFORM_CORE_COUNT P" and ?s0 = "psci_arch_setup s"
  define u where "u = populate_power_domain_tree P (plat_get_power_domain_tree_desc P) ?s0"
  obtain ni where ni: "ni \<le> PSCI_NUM_NON_CPU_PWR_DOMAINS P" and pop: "populated P ni ?N ?s0 u"
    using populate_power_domain_tree_populated [OF top, of ?s0] by (auto simp: u_def)
  have sh: "shaped P u" by (rule populated_shaped [OF pop ni])
  have z: "ncpus (psci_non_cpu_pd_nodes u n) = 0 \<and> cpu_start_idx (psci_non_cpu_pd_nodes u n) = 0" for n
    using pop cold by (simp add: populated_def cold_state_def psci_arch_setup_def emit_def)
  have t: "t = u\<lparr>psci_non_cpu_pd_nodes := counted P u ?N\<rparr>"
    using limits_fold_eq [OF sh order_refl z] by (simp add: t_def u_def psci_update_pwrlvl_limits_def)
  show "wf_tree P t"
    unfolding t_def u_def [symmetric] by (rule psci_update_pwrlvl_limits_wf [OF sh z])
  show "psci_locks t = Map.empty" "cpu_locks t = Map.empty" "psci_spd_pm t = psci_spd_pm s"
    using pop cold by (simp_all add: t populated_def cold_state_def psci_arch_setup_def emit_def)
  show "c < ?N \<Longrightarrow> psci_svc_cpu_data t c = \<lparr>aff_info_state = AFF_STATE_OFF,
      target_pwrlvl = PSCI_INVALID_PWR_LVL P, cpu_local_state = PLAT_MAX_OFF_STATE P\<rparr>"
    using pop by (simp add: t populated_def)
  have "pd_node t = pd_node u" unfolding t by (rule pd_node_cong) (simp_all add: counted_def)
  then show "c < ?N \<Longrightarrow> 1 \<le> l \<Longrightarrow> l \<le> PLAT_MAX_PWR_LVL P \<Longrightarrow>
      local_state (psci_non_cpu_pd_nodes t (pd_node t c l)) = PLAT_MAX_OFF_STATE P"
    using shapedD(5) [OF sh, of c l] by (simp add: t counted_def)
qed

text \<open>
  The state \<^verbatim>\<open>psci_setup\<close> leaves: the calling CPU and the domains above it run, everything else is off,
  and every request says so.
\<close>

definition boot_state :: "plat_def \<Rightarrow> nat \<Rightarrow> 'p psci_state \<Rightarrow> bool" where
  "boot_state P me s \<longleftrightarrow>
     wf_tree P s \<and> psci_locks s = Map.empty \<and> cpu_locks s = Map.empty \<and>
     (\<forall>c < PLATFORM_CORE_COUNT P. psci_svc_cpu_data s c =
        \<lparr>aff_info_state = (if c = me then AFF_STATE_ON else AFF_STATE_OFF),
         target_pwrlvl = PSCI_INVALID_PWR_LVL P,
         cpu_local_state = (if c = me then PSCI_LOCAL_STATE_RUN else PLAT_MAX_OFF_STATE P)\<rparr>) \<and>
     (\<forall>c < PLATFORM_CORE_COUNT P. \<forall>l \<in> {1..PLAT_MAX_PWR_LVL P}.
        local_state (psci_non_cpu_pd_nodes s (pd_node s c l)) =
          (if pd_node s c l = pd_node s me l then PSCI_LOCAL_STATE_RUN else PLAT_MAX_OFF_STATE P) \<and>
        psci_req_local_pwr_states s (l - 1) c =
          (if c = me then PSCI_LOCAL_STATE_RUN else PLAT_MAX_OFF_STATE P))"

lemma psci_setup_boot_state:
  assumes top: "valid_topology P" "PSCI_NUM_NON_CPU_PWR_DOMAINS P \<le> 256" "PLAT_MAX_PWR_LVL P < 256"
    and cold: "cold_state s" and me: "my_core_pos R < PLATFORM_CORE_COUNT P"
  shows "boot_state P (my_core_pos R) (snd (psci_setup P R ops s))"
proof -
  let ?me = "my_core_pos R" and ?N = "PLATFORM_CORE_COUNT P" and ?M = "PLAT_MAX_PWR_LVL P"
  define t where "t = psci_update_pwrlvl_limits P
    (populate_power_domain_tree P (plat_get_power_domain_tree_desc P) (psci_arch_setup s))"
  note t = psci_setup_tree [OF top cold, folded t_def]
  define v where "v = psci_init_req_local_pwr_states P (t\<lparr>psci_cpu_pd_nodes := (psci_cpu_pd_nodes t)
    (?me := (psci_cpu_pd_nodes t ?me)\<lparr>cpu_mpidr := mpidr_el1 R AND MPIDR_AFFINITY_MASK\<rparr>)\<rparr>)"
  have tv: "same_tree t v" and nv: "psci_non_cpu_pd_nodes v = psci_non_cpu_pd_nodes t"
    by (simp_all add: v_def psci_init_req_local_pwr_states_def same_tree_def)
  have wf: "wf_tree P v" using t(1) by (simp add: same_tree_wf [OF tv])
  define w where "w = psci_set_pwr_domains_to_run ?me ?M v"
  note weq = psci_set_pwr_domains_to_run_eq [OF wf_path_levels [OF wf me order_refl], folded w_def]
  have vw: "same_tree v w"
    using same_tree_path_states [of v ?me 1 ?M "\<lambda>_. PSCI_LOCAL_STATE_RUN"] by (simp add: weq same_tree_def)
  have s': "snd (psci_setup P R ops s) = w\<lparr>psci_plat_pm_ops := ops, psci_caps := psci_setup_caps ops\<rparr>"
    by (simp add: psci_setup_def Let_def t_def v_def w_def)
  have st: "same_tree w (snd (psci_setup P R ops s))" by (simp add: s' same_tree_def)
  have pd: "pd_node (snd (psci_setup P R ops s)) = pd_node v"
    by (simp add: fun_eq_iff same_tree_pd_node [OF st] same_tree_pd_node [OF vw])
  have local: "local_state (psci_non_cpu_pd_nodes w (pd_node v c l)) =
      (if pd_node v c l = pd_node v ?me l then PSCI_LOCAL_STATE_RUN else PLAT_MAX_OFF_STATE P)"
    if "c < ?N" "1 \<le> l" "l \<le> ?M" for c l
    using path_states_at [OF wf that(1) me that(2,3) order_refl] t(6) [OF that] that(3)
    by (simp add: weq nv same_tree_pd_node [OF tv])
  have "wf_tree P (snd (psci_setup P R ops s))"
    using wf by (simp add: same_tree_wf [OF st] same_tree_wf [OF vw])
  then show ?thesis
    unfolding boot_state_def pd using local t(2-5)
    by (auto simp: s') (auto simp: weq v_def psci_init_req_local_pwr_states_def requests_def)
qed

end
