(* ===== verification/Psci_Ops.thy ===== *)
theory Psci_Ops
  imports Psci_Setup
begin

unbundle bit_operations_syntax

text \<open>
  The operations behind the PSCI calls: \<^verbatim>\<open>lib/psci/psci_on.c\<close>, \<^verbatim>\<open>psci_off.c\<close>, \<^verbatim>\<open>psci_suspend.c\<close>,
  \<^verbatim>\<open>psci_system_off.c\<close>, \<^verbatim>\<open>psci_mem_protect.c\<close> and the warm boot entry point of \<^verbatim>\<open>psci_common.c\<close>.
  A function that waits for a lock held by another CPU is \<open>Blocked\<close>; a call through a null hook and
  \<^verbatim>\<open>panic()\<close> are \<open>Panic\<close>.
\<close>

subsection \<open>CPU\_ON\<close>

definition cpu_on_validate_state :: "aff_info_state \<Rightarrow> int" where
  "cpu_on_validate_state aff_state =
     (if aff_state = AFF_STATE_ON then PSCI_E_ALREADY_ON
      else if aff_state = AFF_STATE_ON_PENDING then PSCI_E_ON_PENDING
      else PSCI_E_SUCCESS)"

definition core_index :: "plat_def \<Rightarrow> u64 \<Rightarrow> nat" where
  "core_index P mpidr = nat (plat_core_pos_by_mpidr P mpidr mod 2 ^ 32)"

definition psci_cpu_on_start ::
    "plat_def \<Rightarrow> nat \<Rightarrow> u64 \<Rightarrow> entry_point_info \<Rightarrow> 'p psci_state \<Rightarrow> (int, 'p psci_state) outcome" where
  "psci_cpu_on_start P me target_cpu ep s =
     (let target_idx = core_index P target_cpu in
      case psci_spin_lock_cpu me target_idx s of
        None \<Rightarrow> Blocked
      | Some s \<Rightarrow>
        (let rc = cpu_on_validate_state (psci_get_aff_info_state_by_idx target_idx s) in
         if rc \<noteq> PSCI_E_SUCCESS then Return rc (psci_spin_unlock_cpu target_idx s)
         else
           let s = call_spd (\<lambda>pm. map_option (\<lambda>f. f target_cpu) (svc_on pm)) (Spd_on target_cpu) s;
               s = psci_set_aff_info_state_by_idx target_idx AFF_STATE_ON_PENDING s;
               s = (if psci_get_aff_info_state_by_idx target_idx s \<noteq> AFF_STATE_ON_PENDING
                    then psci_set_aff_info_state_by_idx target_idx AFF_STATE_ON_PENDING s else s)
           in case pwr_domain_on (psci_plat_pm_ops s) of
                None \<Rightarrow> Panic
              | Some f \<Rightarrow>
                (let (rc, p) = f target_cpu (plat_state s);
                     s = emit (Plat_on target_cpu) (s\<lparr>plat_state := p\<rparr>);
                     s = (if rc = PSCI_E_SUCCESS then cm_init_context_by_index target_idx ep s
                          else psci_set_aff_info_state_by_idx target_idx AFF_STATE_OFF s)
                 in Return rc (psci_spin_unlock_cpu target_idx s))))"

definition psci_cpu_on_finish ::
    "arch_regs \<Rightarrow> nat \<Rightarrow> psci_power_state \<Rightarrow> 'p psci_state \<Rightarrow> (unit, 'p psci_state) outcome" where
  "psci_cpu_on_finish R cpu_idx state_info s =
     (case pwr_domain_on_finish (psci_plat_pm_ops s) of
        None \<Rightarrow> Panic
      | Some f \<Rightarrow>
        (let s = on_plat (f state_info) (emit (Plat_on_finish state_info) s);
             s = emit Pwrup_cache_maintenance s;
             s = psci_arch_setup s
         in case psci_spin_lock_cpu (my_core_pos R) cpu_idx s of
              None \<Rightarrow> Blocked
            | Some s \<Rightarrow>
              (let s = psci_spin_unlock_cpu cpu_idx s;
                   s = call_spd (\<lambda>pm. map_option (\<lambda>f. f 0) (svc_on_finish pm)) (Spd_on_finish 0) s;
                   s = s\<lparr>psci_cpu_pd_nodes := (psci_cpu_pd_nodes s)(cpu_idx :=
                          (psci_cpu_pd_nodes s cpu_idx)\<lparr>cpu_mpidr := mpidr_el1 R AND MPIDR_AFFINITY_MASK\<rparr>)\<rparr>
               in Return () (emit El3_exit s))))"

subsection \<open>CPU\_OFF\<close>

definition psci_set_power_off_state :: "plat_def \<Rightarrow> psci_power_state \<Rightarrow> psci_power_state" where
  "psci_set_power_off_state P state_info =
     (\<lambda>lvl. if lvl \<le> PLAT_MAX_PWR_LVL P then PLAT_MAX_OFF_STATE P else state_info lvl)"

text \<open>The final \<^verbatim>\<open>wfi\<close>, through the platform's hook if there is one; neither returns.\<close>

definition pwr_down_wfi :: "psci_power_state \<Rightarrow> 'p psci_state \<Rightarrow> ('a, 'p psci_state) outcome" where
  "pwr_down_wfi state_info s =
     PowerDown (case pwr_domain_pwr_down_wfi (psci_plat_pm_ops s) of
        Some f \<Rightarrow> on_plat (f state_info) (emit (Plat_pwr_down_wfi state_info) s)
      | None \<Rightarrow> emit Psci_power_down_wfi s)"

definition call_svc_off :: "'p psci_state \<Rightarrow> int \<times> 'p psci_state" where
  "call_svc_off s =
     (case psci_spd_pm s of
        None \<Rightarrow> (PSCI_E_SUCCESS, s)
      | Some pm \<Rightarrow>
        (case svc_off pm of
           None \<Rightarrow> (PSCI_E_SUCCESS, s)
         | Some f \<Rightarrow> (let (rc, p) = f 0 (plat_state s) in (rc, emit (Spd_off 0) (s\<lparr>plat_state := p\<rparr>)))))"

definition psci_do_cpu_off ::
    "plat_def \<Rightarrow> arch_regs \<Rightarrow> nat \<Rightarrow> 'p psci_state \<Rightarrow> (int, 'p psci_state) outcome" where
  "psci_do_cpu_off P R end_pwrlvl s =
     (let idx = my_core_pos R;
          state_info = psci_set_power_off_state P (stack_state R) in
      case psci_acquire_pwr_domain_locks end_pwrlvl idx s of
        None \<Rightarrow> Blocked
      | Some s \<Rightarrow>
        (let (rc, s) = call_svc_off s in
         if rc \<noteq> 0 then Return rc (psci_release_pwr_domain_locks end_pwrlvl idx s)
         else
           let (state_info, s) = psci_do_state_coordination P idx end_pwrlvl state_info s;
               s = psci_do_pwrdown_sequence (psci_find_max_off_lvl P state_info) s
           in case pwr_domain_off (psci_plat_pm_ops s) of
                None \<Rightarrow> Panic
              | Some f \<Rightarrow>
                (let s = on_plat (f state_info) (emit (Plat_off state_info) s);
                     s = psci_release_pwr_domain_locks end_pwrlvl idx s;
                     s = psci_set_aff_info_state_by_idx idx AFF_STATE_OFF s
                 in pwr_down_wfi state_info s)))"

subsection \<open>CPU\_SUSPEND\<close>

definition psci_suspend_to_standby_finisher ::
    "plat_def \<Rightarrow> arch_regs \<Rightarrow> nat \<Rightarrow> nat \<Rightarrow> 'p psci_state \<Rightarrow> (unit, 'p psci_state) outcome" where
  "psci_suspend_to_standby_finisher P R cpu_idx end_pwrlvl s =
     (case psci_acquire_pwr_domain_locks end_pwrlvl cpu_idx s of
        None \<Rightarrow> Blocked
      | Some s \<Rightarrow>
        (let state_info = psci_get_target_local_pwr_states P (my_core_pos R) end_pwrlvl (stack_state R) s in
         case pwr_domain_suspend_finish (psci_plat_pm_ops s) of
           None \<Rightarrow> Panic
         | Some f \<Rightarrow>
           (let s = on_plat (f state_info) (emit (Plat_suspend_finish state_info) s);
                s = psci_set_pwr_domains_to_run (my_core_pos R) end_pwrlvl s
            in Return () (psci_release_pwr_domain_locks end_pwrlvl cpu_idx s))))"

definition psci_suspend_to_pwrdown_start ::
    "plat_def \<Rightarrow> nat \<Rightarrow> nat \<Rightarrow> entry_point_info \<Rightarrow> psci_power_state \<Rightarrow> 'p psci_state \<Rightarrow> 'p psci_state" where
  "psci_suspend_to_pwrdown_start P me end_pwrlvl ep state_info s =
     (let max_off_lvl = psci_find_max_off_lvl P state_info;
          s = psci_set_suspend_pwrlvl me end_pwrlvl s;
          s = call_spd (\<lambda>pm. map_option (\<lambda>f. f (of_nat max_off_lvl)) (svc_suspend pm))
                (Spd_suspend (of_nat max_off_lvl)) s;
          s = call_hook (map_option (\<lambda>f. f state_info) (pwr_domain_suspend_pwrdown_early (psci_plat_pm_ops s)))
                (Plat_suspend_early state_info) s;
          s = cm_init_context_by_index me ep s
      in psci_do_pwrdown_sequence max_off_lvl s)"

text \<open>
  \<^verbatim>\<open>psci_cpu_suspend_start\<close> up to its \<^verbatim>\<open>wfi\<close>; the function goes on after the \<^verbatim>\<open>wfi\<close> of a standby
  state with the standby finisher above, at the level the outcome \<open>Standby\<close> carries.
\<close>

definition psci_cpu_suspend_start ::
    "plat_def \<Rightarrow> arch_regs \<Rightarrow> entry_point_info \<Rightarrow> nat \<Rightarrow> psci_power_state \<Rightarrow> bool \<Rightarrow> 'p psci_state \<Rightarrow>
     (unit, 'p psci_state) outcome" where
  "psci_cpu_suspend_start P R ep end_pwrlvl state_info is_power_down_state s =
     (let idx = my_core_pos R in
      case psci_acquire_pwr_domain_locks end_pwrlvl idx s of
        None \<Rightarrow> Blocked
      | Some s \<Rightarrow>
        if isr_el1 R \<noteq> 0 then Return () (psci_release_pwr_domain_locks end_pwrlvl idx s)
        else
          (let (state_info, s) = psci_do_state_coordination P idx end_pwrlvl state_info s;
               s = (if is_power_down_state
                    then psci_suspend_to_pwrdown_start P idx end_pwrlvl ep state_info s else s)
           in case pwr_domain_suspend (psci_plat_pm_ops s) of
                None \<Rightarrow> Panic
              | Some f \<Rightarrow>
                (let s = on_plat (f state_info) (emit (Plat_suspend state_info) s);
                     s = psci_release_pwr_domain_locks end_pwrlvl idx s
                 in if is_power_down_state then pwr_down_wfi state_info s
                    else Standby end_pwrlvl (emit Wfi s))))"

definition psci_cpu_suspend_finish ::
    "plat_def \<Rightarrow> nat \<Rightarrow> nat \<Rightarrow> psci_power_state \<Rightarrow> 'p psci_state \<Rightarrow> (unit, 'p psci_state) outcome" where
  "psci_cpu_suspend_finish P me cpu_idx state_info s =
     (case pwr_domain_suspend_finish (psci_plat_pm_ops s) of
        None \<Rightarrow> Panic
      | Some f \<Rightarrow>
        (let s = on_plat (f state_info) (emit (Plat_suspend_finish state_info) s);
             s = emit Pwrup_cache_maintenance s;
             max_off_lvl = psci_find_max_off_lvl P state_info;
             s = call_spd (\<lambda>pm. map_option (\<lambda>f. f (of_nat max_off_lvl)) (svc_suspend_finish pm))
                   (Spd_suspend_finish (of_nat max_off_lvl)) s;
             s = psci_set_suspend_pwrlvl me (PSCI_INVALID_PWR_LVL P) s
         in Return () (emit El3_exit s)))"

subsection \<open>Warm boot\<close>

definition psci_warmboot_entrypoint ::
    "plat_def \<Rightarrow> arch_regs \<Rightarrow> 'p psci_state \<Rightarrow> (unit, 'p psci_state) outcome" where
  "psci_warmboot_entrypoint P R s =
     (let cpu_idx = my_core_pos R;
          state_info = (\<lambda>_. PSCI_LOCAL_STATE_RUN) in
      if psci_get_aff_info_state_by_idx cpu_idx s = AFF_STATE_OFF then Panic
      else
        let end_pwrlvl = get_power_on_target_pwrlvl P cpu_idx s in
        case psci_acquire_pwr_domain_locks end_pwrlvl cpu_idx s of
          None \<Rightarrow> Blocked
        | Some s \<Rightarrow>
          (let state_info = psci_get_target_local_pwr_states P cpu_idx end_pwrlvl state_info s in
           case (if psci_get_aff_info_state_by_idx cpu_idx s = AFF_STATE_ON_PENDING
                 then psci_cpu_on_finish R cpu_idx state_info s
                 else psci_cpu_suspend_finish P cpu_idx cpu_idx state_info s) of
             Return _ s \<Rightarrow>
               (let s = psci_set_pwr_domains_to_run cpu_idx end_pwrlvl s
                in Return () (psci_release_pwr_domain_locks end_pwrlvl cpu_idx s))
           | r \<Rightarrow> r))"

subsection \<open>System operations and memory protection\<close>

definition psci_system_off :: "'p psci_state \<Rightarrow> ('a, 'p psci_state) outcome" where
  "psci_system_off s =
     (let s = call_spd svc_system_off Spd_system_off s in
      case system_off (psci_plat_pm_ops s) of
        None \<Rightarrow> Panic
      | Some f \<Rightarrow>
        (case f (plat_state s) of
           None \<Rightarrow> Panic
         | Some p \<Rightarrow> PowerDown (emit Plat_system_off (s\<lparr>plat_state := p\<rparr>))))"

definition psci_system_reset :: "'p psci_state \<Rightarrow> ('a, 'p psci_state) outcome" where
  "psci_system_reset s =
     (let s = call_spd svc_system_reset Spd_system_reset s in
      case system_reset (psci_plat_pm_ops s) of
        None \<Rightarrow> Panic
      | Some f \<Rightarrow> PowerDown (on_plat f (emit Plat_system_reset s)))"

definition PSCI_RESET2_SYSTEM_WARM_RESET :: u32 where "PSCI_RESET2_SYSTEM_WARM_RESET = 0"

text \<open>A write through the \<^verbatim>\<open>write_mem_protect\<close> hook.\<close>

definition do_write_mem_protect ::
    "(int \<Rightarrow> 'p \<Rightarrow> int \<times> 'p) \<Rightarrow> int \<Rightarrow> 'p psci_state \<Rightarrow> int \<times> 'p psci_state" where
  "do_write_mem_protect f v s =
     (let (rc, p) = f v (plat_state s) in (rc, emit (Plat_write_mem_protect v) (s\<lparr>plat_state := p\<rparr>)))"

definition psci_system_reset2 :: "u32 \<Rightarrow> u64 \<Rightarrow> 'p psci_state \<Rightarrow> (int, 'p psci_state) outcome" where
  "psci_system_reset2 reset_type cookie s =
     (let is_vendor = drop_bit 31 reset_type AND 1;
          (early, s) =
            (if is_vendor = 0
             then if reset_type \<noteq> PSCI_RESET2_SYSTEM_WARM_RESET then (Some PSCI_E_INVALID_PARAMS, s)
                  else (case write_mem_protect (psci_plat_pm_ops s) of
                          None \<Rightarrow> (None, s)
                        | Some f \<Rightarrow>
                          (let (rc, s) = do_write_mem_protect f 0 s
                           in (if rc < 0 then Some PSCI_E_NOT_SUPPORTED else None, s)))
             else (None, s))
      in case early of
           Some rc \<Rightarrow> Return rc s
         | None \<Rightarrow>
           (let s = call_spd svc_system_reset Spd_system_reset s in
            case system_reset2 (psci_plat_pm_ops s) of
              None \<Rightarrow> Panic
            | Some f \<Rightarrow>
              (let (rc, p) = f (uint is_vendor) reset_type cookie (plat_state s)
               in Return rc (emit (Plat_system_reset2 (uint is_vendor) reset_type cookie)
                    (s\<lparr>plat_state := p\<rparr>)))))"

definition psci_mem_protect :: "u32 \<Rightarrow> 'p psci_state \<Rightarrow> (int, 'p psci_state) outcome" where
  "psci_mem_protect enable s =
     (case read_mem_protect (psci_plat_pm_ops s) of
        None \<Rightarrow> Panic
      | Some rd \<Rightarrow>
        (let (rc, val) = rd (plat_state s) in
         if rc < 0 then Return PSCI_E_NOT_SUPPORTED s
         else case write_mem_protect (psci_plat_pm_ops s) of
                None \<Rightarrow> Panic
              | Some f \<Rightarrow>
                (let (rc, s) = do_write_mem_protect f (sint enable) s
                 in if rc < 0 then Return PSCI_E_NOT_SUPPORTED s
                    else Return (if val \<noteq> 0 then 1 else 0) s)))"

definition check_uptr_overflow :: "u64 \<Rightarrow> u64 \<Rightarrow> bool" where
  "check_uptr_overflow ptr inc \<longleftrightarrow> ptr > - 1 - inc"

definition psci_mem_chk_range :: "u64 \<Rightarrow> u64 \<Rightarrow> 'p psci_state \<Rightarrow> (int, 'p psci_state) outcome" where
  "psci_mem_chk_range base len s =
     (if len = 0 \<or> check_uptr_overflow base (len - 1) then Return PSCI_E_DENIED s
      else case mem_protect_chk (psci_plat_pm_ops s) of
             None \<Rightarrow> Panic
           | Some f \<Rightarrow> Return (if f base len (plat_state s) < 0 then PSCI_E_DENIED else PSCI_E_SUCCESS) s)"

end
