(* ===== verification/Psci_Main.thy ===== *)
theory Psci_Main
  imports Psci_Ops
begin

unbundle bit_operations_syntax

text \<open>
  \<^verbatim>\<open>lib/psci/psci_main.c\<close>: the PSCI calls and the SMC handler that dispatches them, built without
  \<^verbatim>\<open>ENABLE_PSCI_STAT\<close>. Integer results are sign-extended to the 64-bit register the handler returns.
\<close>

subsection \<open>The calls\<close>

definition psci_cpu_on ::
    "plat_def \<Rightarrow> arch_regs \<Rightarrow> u64 \<Rightarrow> u64 \<Rightarrow> u64 \<Rightarrow> 'p psci_state \<Rightarrow> (int, 'p psci_state) outcome" where
  "psci_cpu_on P R target_cpu entrypoint context_id s =
     (if psci_validate_mpidr P target_cpu \<noteq> PSCI_E_SUCCESS then Return PSCI_E_INVALID_PARAMS s
      else let (rc, ep) = psci_validate_entry_point R (stack_ep R) entrypoint context_id s in
           if rc \<noteq> PSCI_E_SUCCESS then Return rc s
           else psci_cpu_on_start P (my_core_pos R) target_cpu ep s)"

definition psci_version :: u32 where
  "psci_version = push_bit 16 1 OR 1"

definition PSTATE_TYPE_POWERDOWN :: u32 where "PSTATE_TYPE_POWERDOWN = 1"

definition psci_get_pstate_type :: "u32 \<Rightarrow> u32" where
  "psci_get_pstate_type pstate = drop_bit 16 pstate AND 1"

fun outcome_return :: "'b \<Rightarrow> ('a, 's) outcome \<Rightarrow> ('b, 's) outcome" where
  "outcome_return v (Return _ s) = Return v s"
| "outcome_return v (Standby l s) = Standby l s"
| "outcome_return v (PowerDown s) = PowerDown s"
| "outcome_return v Panic = Panic"
| "outcome_return v Blocked = Blocked"

definition psci_cpu_suspend ::
    "plat_def \<Rightarrow> arch_regs \<Rightarrow> u32 \<Rightarrow> u64 \<Rightarrow> u64 \<Rightarrow> 'p psci_state \<Rightarrow> (int, 'p psci_state) outcome" where
  "psci_cpu_suspend P R power_state entrypoint context_id s =
     (case psci_validate_power_state power_state (\<lambda>_. PSCI_LOCAL_STATE_RUN) s of
        None \<Rightarrow> Panic
      | Some (rc, state_info) \<Rightarrow>
        if rc \<noteq> PSCI_E_SUCCESS then Return rc s
        else
          (let is_power_down_state = (psci_get_pstate_type power_state \<noteq> 0);
               target_pwrlvl = psci_find_target_suspend_lvl P state_info in
           if target_pwrlvl = PSCI_INVALID_PWR_LVL P then Panic
           else if \<not> is_power_down_state \<and> target_pwrlvl = 0
           then (case cpu_standby (psci_plat_pm_ops s) of
                   None \<Rightarrow> Return PSCI_E_INVALID_PARAMS s
                 | Some f \<Rightarrow>
                   (let cpu_pd_state = state_info PSCI_CPU_PWR_LVL;
                        s = psci_set_cpu_local_state (my_core_pos R) cpu_pd_state s
                    in case f cpu_pd_state (plat_state s) of
                         None \<Rightarrow> Panic
                       | Some p \<Rightarrow>
                         (let s = emit (Plat_standby cpu_pd_state) (s\<lparr>plat_state := p\<rparr>)
                          in Return PSCI_E_SUCCESS
                               (psci_set_cpu_local_state (my_core_pos R) PSCI_LOCAL_STATE_RUN s))))
           else
             let (rc, ep) =
                   (if is_power_down_state
                    then psci_validate_entry_point R (stack_ep R) entrypoint context_id s
                    else (PSCI_E_SUCCESS, stack_ep R))
             in if rc \<noteq> PSCI_E_SUCCESS then Return rc s
                else outcome_return PSCI_E_SUCCESS
                       (psci_cpu_suspend_start P R ep target_pwrlvl state_info is_power_down_state s)))"

definition psci_system_suspend ::
    "plat_def \<Rightarrow> arch_regs \<Rightarrow> u64 \<Rightarrow> u64 \<Rightarrow> 'p psci_state \<Rightarrow> (int, 'p psci_state) outcome" where
  "psci_system_suspend P R entrypoint context_id s =
     (if \<not> psci_is_last_on_cpu P (my_core_pos R) s then Return PSCI_E_DENIED s
      else let (rc, ep) = psci_validate_entry_point R (stack_ep R) entrypoint context_id s in
           if rc \<noteq> PSCI_E_SUCCESS then Return rc s
           else case psci_query_sys_suspend_pwrstate (stack_state R) s of
                  None \<Rightarrow> Panic
                | Some state_info \<Rightarrow>
                  outcome_return PSCI_E_SUCCESS
                    (psci_cpu_suspend_start P R ep (PLAT_MAX_PWR_LVL P) state_info True s))"

definition psci_cpu_off :: "plat_def \<Rightarrow> arch_regs \<Rightarrow> 'p psci_state \<Rightarrow> (int, 'p psci_state) outcome" where
  "psci_cpu_off P R s = psci_do_cpu_off P R (PLAT_MAX_PWR_LVL P) s"

definition psci_affinity_info :: "plat_def \<Rightarrow> u64 \<Rightarrow> u32 \<Rightarrow> 'p psci_state \<Rightarrow> int" where
  "psci_affinity_info P target_affinity lowest_affinity_level s =
     (if unat lowest_affinity_level > PSCI_CPU_PWR_LVL then PSCI_E_INVALID_PARAMS
      else let target_idx = plat_core_pos_by_mpidr P target_affinity in
           if target_idx = -1 then PSCI_E_INVALID_PARAMS
           else aff_info_val (psci_get_aff_info_state_by_idx (core_index P target_affinity) s))"

definition psci_migrate ::
    "plat_def \<Rightarrow> arch_regs \<Rightarrow> u64 \<Rightarrow> 'p psci_state \<Rightarrow> (int, 'p psci_state) outcome" where
  "psci_migrate P R target_cpu s =
     (let (rc, resident_cpu_mpidr) = psci_spd_migrate_info s in
      if rc \<noteq> PSCI_TOS_UP_MIG_CAP
      then Return (if rc = PSCI_TOS_NOT_UP_MIG_CAP then PSCI_E_DENIED else PSCI_E_NOT_SUPPORTED) s
      else if resident_cpu_mpidr \<noteq> Some (mpidr_el1 R) then Return PSCI_E_NOT_PRESENT s
      else if psci_validate_mpidr P target_cpu \<noteq> PSCI_E_SUCCESS then Return PSCI_E_INVALID_PARAMS s
      else case psci_spd_pm s of
             None \<Rightarrow> Panic
           | Some pm \<Rightarrow>
             (case svc_migrate pm of
                None \<Rightarrow> Panic
              | Some f \<Rightarrow>
                (let (rc, p) = f (mpidr_el1 R) target_cpu (plat_state s)
                 in Return rc (emit (Spd_migrate (mpidr_el1 R) target_cpu) (s\<lparr>plat_state := p\<rparr>)))))"

definition psci_migrate_info_type :: "'p psci_state \<Rightarrow> int" where
  "psci_migrate_info_type s = fst (psci_spd_migrate_info s)"

definition psci_migrate_info_up_cpu :: "'p psci_state \<Rightarrow> u64" where
  "psci_migrate_info_up_cpu s =
     (let (rc, resident_cpu_mpidr) = psci_spd_migrate_info s in
      if rc \<noteq> PSCI_TOS_NOT_UP_MIG_CAP \<and> rc \<noteq> PSCI_TOS_UP_MIG_CAP then of_int PSCI_E_INVALID_PARAMS
      else case resident_cpu_mpidr of None \<Rightarrow> 0 | Some m \<Rightarrow> m)"

definition psci_node_hw_state ::
    "plat_def \<Rightarrow> u64 \<Rightarrow> u32 \<Rightarrow> 'p psci_state \<Rightarrow> (int, 'p psci_state) outcome" where
  "psci_node_hw_state P target_cpu power_level s =
     (if psci_validate_mpidr P target_cpu \<noteq> PSCI_E_SUCCESS then Return PSCI_E_INVALID_PARAMS s
      else if unat power_level > PLAT_MAX_PWR_LVL P then Return PSCI_E_INVALID_PARAMS s
      else case get_node_hw_state (psci_plat_pm_ops s) of
             None \<Rightarrow> Panic
           | Some f \<Rightarrow> Return (f target_cpu power_level (plat_state s)) s)"

subsection \<open>Features\<close>

definition SMCCC_VERSION :: u32 where "SMCCC_VERSION = 0x80000000"

definition smc_cc :: "u32 \<Rightarrow> u32" where "smc_cc fid = drop_bit 30 fid AND 1"

definition is_std_svc_call :: "u32 \<Rightarrow> bool" where
  "is_std_svc_call fid \<longleftrightarrow> drop_bit 24 fid AND 0x3f = 4"

definition is_valid_fast_smc :: "u32 \<Rightarrow> bool" where
  "is_valid_fast_smc fid \<longleftrightarrow> drop_bit 16 fid AND 0xff = 0 \<and> drop_bit 31 fid AND 1 = 1"

definition is_psci_fid :: "u32 \<Rightarrow> bool" where
  "is_psci_fid fid \<longleftrightarrow> fid AND 0xffe0 = 0"

definition PSCI_CAP_64BIT_MASK :: u32 where
  "PSCI_CAP_64BIT_MASK =
     define_psci_cap PSCI_CPU_SUSPEND_AARCH64 OR define_psci_cap PSCI_CPU_ON_AARCH64 OR
     define_psci_cap PSCI_AFFINITY_INFO_AARCH64 OR define_psci_cap PSCI_MIG_AARCH64 OR
     define_psci_cap PSCI_MIG_INFO_UP_CPU_AARCH64 OR define_psci_cap PSCI_NODE_HW_STATE_AARCH64 OR
     define_psci_cap PSCI_SYSTEM_SUSPEND_AARCH64 OR define_psci_cap PSCI_STAT_RESIDENCY_AARCH64 OR
     define_psci_cap PSCI_STAT_COUNT_AARCH64 OR define_psci_cap PSCI_SYSTEM_RESET2_AARCH64 OR
     define_psci_cap PSCI_MEM_CHK_RANGE_AARCH64"

definition FF_PSTATE :: u32 where "FF_PSTATE = 0"
definition FF_SUPPORTS_OS_INIT_MODE :: u32 where "FF_SUPPORTS_OS_INIT_MODE = 1"

definition psci_features :: "u32 \<Rightarrow> 'p psci_state \<Rightarrow> int" where
  "psci_features psci_fid s =
     (if psci_fid = SMCCC_VERSION then PSCI_E_SUCCESS
      else let local_caps = (if smc_cc psci_fid = 1 then psci_caps s AND PSCI_CAP_64BIT_MASK
                             else psci_caps s) in
           if \<not> (is_std_svc_call psci_fid \<and> is_valid_fast_smc psci_fid \<and> is_psci_fid psci_fid)
           then PSCI_E_NOT_SUPPORTED
           else if local_caps AND define_psci_cap psci_fid = 0 then PSCI_E_NOT_SUPPORTED
           else if psci_fid = PSCI_CPU_SUSPEND_AARCH32 \<or> psci_fid = PSCI_CPU_SUSPEND_AARCH64
           then uint (push_bit 1 FF_PSTATE OR push_bit 0 (if FF_SUPPORTS_OS_INIT_MODE = 0 then 1 else 0))
           else PSCI_E_SUCCESS)"

subsection \<open>The handler\<close>

definition SMC_UNK :: int where "SMC_UNK = -1"

fun sext :: "(int, 's) outcome \<Rightarrow> (u64, 's) outcome" where
  "sext (Return v s) = Return (of_int v) s"
| "sext (Standby l s) = Standby l s"
| "sext (PowerDown s) = PowerDown s"
| "sext Panic = Panic"
| "sext Blocked = Blocked"

definition smc32_dispatch ::
    "plat_def \<Rightarrow> arch_regs \<Rightarrow> u32 \<Rightarrow> u64 \<Rightarrow> u64 \<Rightarrow> u64 \<Rightarrow> 'p psci_state \<Rightarrow> (u64, 'p psci_state) outcome" where
  "smc32_dispatch P R fid x1 x2 x3 s =
     (if fid = PSCI_VERSION then Return (ucast psci_version) s
      else if fid = PSCI_CPU_OFF then sext (psci_cpu_off P R s)
      else if fid = PSCI_CPU_SUSPEND_AARCH32 then sext (psci_cpu_suspend P R (ucast x1) x2 x3 s)
      else if fid = PSCI_CPU_ON_AARCH32 then sext (psci_cpu_on P R x1 x2 x3 s)
      else if fid = PSCI_AFFINITY_INFO_AARCH32 then Return (of_int (psci_affinity_info P x1 (ucast x2) s)) s
      else if fid = PSCI_MIG_AARCH32 then sext (psci_migrate P R x1 s)
      else if fid = PSCI_MIG_INFO_TYPE then Return (of_int (psci_migrate_info_type s)) s
      else if fid = PSCI_MIG_INFO_UP_CPU_AARCH32 then Return (psci_migrate_info_up_cpu s) s
      else if fid = PSCI_NODE_HW_STATE_AARCH32 then sext (psci_node_hw_state P x1 (ucast x2) s)
      else if fid = PSCI_SYSTEM_SUSPEND_AARCH32 then sext (psci_system_suspend P R x1 x2 s)
      else if fid = PSCI_SYSTEM_OFF then psci_system_off s
      else if fid = PSCI_SYSTEM_RESET then psci_system_reset s
      else if fid = PSCI_FEATURES then Return (of_int (psci_features (ucast x1) s)) s
      else if fid = PSCI_MEM_PROTECT then sext (psci_mem_protect (ucast x1) s)
      else if fid = PSCI_MEM_CHK_RANGE_AARCH32 then sext (psci_mem_chk_range x1 x2 s)
      else if fid = PSCI_SYSTEM_RESET2_AARCH32 then sext (psci_system_reset2 (ucast x1) x2 s)
      else Return (of_int SMC_UNK) s)"

definition smc64_dispatch ::
    "plat_def \<Rightarrow> arch_regs \<Rightarrow> u32 \<Rightarrow> u64 \<Rightarrow> u64 \<Rightarrow> u64 \<Rightarrow> 'p psci_state \<Rightarrow> (u64, 'p psci_state) outcome" where
  "smc64_dispatch P R fid x1 x2 x3 s =
     (if fid = PSCI_CPU_SUSPEND_AARCH64 then sext (psci_cpu_suspend P R (ucast x1) x2 x3 s)
      else if fid = PSCI_CPU_ON_AARCH64 then sext (psci_cpu_on P R x1 x2 x3 s)
      else if fid = PSCI_AFFINITY_INFO_AARCH64 then Return (of_int (psci_affinity_info P x1 (ucast x2) s)) s
      else if fid = PSCI_MIG_AARCH64 then sext (psci_migrate P R x1 s)
      else if fid = PSCI_MIG_INFO_UP_CPU_AARCH64 then Return (psci_migrate_info_up_cpu s) s
      else if fid = PSCI_NODE_HW_STATE_AARCH64 then sext (psci_node_hw_state P x1 (ucast x2) s)
      else if fid = PSCI_SYSTEM_SUSPEND_AARCH64 then sext (psci_system_suspend P R x1 x2 s)
      else if fid = PSCI_MEM_CHK_RANGE_AARCH64 then sext (psci_mem_chk_range x1 x2 s)
      else if fid = PSCI_SYSTEM_RESET2_AARCH64 then sext (psci_system_reset2 (ucast x1) x2 s)
      else Return (of_int SMC_UNK) s)"

definition is_caller_secure :: "u64 \<Rightarrow> bool" where
  "is_caller_secure flags \<longleftrightarrow> flags AND 1 = 0"

definition psci_smc_handler ::
    "plat_def \<Rightarrow> arch_regs \<Rightarrow> u32 \<Rightarrow> u64 \<Rightarrow> u64 \<Rightarrow> u64 \<Rightarrow> u64 \<Rightarrow> 'p psci_state \<Rightarrow> (u64, 'p psci_state) outcome" where
  "psci_smc_handler P R smc_fid x1 x2 x3 flags s =
     (if is_caller_secure flags then Return (of_int SMC_UNK) s
      else if psci_caps s AND define_psci_cap smc_fid = 0 then Return (of_int SMC_UNK) s
      else if smc_cc smc_fid = 0
      then smc32_dispatch P R smc_fid (ucast (ucast x1 :: u32)) (ucast (ucast x2 :: u32))
             (ucast (ucast x3 :: u32)) s
      else smc64_dispatch P R smc_fid x1 x2 x3 s)"

end
