(* ===== verification/Psci_System.thy ===== *)
theory Psci_System
  imports Psci_Main
begin

text \<open>
  The system of CPUs that make PSCI calls. Every operation is one of a few transitions on the part of
  the state the power states depend on; the step relation interleaves them with wake-ups and warm boots,
  and an invariant of it relates the power states to what the CPUs do.
\<close>

subsection \<open>What the power states depend on\<close>

definition view :: "'p psci_state \<Rightarrow> (nat \<Rightarrow> non_cpu_pd_node) \<times> (nat \<Rightarrow> nat) \<times>
    (nat \<Rightarrow> nat \<Rightarrow> plat_local_state_t) \<times> (nat \<Rightarrow> psci_cpu_data) \<times> (nat \<Rightarrow> nat option) \<times> (nat \<Rightarrow> nat option)" where
  "view s = (psci_non_cpu_pd_nodes s, \<lambda>c. cpu_parent_node (psci_cpu_pd_nodes s c),
     psci_req_local_pwr_states s, psci_svc_cpu_data s, psci_locks s, cpu_locks s)"

lemma view_hooks [simp]:
  "view (emit e s) = view s" "view (on_plat f s) = view s" "view (call_hook h e s) = view s"
  "view (call_spd sel e s) = view s" "view (cm_init_context_by_index c ep s) = view s"
  "view (s\<lparr>plat_state := p\<rparr>) = view s" "view (psci_do_pwrdown_sequence l s) = view s"
  "view (psci_arch_setup s) = view s"
  by (simp_all add: view_def emit_def on_plat_def call_hook_def call_spd_def cm_init_context_by_index_def
      psci_do_pwrdown_sequence_def psci_arch_setup_def split: option.splits)

lemma view_same_tree:
  fixes s t :: "'p psci_state"
  shows "view s = view t \<Longrightarrow> same_tree s t"
  by (auto simp: view_def same_tree_def fun_eq_iff)

lemma view_wf:
  fixes s t :: "'p psci_state"
  shows "view s = view t \<Longrightarrow> wf_tree P s = wf_tree P t"
  by (drule view_same_tree) (simp add: same_tree_wf [of s t])

lemma ops_hooks [simp]:
  "psci_plat_pm_ops (emit e s) = psci_plat_pm_ops s" "psci_plat_pm_ops (on_plat f s) = psci_plat_pm_ops s"
  "psci_plat_pm_ops (call_hook h e s) = psci_plat_pm_ops s"
  "psci_plat_pm_ops (call_spd sel e s) = psci_plat_pm_ops s"
  "psci_plat_pm_ops (psci_do_pwrdown_sequence l s) = psci_plat_pm_ops s"
  "psci_plat_pm_ops (cm_init_context_by_index c ep s) = psci_plat_pm_ops s"
  "psci_plat_pm_ops (psci_arch_setup s) = psci_plat_pm_ops s"
  by (simp_all add: emit_def on_plat_def call_hook_def call_spd_def cm_init_context_by_index_def
      psci_do_pwrdown_sequence_def psci_arch_setup_def split: option.splits)

subsection \<open>The transitions of the power states\<close>

text \<open>CPU \<open>me\<close> asks for the states \<open>si\<close> up to level \<open>e\<close>, and the domains take the coordinated states.\<close>

definition coord_upd ::
    "plat_def \<Rightarrow> nat \<Rightarrow> nat \<Rightarrow> psci_power_state \<Rightarrow> 'p psci_state \<Rightarrow> 'p psci_state" where
  "coord_upd P me e si s =
     s\<lparr>psci_non_cpu_pd_nodes := path_states me 1 e (coord_states P me e si s) s,
       psci_req_local_pwr_states := coord_reqs me e si s,
       psci_svc_cpu_data := (psci_svc_cpu_data s)(me := (psci_svc_cpu_data s me)
         \<lparr>cpu_local_state := si 0\<rparr>)\<rparr>"

text \<open>CPU \<open>me\<close> runs again, and so do the domains above it up to level \<open>e\<close>.\<close>

definition run_upd :: "nat \<Rightarrow> nat \<Rightarrow> 'p psci_state \<Rightarrow> 'p psci_state" where
  "run_upd me e s =
    s\<lparr>psci_non_cpu_pd_nodes := path_states me 1 e (\<lambda>_. PSCI_LOCAL_STATE_RUN) s,
      psci_req_local_pwr_states :=
        requests me 1 e (\<lambda>_. PSCI_LOCAL_STATE_RUN) (psci_req_local_pwr_states s),
      psci_svc_cpu_data := (psci_svc_cpu_data s)(me := (psci_svc_cpu_data s me)
        \<lparr>aff_info_state := AFF_STATE_ON, cpu_local_state := PSCI_LOCAL_STATE_RUN\<rparr>)\<rparr>"

lemma coordination_coord_upd:
  assumes "path_levels me e s"
  shows "psci_do_state_coordination P me e si s = (coord_states P me e si s, coord_upd P me e si s)"
proof -
  let ?t = "s\<lparr>psci_req_local_pwr_states := coord_reqs me e si s\<rparr>"
  have "path_levels me e ?t" using assms by (simp add: path_levels_def)
  moreover have "path_states me 1 e x ?t = path_states me 1 e x s" for x
    by (rule path_states_cong) simp_all
  moreover have "coord_states P me e si s 0 = si 0" by (simp add: coord_states_def)
  ultimately show ?thesis
    by (simp add: psci_do_state_coordination_eq psci_set_target_local_pwr_states_eq
        psci_set_cpu_local_state_def coord_upd_def)
qed

lemma coord_states_view:
  fixes s t :: "'p psci_state"
  assumes "view s = view t"
  shows "coord_states P me e si s = coord_states P me e si t"
  using same_tree_pd_node [OF view_same_tree [OF assms]] assms
  by (simp add: view_def coord_states_def coord_reqs_def coordinated_def domain_target_def
      cong: if_cong)

lemma view_coord_upd:
  fixes s t :: "'p psci_state"
  shows "view s = view t \<Longrightarrow> view (coord_upd P me e si s) = view (coord_upd P me e si t)"
  using same_tree_pd_node [OF view_same_tree, of s t] coord_states_view [of s t P me e si]
  by (simp add: view_def coord_upd_def coord_reqs_def path_states_def)

lemma view_run_upd:
  fixes s t :: "'p psci_state"
  shows "view s = view t \<Longrightarrow> view (run_upd me e s) = view (run_upd me e t)"
  using same_tree_pd_node [OF view_same_tree, of s t]
  by (simp add: view_def run_upd_def path_states_def)

lemma same_tree_transitions [simp]: "same_tree s (coord_upd P me e si s)" "same_tree s (run_upd me e s)"
  using same_tree_path_states [of s me 1 e] by (simp_all add: coord_upd_def run_upd_def same_tree_def)

lemmas wf_tree_transitions [simp] = same_tree_transitions [THEN same_tree_wf]

subsection \<open>The operations as transitions\<close>

text \<open>Between operations the tree is well formed and no lock is held.\<close>

definition quiet :: "plat_def \<Rightarrow> 'p psci_state \<Rightarrow> bool" where
  "quiet P s \<longleftrightarrow> wf_tree P s \<and> psci_locks s = Map.empty \<and> cpu_locks s = Map.empty"

lemma quiet_acquire:
  assumes "quiet P s" "me < PLATFORM_CORE_COUNT P" "e \<le> PLAT_MAX_PWR_LVL P"
  shows "psci_acquire_pwr_domain_locks e me s = Some (path_locked me 1 e s)"
  using assms psci_acquire_pwr_domain_locks_eq [OF wf_path_lockable [of P s me e]]
  by (simp add: quiet_def path_free_def)

lemma same_tree_path_locked [simp]: "same_tree s (path_locked me lo e s)"
  by (simp add: path_locked_def same_tree_def)

lemmas wf_tree_path_locked [simp] = same_tree_path_locked [THEN same_tree_wf]
lemmas pd_node_path_locked [simp] = same_tree_path_locked [THEN same_tree_pd_node]

text \<open>
  A critical section: the path is locked, the state changes in what the locks do not cover, and the path
  is released; in sum the locks are free again.
\<close>

lemma release_view:
  fixes s t u :: "'p psci_state"
  assumes q: "quiet P s" and me: "me < PLATFORM_CORE_COUNT P" "e \<le> PLAT_MAX_PWR_LVL P"
    and v: "view t = view (u\<lparr>psci_locks := psci_locks (path_locked me 1 e s)\<rparr>)"
    and u: "same_tree s u" "psci_locks u = psci_locks s"
  shows "view (psci_release_pwr_domain_locks e me t) = view u"
proof -
  have "same_tree u t" using view_same_tree [OF v] by (simp add: same_tree_def)
  then have st: "same_tree s t" using u(1) same_tree_trans by blast
  then have "path_lockable me e t"
    using wf_path_lockable [OF _ me, of s] q by (simp add: quiet_def path_lockable_cong [OF st])
  then have "psci_release_pwr_domain_locks e me t = path_unlocked me e t"
    by (rule psci_release_pwr_domain_locks_eq)
  moreover have "view (path_unlocked me e t) = view u"
    using v u(2) q by (auto simp: view_def path_unlocked_def path_locked_def quiet_def fun_eq_iff
        same_tree_pd_node [OF st])
  ultimately show ?thesis by simp
qed

lemma view_path_locked:
  "view (path_locked me 1 e s) = view (s\<lparr>psci_locks := psci_locks (path_locked me 1 e s)\<rparr>)"
  by (simp add: view_def path_locked_def)

lemma call_svc_off_view: "call_svc_off s = (rc, t) \<Longrightarrow> view t = view s \<and> psci_plat_pm_ops t = psci_plat_pm_ops s"
  by (auto simp: call_svc_off_def split: option.splits prod.splits)

text \<open>What \<^verbatim>\<open>CPU_OFF\<close> does to the power states.\<close>

definition off_upd :: "plat_def \<Rightarrow> nat \<Rightarrow> nat \<Rightarrow> psci_power_state \<Rightarrow> 'p psci_state \<Rightarrow> 'p psci_state" where
  "off_upd P me e si s = psci_set_aff_info_state_by_idx me AFF_STATE_OFF (coord_upd P me e si s)"

lemma view_locks_upd:
  fixes s t :: "'p psci_state"
  shows "view s = view t \<Longrightarrow> view (s\<lparr>psci_locks := x\<rparr>) = view (t\<lparr>psci_locks := x\<rparr>)"
  by (simp add: view_def)

lemma coord_upd_locks [simp]:
  "coord_upd P me e si (s\<lparr>psci_locks := x\<rparr>) = (coord_upd P me e si s)\<lparr>psci_locks := x\<rparr>"
  "psci_locks (coord_upd P me e si s) = psci_locks s"
  by (simp_all add: coord_upd_def coord_states_def coord_reqs_def path_states_def coordinated_def
      domain_target_def cong: if_cong)

lemma run_upd_locks [simp]:
  "run_upd me e (s\<lparr>psci_locks := x\<rparr>) = (run_upd me e s)\<lparr>psci_locks := x\<rparr>"
  "psci_locks (run_upd me e s) = psci_locks s"
  by (simp_all add: run_upd_def path_states_def)

lemma view_set_aff:
  fixes s t :: "'p psci_state"
  shows "view s = view t \<Longrightarrow>
    view (psci_set_aff_info_state_by_idx c a s) = view (psci_set_aff_info_state_by_idx c a t)"
  by (simp add: view_def psci_set_aff_info_state_by_idx_def)

lemma psci_do_cpu_off_cases:
  fixes s :: "'p psci_state"
  assumes q: "quiet P s" and me: "my_core_pos R < PLATFORM_CORE_COUNT P" "e \<le> PLAT_MAX_PWR_LVL P"
  defines "si \<equiv> psci_set_power_off_state P (stack_state R)"
  shows "(\<exists>rc t. psci_do_cpu_off P R e s = Return rc t \<and> rc \<noteq> 0 \<and> view t = view s) \<or>
    (\<exists>t. psci_do_cpu_off P R e s = PowerDown t \<and> view t = view (off_upd P (my_core_pos R) e si s)) \<or>
    psci_do_cpu_off P R e s = Panic \<and> pwr_domain_off (psci_plat_pm_ops s) = None"
proof -
  let ?me = "my_core_pos R" and ?s1 = "path_locked (my_core_pos R) 1 e s"
  obtain rc s2 where s2: "call_svc_off ?s1 = (rc, s2)" by (cases "call_svc_off ?s1")
  have v2: "view s2 = view (s\<lparr>psci_locks := psci_locks ?s1\<rparr>)"
    and ops: "psci_plat_pm_ops s2 = psci_plat_pm_ops s"
    using call_svc_off_view [OF s2] view_path_locked [of ?me e s] by (simp_all add: path_locked_def)
  have wf2: "path_levels ?me e s2"
    using wf_path_levels [OF _ me, of s2] view_wf [OF v2] q by (simp add: quiet_def)
  note coord = coordination_coord_upd [OF wf2, of P si]
  let ?s3 = "coord_upd P ?me e si s2" and ?si = "coord_states P ?me e si s2"
  have ops3: "psci_plat_pm_ops ?s3 = psci_plat_pm_ops s" using ops by (simp add: coord_upd_def)
  have v3: "view ?s3 = view ((coord_upd P ?me e si s)\<lparr>psci_locks := psci_locks ?s1\<rparr>)"
    using view_coord_upd [OF v2, of P ?me e si] by simp
  have rel: "view (psci_release_pwr_domain_locks e ?me t) = view (coord_upd P ?me e si s)"
    if "view t = view ?s3" for t :: "'p psci_state"
    using that v3 by (intro release_view [OF q me]) simp_all
  show ?thesis
  proof (cases "rc = 0")
    case False
    then have "psci_do_cpu_off P R e s = Return rc (psci_release_pwr_domain_locks e ?me s2)"
      using quiet_acquire [OF q me] s2 by (simp add: psci_do_cpu_off_def)
    moreover have "view (psci_release_pwr_domain_locks e ?me s2) = view s"
      by (rule release_view [OF q me v2]) simp_all
    ultimately show ?thesis using False by blast
  next
    case True
    show ?thesis
    proof (cases "pwr_domain_off (psci_plat_pm_ops s)")
      case None
      then show ?thesis using True quiet_acquire [OF q me] s2 coord ops3
        by (simp add: psci_do_cpu_off_def si_def)
    next
      case (Some f)
      let ?t = "psci_set_aff_info_state_by_idx ?me AFF_STATE_OFF (psci_release_pwr_domain_locks e ?me
        (on_plat (f ?si) (emit (Plat_off ?si) (psci_do_pwrdown_sequence (psci_find_max_off_lvl P ?si) ?s3))))"
      have "psci_do_cpu_off P R e s = pwr_down_wfi ?si ?t"
        using Some True quiet_acquire [OF q me] s2 coord ops3
        by (simp add: psci_do_cpu_off_def si_def Let_def)
      moreover have "view ?t = view (off_upd P ?me e si s)"
        unfolding off_upd_def by (rule view_set_aff, rule rel) simp
      ultimately show ?thesis by (auto simp: pwr_down_wfi_def split: option.splits)
    qed
  qed
qed

text \<open>What a suspend to a power-down state does.\<close>

definition suspend_upd :: "plat_def \<Rightarrow> nat \<Rightarrow> nat \<Rightarrow> psci_power_state \<Rightarrow> 'p psci_state \<Rightarrow> 'p psci_state" where
  "suspend_upd P me e si s = psci_set_suspend_pwrlvl me e (coord_upd P me e si s)"

lemma pwrdown_start_view:
  "view (psci_suspend_to_pwrdown_start P me e ep si s) = view (psci_set_suspend_pwrlvl me e s)"
  "psci_plat_pm_ops (psci_suspend_to_pwrdown_start P me e ep si s) = psci_plat_pm_ops s"
  by (simp_all add: psci_suspend_to_pwrdown_start_def Let_def psci_set_suspend_pwrlvl_def)

lemma view_set_suspend_pwrlvl:
  fixes s t :: "'p psci_state"
  shows "view s = view t \<Longrightarrow> view (psci_set_suspend_pwrlvl c l s) = view (psci_set_suspend_pwrlvl c l t)"
  by (simp add: view_def psci_set_suspend_pwrlvl_def)

lemma suspend_upd_locks [simp]:
  "psci_set_suspend_pwrlvl me e (s\<lparr>psci_locks := x\<rparr>) = (psci_set_suspend_pwrlvl me e s)\<lparr>psci_locks := x\<rparr>"
  "psci_locks (psci_set_suspend_pwrlvl me e s) = psci_locks s"
  "same_tree t (psci_set_suspend_pwrlvl me e s) = same_tree t s"
  by (simp_all add: psci_set_suspend_pwrlvl_def same_tree_def)

lemma psci_cpu_suspend_start_cases:
  fixes s :: "'p psci_state"
  assumes q: "quiet P s" and me: "my_core_pos R < PLATFORM_CORE_COUNT P" "e \<le> PLAT_MAX_PWR_LVL P"
  shows "(\<exists>t. psci_cpu_suspend_start P R ep e si pd s = Return () t \<and> view t = view s) \<or>
    (\<exists>t. pd \<and> psci_cpu_suspend_start P R ep e si pd s = PowerDown t \<and>
       view t = view (suspend_upd P (my_core_pos R) e si s)) \<or>
    (\<exists>t. \<not> pd \<and> psci_cpu_suspend_start P R ep e si pd s = Standby e t \<and>
       view t = view (coord_upd P (my_core_pos R) e si s)) \<or>
    psci_cpu_suspend_start P R ep e si pd s = Panic \<and> pwr_domain_suspend (psci_plat_pm_ops s) = None"
proof -
  let ?me = "my_core_pos R" and ?s1 = "path_locked (my_core_pos R) 1 e s"
  have v1: "view ?s1 = view (s\<lparr>psci_locks := psci_locks ?s1\<rparr>)" by (rule view_path_locked)
  have wf1: "path_levels ?me e ?s1"
    using wf_path_levels [OF _ me, of ?s1] q by (simp add: quiet_def)
  note coord = coordination_coord_upd [OF wf1, of P si]
  let ?s2 = "coord_upd P ?me e si ?s1" and ?si = "coord_states P ?me e si ?s1"
  define s3 where "s3 = (if pd then psci_suspend_to_pwrdown_start P ?me e ep ?si ?s2 else ?s2)"
  define u where "u = (if pd then suspend_upd P ?me e si s else coord_upd P ?me e si s)"
  have v2: "view ?s2 = view ((coord_upd P ?me e si s)\<lparr>psci_locks := psci_locks ?s1\<rparr>)"
    using view_coord_upd [OF v1, of P ?me e si] by simp
  then have v3: "view s3 = view (u\<lparr>psci_locks := psci_locks ?s1\<rparr>)"
    using view_set_suspend_pwrlvl [OF v2, of ?me e]
    by (simp add: s3_def u_def pwrdown_start_view suspend_upd_def)
  have u: "same_tree s u" "psci_locks u = psci_locks s" by (simp_all add: u_def suspend_upd_def)
  have ops: "psci_plat_pm_ops s3 = psci_plat_pm_ops s"
    by (simp add: s3_def pwrdown_start_view coord_upd_def path_locked_def)
  have rel: "view (psci_release_pwr_domain_locks e ?me t) = view u" if "view t = view s3"
    for t :: "'p psci_state"
    using that v3 u by (intro release_view [OF q me]) simp_all
  note start = psci_cpu_suspend_start_def Let_def quiet_acquire [OF q me] option.case coord prod.case
    s3_def [symmetric] ops
  consider "isr_el1 R \<noteq> 0" | "isr_el1 R = 0" "pwr_domain_suspend (psci_plat_pm_ops s) = None"
    | f where "isr_el1 R = 0" "pwr_domain_suspend (psci_plat_pm_ops s) = Some f" by fastforce
  then show ?thesis
  proof cases
    case 1
    moreover have "view (psci_release_pwr_domain_locks e ?me ?s1) = view s"
      by (rule release_view [OF q me v1]) simp_all
    ultimately show ?thesis unfolding start by simp
  next
    case 2
    then show ?thesis unfolding start by simp
  next
    case 3
    let ?t = "psci_release_pwr_domain_locks e ?me (on_plat (f ?si) (emit (Plat_suspend ?si) s3))"
    have "psci_cpu_suspend_start P R ep e si pd s =
        (if pd then pwr_down_wfi ?si ?t else Standby e (emit Wfi ?t))"
      unfolding start using 3 by simp
    moreover have "view ?t = view u" by (rule rel) simp
    ultimately show ?thesis by (auto simp: pwr_down_wfi_def u_def split: option.splits)
  qed
qed

lemma psci_set_pwr_domains_to_run_run_upd:
  "path_levels me e s \<Longrightarrow> psci_set_pwr_domains_to_run me e s = run_upd me e s"
  by (simp add: psci_set_pwr_domains_to_run_eq run_upd_def)

lemma psci_suspend_to_standby_finisher_cases:
  fixes s :: "'p psci_state"
  assumes q: "quiet P s" and me: "my_core_pos R < PLATFORM_CORE_COUNT P" "e \<le> PLAT_MAX_PWR_LVL P"
  shows "(\<exists>t. psci_suspend_to_standby_finisher P R (my_core_pos R) e s = Return () t \<and>
       view t = view (run_upd (my_core_pos R) e s)) \<or>
    psci_suspend_to_standby_finisher P R (my_core_pos R) e s = Panic \<and>
      pwr_domain_suspend_finish (psci_plat_pm_ops s) = None"
proof (cases "pwr_domain_suspend_finish (psci_plat_pm_ops s)")
  case None
  then show ?thesis using quiet_acquire [OF q me]
    by (simp add: psci_suspend_to_standby_finisher_def path_locked_def)
next
  case (Some f)
  let ?me = "my_core_pos R" and ?s1 = "path_locked (my_core_pos R) 1 e s"
  let ?si = "psci_get_target_local_pwr_states P ?me e (stack_state R) ?s1"
  let ?s2 = "on_plat (f ?si) (emit (Plat_suspend_finish ?si) ?s1)"
  have v2: "view ?s2 = view (s\<lparr>psci_locks := psci_locks ?s1\<rparr>)" using view_path_locked [of ?me e s] by simp
  have "path_levels ?me e ?s2"
    using wf_path_levels [OF _ me, of ?s2] q by (simp add: quiet_def)
  then have run: "psci_set_pwr_domains_to_run ?me e ?s2 = run_upd ?me e ?s2"
    by (rule psci_set_pwr_domains_to_run_run_upd)
  have "psci_suspend_to_standby_finisher P R ?me e s =
      Return () (psci_release_pwr_domain_locks e ?me (run_upd ?me e ?s2))"
    using Some quiet_acquire [OF q me] run
    by (simp add: psci_suspend_to_standby_finisher_def path_locked_def Let_def)
  moreover have "view (psci_release_pwr_domain_locks e ?me (run_upd ?me e ?s2)) = view (run_upd ?me e s)"
    using view_run_upd [OF v2, of ?me e] by (intro release_view [OF q me]) simp_all
  ultimately show ?thesis by blast
qed

lemma psci_cpu_on_finish_cases:
  fixes s :: "'p psci_state"
  assumes "cpu_locks s c = None"
  shows "(\<exists>t. psci_cpu_on_finish R c si s = Return () t \<and> view t = view s) \<or>
    psci_cpu_on_finish R c si s = Panic \<and> pwr_domain_on_finish (psci_plat_pm_ops s) = None"
proof (cases "pwr_domain_on_finish (psci_plat_pm_ops s)")
  case None
  then show ?thesis by (simp add: psci_cpu_on_finish_def)
next
  case (Some f)
  let ?s1 = "psci_arch_setup (emit Pwrup_cache_maintenance (on_plat (f si) (emit (Plat_on_finish si) s)))"
  have v: "view ?s1 = view s" by simp
  then have "cpu_locks ?s1 c = None" using assms by (simp add: view_def)
  moreover have "view (psci_spin_unlock_cpu c (emit e (t\<lparr>cpu_locks := (cpu_locks t)(c := Some x)\<rparr>))) = view t"
    if "cpu_locks t c = None" for e x and t :: "'p psci_state"
    using that by (auto simp: view_def psci_spin_unlock_cpu_def emit_def)
  moreover have "view (t\<lparr>psci_cpu_pd_nodes := (psci_cpu_pd_nodes t)(c := (psci_cpu_pd_nodes t c)\<lparr>cpu_mpidr := m\<rparr>)\<rparr>) =
      view t" for m and t :: "'p psci_state"
    by (auto simp: view_def)
  ultimately show ?thesis
    using Some v by (simp add: psci_cpu_on_finish_def psci_spin_lock_cpu_def Let_def)
qed

lemma psci_cpu_suspend_finish_cases:
  fixes s :: "'p psci_state"
  shows "(\<exists>t. psci_cpu_suspend_finish P me c si s = Return () t \<and>
       view t = view (psci_set_suspend_pwrlvl me (PSCI_INVALID_PWR_LVL P) s)) \<or>
    psci_cpu_suspend_finish P me c si s = Panic \<and> pwr_domain_suspend_finish (psci_plat_pm_ops s) = None"
proof (cases "pwr_domain_suspend_finish (psci_plat_pm_ops s)")
  case None
  then show ?thesis by (simp add: psci_cpu_suspend_finish_def)
next
  case (Some f)
  have "view (psci_set_suspend_pwrlvl me l (call_spd sel e (emit Pwrup_cache_maintenance
      (on_plat g (emit (Plat_suspend_finish si) s))))) = view (psci_set_suspend_pwrlvl me l s)" for l sel e g
    by (rule view_set_suspend_pwrlvl) simp
  with Some show ?thesis by (simp add: psci_cpu_suspend_finish_def Let_def)
qed

text \<open>
  What a warm boot does: the CPU and the domains up to the level it went down to run again, and a
  suspended CPU forgets that level.
\<close>

definition warm_upd :: "plat_def \<Rightarrow> nat \<Rightarrow> 'p psci_state \<Rightarrow> 'p psci_state" where
  "warm_upd P me s =
     run_upd me (get_power_on_target_pwrlvl P me s)
       (if aff_info_state (psci_svc_cpu_data s me) = AFF_STATE_ON_PENDING then s
        else psci_set_suspend_pwrlvl me (PSCI_INVALID_PWR_LVL P) s)"

lemma psci_warmboot_entrypoint_cases:
  fixes s :: "'p psci_state"
  assumes q: "quiet P s" and me: "my_core_pos R < PLATFORM_CORE_COUNT P"
    and e: "get_power_on_target_pwrlvl P (my_core_pos R) s \<le> PLAT_MAX_PWR_LVL P"
    and on: "aff_info_state (psci_svc_cpu_data s (my_core_pos R)) \<noteq> AFF_STATE_OFF"
  shows "(\<exists>t. psci_warmboot_entrypoint P R s = Return () t \<and> view t = view (warm_upd P (my_core_pos R) s)) \<or>
    psci_warmboot_entrypoint P R s = Panic \<and>
      (pwr_domain_on_finish (psci_plat_pm_ops s) = None \<or>
       pwr_domain_suspend_finish (psci_plat_pm_ops s) = None)"
proof -
  let ?me = "my_core_pos R" and ?e = "get_power_on_target_pwrlvl P (my_core_pos R) s"
  let ?s1 = "path_locked ?me 1 ?e s"
  let ?si = "psci_get_target_local_pwr_states P ?me ?e (\<lambda>_. PSCI_LOCAL_STATE_RUN) ?s1"
  let ?r = "if aff_info_state (psci_svc_cpu_data s ?me) = AFF_STATE_ON_PENDING
    then psci_cpu_on_finish R ?me ?si ?s1 else psci_cpu_suspend_finish P ?me ?me ?si ?s1"
  define u where "u = (if aff_info_state (psci_svc_cpu_data s ?me) = AFF_STATE_ON_PENDING then s
    else psci_set_suspend_pwrlvl ?me (PSCI_INVALID_PWR_LVL P) s)"
  have v1: "view ?s1 = view (s\<lparr>psci_locks := psci_locks ?s1\<rparr>)" by (rule view_path_locked)
  have free: "cpu_locks ?s1 ?me = None" using q by (simp add: quiet_def path_locked_def)
  have ops: "psci_plat_pm_ops ?s1 = psci_plat_pm_ops s" by (simp add: path_locked_def)
  have aff: "psci_get_aff_info_state_by_idx ?me t = aff_info_state (psci_svc_cpu_data s ?me)"
    if "t = s \<or> t = ?s1" for t
    using that by (auto simp: psci_get_aff_info_state_by_idx_def path_locked_def)
  have eq: "psci_warmboot_entrypoint P R s = (case ?r of
      Return _ t \<Rightarrow> Return () (psci_release_pwr_domain_locks ?e ?me (psci_set_pwr_domains_to_run ?me ?e t))
    | r \<Rightarrow> r)"
    unfolding psci_warmboot_entrypoint_def Let_def using on quiet_acquire [OF q me e] aff by simp
  have cases: "(\<exists>t. ?r = Return () t \<and> view t = view (u\<lparr>psci_locks := psci_locks ?s1\<rparr>)) \<or> ?r = Panic \<and>
      (pwr_domain_on_finish (psci_plat_pm_ops s) = None \<or> pwr_domain_suspend_finish (psci_plat_pm_ops s) = None)"
    using psci_cpu_on_finish_cases [OF free, of R ?si] psci_cpu_suspend_finish_cases [of P ?me ?me ?si ?s1]
      v1 view_set_suspend_pwrlvl [OF v1, of ?me "PSCI_INVALID_PWR_LVL P"] unfolding u_def ops by auto
  have rel: "view (psci_release_pwr_domain_locks ?e ?me (psci_set_pwr_domains_to_run ?me ?e t)) =
      view (run_upd ?me ?e u)" if t: "view t = view (u\<lparr>psci_locks := psci_locks ?s1\<rparr>)"
    for t :: "'p psci_state"
  proof -
    have "wf_tree P t" using view_wf [OF t] q by (simp add: u_def quiet_def psci_set_suspend_pwrlvl_def)
    then have "psci_set_pwr_domains_to_run ?me ?e t = run_upd ?me ?e t"
      by (intro psci_set_pwr_domains_to_run_run_upd wf_path_levels [OF _ me e])
    then show ?thesis
      using view_run_upd [OF t, of ?me ?e]
      by (intro release_view [OF q me e]) (simp_all add: u_def same_tree_trans [OF _ same_tree_transitions(2)])
  qed
  from cases rel show ?thesis
    unfolding eq warm_upd_def u_def [symmetric] by auto
qed

text \<open>What \<^verbatim>\<open>CPU_ON\<close> does: the target, if it is off, becomes pending unless the platform fails.\<close>

lemma set_aff_simps [simp]:
  "psci_set_aff_info_state_by_idx i a (s\<lparr>cpu_locks := x\<rparr>) = (psci_set_aff_info_state_by_idx i a s)\<lparr>cpu_locks := x\<rparr>"
  "psci_set_aff_info_state_by_idx i a (psci_set_aff_info_state_by_idx i b s) = psci_set_aff_info_state_by_idx i a s"
  "cpu_locks (psci_set_aff_info_state_by_idx i a s) = cpu_locks s"
  "psci_get_aff_info_state_by_idx i (psci_set_aff_info_state_by_idx i a s) = a"
  "psci_plat_pm_ops (psci_set_aff_info_state_by_idx i a s) = psci_plat_pm_ops s"
  by (simp_all add: psci_set_aff_info_state_by_idx_def psci_get_aff_info_state_by_idx_def)

lemma spin_unlock_view:
  fixes t u :: "'p psci_state"
  assumes "view t = view (u\<lparr>cpu_locks := (cpu_locks u)(i := Some me)\<rparr>)" "cpu_locks u = Map.empty"
  shows "view (psci_spin_unlock_cpu i t) = view u"
  using assms by (auto simp: view_def psci_spin_unlock_cpu_def emit_def)

lemma psci_cpu_on_start_cases:
  fixes s :: "'p psci_state" and target_cpu P
  assumes free: "cpu_locks s = Map.empty"
  defines "aff \<equiv> aff_info_state (psci_svc_cpu_data s (core_index P target_cpu))"
  shows "(\<exists>t. psci_cpu_on_start P me target_cpu ep s = Return (cpu_on_validate_state aff) t \<and>
       aff \<noteq> AFF_STATE_OFF \<and> view t = view s) \<or>
    (\<exists>rc t. psci_cpu_on_start P me target_cpu ep s = Return rc t \<and> aff = AFF_STATE_OFF \<and>
       view t = view (psci_set_aff_info_state_by_idx (core_index P target_cpu)
         (if rc = PSCI_E_SUCCESS then AFF_STATE_ON_PENDING else AFF_STATE_OFF) s)) \<or>
    psci_cpu_on_start P me target_cpu ep s = Panic \<and> pwr_domain_on (psci_plat_pm_ops s) = None"
proof -
  let ?i = "core_index P target_cpu" and ?set = "psci_set_aff_info_state_by_idx (core_index P target_cpu)"
  let ?s1 = "emit (Cpu_spin_lock ?i) (s\<lparr>cpu_locks := (cpu_locks s)(?i := Some me)\<rparr>)"
  define s2 where "s2 = ?set AFF_STATE_ON_PENDING
    (call_spd (\<lambda>pm. map_option (\<lambda>f. f target_cpu) (svc_on pm)) (Spd_on target_cpu) ?s1)"
  have lock: "psci_spin_lock_cpu me ?i s = Some ?s1" using free by (simp add: psci_spin_lock_cpu_def)
  have aff1: "psci_get_aff_info_state_by_idx ?i ?s1 = aff"
    by (simp add: aff_def psci_get_aff_info_state_by_idx_def emit_def)
  have v2: "view s2 = view ((?set AFF_STATE_ON_PENDING s)\<lparr>cpu_locks := (cpu_locks s)(?i := Some me)\<rparr>)"
    unfolding s2_def set_aff_simps(1) [symmetric] by (rule view_set_aff) simp
  have s2: "psci_get_aff_info_state_by_idx ?i s2 = AFF_STATE_ON_PENDING"
    "psci_plat_pm_ops s2 = psci_plat_pm_ops s"
    by (simp_all add: s2_def)
  show ?thesis
  proof (cases "aff = AFF_STATE_OFF")
    case False
    then have "cpu_on_validate_state aff \<noteq> PSCI_E_SUCCESS"
      by (cases aff) (simp_all add: cpu_on_validate_state_def psci_error_defs)
    moreover have "view (psci_spin_unlock_cpu ?i ?s1) = view s"
      by (rule spin_unlock_view) (simp_all add: free)
    ultimately show ?thesis using False by (simp add: psci_cpu_on_start_def lock aff1 Let_def)
  next
    case True
    then have ok: "cpu_on_validate_state aff = PSCI_E_SUCCESS" by (simp add: cpu_on_validate_state_def)
    note start = psci_cpu_on_start_def lock aff1 ok s2_def [symmetric] Let_def
    show ?thesis
    proof (cases "pwr_domain_on (psci_plat_pm_ops s)")
      case None
      then show ?thesis using s2 by (simp add: start)
    next
      case (Some f)
      obtain rc p where f: "f target_cpu (plat_state s2) = (rc, p)" by (cases "f target_cpu (plat_state s2)")
      let ?s3 = "emit (Plat_on target_cpu) (s2\<lparr>plat_state := p\<rparr>)"
      let ?s4 = "if rc = PSCI_E_SUCCESS then cm_init_context_by_index ?i ep ?s3 else ?set AFF_STATE_OFF ?s3"
      let ?t = "?set (if rc = PSCI_E_SUCCESS then AFF_STATE_ON_PENDING else AFF_STATE_OFF) s"
      have "psci_cpu_on_start P me target_cpu ep s = Return rc (psci_spin_unlock_cpu ?i ?s4)"
        using Some f s2 by (simp add: start)
      moreover have "view (?set AFF_STATE_OFF ?s3) =
          view (?set AFF_STATE_OFF s\<lparr>cpu_locks := (cpu_locks s)(?i := Some me)\<rparr>)"
        using view_set_aff [of ?s3 "(?set AFF_STATE_ON_PENDING s)\<lparr>cpu_locks := (cpu_locks s)(?i := Some me)\<rparr>"
          ?i AFF_STATE_OFF] v2 by simp
      with v2 have "view (psci_spin_unlock_cpu ?i ?s4) = view ?t"
        by (intro spin_unlock_view [where me = me]) (simp_all add: free)
      ultimately show ?thesis using True by blast
    qed
  qed
qed

subsection \<open>The SMC handler as transitions\<close>

text \<open>
  The abstract specification of a PSCI call made by CPU \<open>me\<close>: it leaves the power states alone, or marks
  a CPU that is off as pending or off, or returns from a CPU standby; it waits in a standby state or
  powers down, with the states coordinated, or takes the whole system down. It never waits for a lock.
\<close>

definition smc_effect ::
    "plat_def \<Rightarrow> nat \<Rightarrow> 'p psci_state \<Rightarrow> ('a, 'p psci_state) outcome \<Rightarrow> bool" where
  "smc_effect P me s r =
     (case r of
        Return v t \<Rightarrow>
          view t = view s \<or> view t = view (psci_set_cpu_local_state me PSCI_LOCAL_STATE_RUN s) \<or>
          (\<exists>c a. aff_info_state (psci_svc_cpu_data s c) = AFF_STATE_OFF \<and> a \<noteq> AFF_STATE_ON \<and>
             view t = view (psci_set_aff_info_state_by_idx c a s))
      | Standby e t \<Rightarrow> e \<le> PLAT_MAX_PWR_LVL P \<and> (\<exists>si. view t = view (coord_upd P me e si s))
      | PowerDown t \<Rightarrow>
          view t = view s \<or> (\<exists>si. view t = view (off_upd P me (PLAT_MAX_PWR_LVL P) si s)) \<or>
          (\<exists>e si. e \<le> PLAT_MAX_PWR_LVL P \<and> view t = view (suspend_upd P me e si s))
      | Panic \<Rightarrow> True
      | Blocked \<Rightarrow> False)"

lemma smc_effect_id: "view t = view s \<Longrightarrow> smc_effect P me s (Return v t)"
  by (simp add: smc_effect_def)

lemma smc_effect_sext [simp]: "smc_effect P me s (sext r) = smc_effect P me s r"
  by (cases r) (simp_all add: smc_effect_def)

lemma smc_effect_return [simp]: "smc_effect P me s (outcome_return v r) = smc_effect P me s r"
  by (cases r) (simp_all add: smc_effect_def)

lemma psci_find_target_suspend_lvl_le:
  assumes "psci_find_target_suspend_lvl P si \<noteq> PSCI_INVALID_PWR_LVL P"
  shows "psci_find_target_suspend_lvl P si \<le> PLAT_MAX_PWR_LVL P"
proof -
  have "target_suspend_lvl_loop P si n \<noteq> PSCI_INVALID_PWR_LVL P \<longrightarrow> target_suspend_lvl_loop P si n \<le> n" for n
    by (induction n) auto
  with assms show ?thesis by (simp add: psci_find_target_suspend_lvl_def)
qed

lemma smc_effect_aff:
  "view t = view (psci_set_aff_info_state_by_idx c a s) \<Longrightarrow>
   aff_info_state (psci_svc_cpu_data s c) = AFF_STATE_OFF \<Longrightarrow> a \<noteq> AFF_STATE_ON \<Longrightarrow> smc_effect P me s (Return v t)"
  unfolding smc_effect_def by auto

lemma smc_effect_standby:
  "view t = view (coord_upd P me e si s) \<Longrightarrow> e \<le> PLAT_MAX_PWR_LVL P \<Longrightarrow> smc_effect P me s (Standby e t)"
  unfolding smc_effect_def by auto

lemma smc_effect_suspend:
  "view t = view (suspend_upd P me e si s) \<Longrightarrow> e \<le> PLAT_MAX_PWR_LVL P \<Longrightarrow> smc_effect P me s (PowerDown t)"
  unfolding smc_effect_def by auto

lemma smc_effect_off:
  "view t = view (off_upd P me (PLAT_MAX_PWR_LVL P) si s) \<Longrightarrow> smc_effect P me s (PowerDown t)"
  unfolding smc_effect_def by auto

lemma smc_effect_panic [simp]: "smc_effect P me s Panic"
  by (simp add: smc_effect_def)

lemma psci_cpu_on_start_effect:
  assumes "cpu_locks s = Map.empty"
  shows "smc_effect P me s (psci_cpu_on_start P c x1 ep s)"
  using psci_cpu_on_start_cases [OF assms, where P = P and target_cpu = x1 and me = c and ep = ep]
  by (auto intro: smc_effect_id smc_effect_aff split: if_splits)

lemma psci_cpu_on_effect:
  "quiet P s \<Longrightarrow> smc_effect P me s (psci_cpu_on P R x1 x2 x3 s)"
  unfolding psci_cpu_on_def quiet_def by (auto simp: smc_effect_id psci_cpu_on_start_effect split: prod.splits)

lemma psci_cpu_off_effect:
  assumes "quiet P s" "my_core_pos R < PLATFORM_CORE_COUNT P"
  shows "smc_effect P (my_core_pos R) s (psci_cpu_off P R s)"
  using psci_do_cpu_off_cases [OF assms order_refl]
  by (auto simp: psci_cpu_off_def intro: smc_effect_id smc_effect_off)

lemma psci_cpu_suspend_start_effect:
  assumes "quiet P s" "my_core_pos R < PLATFORM_CORE_COUNT P" "e \<le> PLAT_MAX_PWR_LVL P"
  shows "smc_effect P (my_core_pos R) s (psci_cpu_suspend_start P R ep e si pd s)"
  using psci_cpu_suspend_start_cases [OF assms, of ep si pd] assms(3)
  by (auto intro: smc_effect_id smc_effect_suspend smc_effect_standby)

lemma smc_effect_cpu_standby:
  "smc_effect P c s (Return v (psci_set_cpu_local_state c PSCI_LOCAL_STATE_RUN
     (emit ev (psci_set_cpu_local_state c b s\<lparr>plat_state := p\<rparr>))))"
  by (simp add: smc_effect_def view_def psci_set_cpu_local_state_def emit_def)

lemma psci_cpu_suspend_effect:
  assumes q: "quiet P s" and me: "my_core_pos R < PLATFORM_CORE_COUNT P"
  shows "smc_effect P (my_core_pos R) s (psci_cpu_suspend P R x1 x2 x3 s)"
  unfolding psci_cpu_suspend_def Let_def
  by (auto simp: smc_effect_id smc_effect_cpu_standby psci_find_target_suspend_lvl_le
      psci_cpu_suspend_start_effect [OF q me] split: option.splits prod.splits)

lemma psci_system_suspend_effect:
  assumes q: "quiet P s" and me: "my_core_pos R < PLATFORM_CORE_COUNT P"
  shows "smc_effect P (my_core_pos R) s (psci_system_suspend P R x1 x2 s)"
  unfolding psci_system_suspend_def Let_def
  using psci_cpu_suspend_start_effect [OF q me order_refl]
  by (auto simp: smc_effect_id split: option.splits prod.splits)

lemma psci_migrate_effect: "smc_effect P me s (psci_migrate P R x1 s)"
  by (auto simp: psci_migrate_def Let_def smc_effect_def split: option.splits prod.splits)

lemma psci_node_hw_state_effect: "smc_effect P me s (psci_node_hw_state P x1 y s)"
  by (auto simp: psci_node_hw_state_def smc_effect_def split: option.splits)

lemma do_write_mem_protect_view: "do_write_mem_protect f v s = (rc, t) \<Longrightarrow> view t = view s"
  by (auto simp: do_write_mem_protect_def split: prod.splits)

lemma psci_mem_protect_effect: "smc_effect P me s (psci_mem_protect y s)"
  by (auto simp: psci_mem_protect_def Let_def smc_effect_def do_write_mem_protect_view
      split: option.splits prod.splits)

lemma psci_mem_chk_range_effect: "smc_effect P me s (psci_mem_chk_range x1 x2 s)"
  by (auto simp: psci_mem_chk_range_def smc_effect_def split: option.splits)

lemma psci_system_reset2_effect: "smc_effect P me s (psci_system_reset2 y x2 s)"
  by (auto simp: psci_system_reset2_def Let_def smc_effect_def do_write_mem_protect_view
      split: option.splits prod.splits if_splits)

lemma psci_system_off_effect: "smc_effect P me s (psci_system_off s)" "smc_effect P me s (psci_system_reset s)"
  by (auto simp: psci_system_off_def psci_system_reset_def Let_def smc_effect_def split: option.splits)

lemmas smc_effects = psci_cpu_on_effect psci_cpu_off_effect psci_cpu_suspend_effect psci_system_suspend_effect
  psci_migrate_effect psci_node_hw_state_effect psci_mem_protect_effect psci_mem_chk_range_effect
  psci_system_reset2_effect psci_system_off_effect smc_effect_id

lemma smc_effect_if:
  "smc_effect P me s a \<Longrightarrow> smc_effect P me s b \<Longrightarrow> smc_effect P me s (if x then a else b)"
  by simp

lemma psci_smc_handler_effect:
  assumes "quiet P s" "my_core_pos R < PLATFORM_CORE_COUNT P"
  shows "smc_effect P (my_core_pos R) s (psci_smc_handler P R fid x1 x2 x3 flags s)"
  unfolding psci_smc_handler_def smc32_dispatch_def smc64_dispatch_def
  by (intro smc_effect_if) (simp_all only: smc_effect_sext smc_effects assms)

subsection \<open>The invariant\<close>

datatype cpu_status = Running | Waiting nat | Down

text \<open>
  What the library's records say of each CPU: a running CPU requests no power saving at any level; one in
  standby at level \<open>e\<close> requests none above \<open>e\<close>, and one that is suspended none above its suspend level.
\<close>

definition runs_above :: "plat_def \<Rightarrow> 'p psci_state \<Rightarrow> nat \<Rightarrow> nat \<Rightarrow> bool" where
  "runs_above P s c e \<longleftrightarrow>
     (\<forall>l \<in> {Suc e..PLAT_MAX_PWR_LVL P}. psci_req_local_pwr_states s (l - 1) c = PSCI_LOCAL_STATE_RUN)"

definition cpu_inv :: "plat_def \<Rightarrow> 'p psci_state \<Rightarrow> (nat \<Rightarrow> cpu_status) \<Rightarrow> nat \<Rightarrow> bool" where
  "cpu_inv P s st c \<longleftrightarrow>
     (case st c of
        Running \<Rightarrow> aff_info_state (psci_svc_cpu_data s c) = AFF_STATE_ON \<and>
          target_pwrlvl (psci_svc_cpu_data s c) = PSCI_INVALID_PWR_LVL P \<and> runs_above P s c 0
      | Waiting e \<Rightarrow> aff_info_state (psci_svc_cpu_data s c) = AFF_STATE_ON \<and>
          target_pwrlvl (psci_svc_cpu_data s c) = PSCI_INVALID_PWR_LVL P \<and>
          e \<le> PLAT_MAX_PWR_LVL P \<and> runs_above P s c e
      | Down \<Rightarrow> target_pwrlvl (psci_svc_cpu_data s c) = PSCI_INVALID_PWR_LVL P \<or>
          aff_info_state (psci_svc_cpu_data s c) = AFF_STATE_ON \<and>
          target_pwrlvl (psci_svc_cpu_data s c) \<le> PLAT_MAX_PWR_LVL P \<and>
          runs_above P s c (target_pwrlvl (psci_svc_cpu_data s c)))"

definition requests_respected :: "plat_def \<Rightarrow> 'p psci_state \<Rightarrow> bool" where
  "requests_respected P s \<longleftrightarrow>
     (\<forall>c < PLATFORM_CORE_COUNT P. \<forall>l \<in> {1..PLAT_MAX_PWR_LVL P}.
        local_state (psci_non_cpu_pd_nodes s (pd_node s c l)) \<le> psci_req_local_pwr_states s (l - 1) c)"

definition power_inv :: "plat_def \<Rightarrow> 'p psci_state \<times> (nat \<Rightarrow> cpu_status) \<Rightarrow> bool" where
  "power_inv P = (\<lambda>(s, st). quiet P s \<and> requests_respected P s \<and>
     (\<forall>c < PLATFORM_CORE_COUNT P. cpu_inv P s st c))"

lemma power_inv_view:
  fixes s t :: "'p psci_state"
  assumes "view s = view t"
  shows "power_inv P (s, st) = power_inv P (t, st)"
  using assms view_wf [OF assms] same_tree_pd_node [OF view_same_tree [OF assms]]
  by (simp add: power_inv_def quiet_def requests_respected_def cpu_inv_def runs_above_def view_def
      cong: cpu_status.case_cong)

lemma power_inv_viewI:
  fixes s t :: "'p psci_state"
  shows "view s = view t \<Longrightarrow> power_inv P (t, st) \<Longrightarrow> power_inv P (s, st)"
  using power_inv_view by blast

subsection \<open>The platform contract\<close>

text \<open>
  What the library needs of \<^verbatim>\<open>plat_get_target_pwr_state\<close>: the state chosen for a domain is no deeper
  than any state requested for it.
\<close>

locale psci_port =
  fixes P :: plat_def
  assumes target_le: "k < n \<Longrightarrow> get_target_pwr_state P l states n \<le> states k"
begin

lemma coordinated_le:
  assumes "wf_tree P s" "me < PLATFORM_CORE_COUNT P" "c < PLATFORM_CORE_COUNT P"
    "1 \<le> l" "l \<le> PLAT_MAX_PWR_LVL P" "pd_node s c l = pd_node s me l"
  shows "coordinated P s me req lo l \<le> req (l - 1) c"
proof -
  let ?nd = "psci_non_cpu_pd_nodes s (pd_node s me l)"
  have "cpu_start_idx ?nd \<le> c" "c < cpu_start_idx ?nd + ncpus ?nd"
    using wf_treeD(4) [OF assms(1,3-5)] assms(6) by (simp_all add: in_domain_def Let_def)
  then have "domain_target P s me req l \<le> req (l - 1) c"
    using target_le [of "c - cpu_start_idx ?nd" "ncpus ?nd" l "\<lambda>k. req (l - 1) (cpu_start_idx ?nd + k)"]
    by (simp add: domain_target_def Let_def)
  then show ?thesis by (simp add: coordinated_def PSCI_LOCAL_STATE_RUN_def)
qed

lemma coord_upd_respects:
  assumes r: "requests_respected P s" and wf: "wf_tree P s"
    and me: "me < PLATFORM_CORE_COUNT P" "e \<le> PLAT_MAX_PWR_LVL P"
  shows "requests_respected P (coord_upd P me e si s)"
  unfolding requests_respected_def
proof (intro allI impI ballI)
  fix c l
  assume c: "c < PLATFORM_CORE_COUNT P" and "l \<in> {1..PLAT_MAX_PWR_LVL P}"
  then have l: "1 \<le> l" "l \<le> PLAT_MAX_PWR_LVL P" by auto
  let ?req = "psci_req_local_pwr_states s" and ?req' = "coord_reqs me e si s"
  have "local_state (psci_non_cpu_pd_nodes (coord_upd P me e si s) (pd_node s c l)) =
      (if l \<le> e \<and> pd_node s c l = pd_node s me l then coord_states P me e si s l
       else local_state (psci_non_cpu_pd_nodes s (pd_node s c l)))"
    using path_states_at [OF wf c me(1) l me(2), of "coord_states P me e si s"] by (simp add: coord_upd_def)
  also have "\<dots> \<le> ?req' (l - 1) c"
  proof (cases "l \<le> e \<and> pd_node s c l = pd_node s me l")
    case True
    then show ?thesis using coordinated_le [OF wf me(1) c l, of ?req' 1] l by (simp add: coord_states_def)
  next
    case False
    then have "?req' (l - 1) c = ?req (l - 1) c" using l by (auto simp: coord_reqs_def requests_def)
    then show ?thesis using False r c l by (auto simp: requests_respected_def)
  qed
  also have "?req' = psci_req_local_pwr_states (coord_upd P me e si s)" by (simp add: coord_upd_def)
  finally show "local_state (psci_non_cpu_pd_nodes (coord_upd P me e si s) (pd_node (coord_upd P me e si s) c l))
      \<le> psci_req_local_pwr_states (coord_upd P me e si s) (l - 1) c"
    by (simp add: same_tree_pd_node [OF same_tree_transitions(1)])
qed

end

lemma run_upd_respects:
  assumes r: "requests_respected P s" and wf: "wf_tree P s"
    and me: "me < PLATFORM_CORE_COUNT P" "e \<le> PLAT_MAX_PWR_LVL P"
  shows "requests_respected P (run_upd me e s)"
  unfolding requests_respected_def
proof (intro allI impI ballI)
  fix c l
  assume c: "c < PLATFORM_CORE_COUNT P" and "l \<in> {1..PLAT_MAX_PWR_LVL P}"
  then have l: "1 \<le> l" "l \<le> PLAT_MAX_PWR_LVL P" by auto
  have "local_state (psci_non_cpu_pd_nodes (run_upd me e s) (pd_node s c l)) =
      (if l \<le> e \<and> pd_node s c l = pd_node s me l then PSCI_LOCAL_STATE_RUN
       else local_state (psci_non_cpu_pd_nodes s (pd_node s c l)))"
    using path_states_at [OF wf c me(1) l me(2), of "\<lambda>_. PSCI_LOCAL_STATE_RUN"] by (simp add: run_upd_def)
  also have "\<dots> \<le> psci_req_local_pwr_states (run_upd me e s) (l - 1) c"
    using r c l by (auto simp: run_upd_def requests_def requests_respected_def PSCI_LOCAL_STATE_RUN_def)
  finally show "local_state (psci_non_cpu_pd_nodes (run_upd me e s) (pd_node (run_upd me e s) c l))
      \<le> psci_req_local_pwr_states (run_upd me e s) (l - 1) c"
    by (simp add: same_tree_pd_node [OF same_tree_transitions(2)])
qed

subsection \<open>The transitions keep the invariant\<close>

lemma power_invD:
  assumes "power_inv P (s, st)"
  shows "quiet P s" "wf_tree P s" "requests_respected P s"
    and "c < PLATFORM_CORE_COUNT P \<Longrightarrow> cpu_inv P s st c"
  using assms by (auto simp: power_inv_def quiet_def)

lemma quiet_upds [simp]:
  "quiet P (coord_upd P' me e si s) = quiet P s" "quiet P (run_upd me e s) = quiet P s"
  "quiet P (psci_set_aff_info_state_by_idx c a s) = quiet P s" "quiet P (psci_set_suspend_pwrlvl c l s) = quiet P s"
  "quiet P (psci_set_cpu_local_state c x s) = quiet P s"
  by (simp_all add: quiet_def coord_upd_def run_upd_def psci_set_aff_info_state_by_idx_def
      psci_set_suspend_pwrlvl_def psci_set_cpu_local_state_def same_tree_wf [OF same_tree_path_states])

lemma respected_svc [simp]:
  "requests_respected P (psci_set_aff_info_state_by_idx c a s) = requests_respected P s"
  "requests_respected P (psci_set_suspend_pwrlvl c l s) = requests_respected P s"
  "requests_respected P (psci_set_cpu_local_state c x s) = requests_respected P s"
  by (simp_all add: requests_respected_def psci_set_aff_info_state_by_idx_def
      psci_set_suspend_pwrlvl_def psci_set_cpu_local_state_def)

lemma cpu_inv_other:
  assumes "cpu_inv P s st c" "psci_svc_cpu_data s' c = psci_svc_cpu_data s c" "st' c = st c"
    and "\<And>l. psci_req_local_pwr_states s' l c = psci_req_local_pwr_states s l c"
  shows "cpu_inv P s' st' c"
  using assms by (simp add: cpu_inv_def runs_above_def cong: cpu_status.case_cong)

lemma req_other [simp]:
  "c \<noteq> me \<Longrightarrow> psci_req_local_pwr_states (coord_upd P me e si s) l c = psci_req_local_pwr_states s l c"
  "c \<noteq> me \<Longrightarrow> psci_req_local_pwr_states (run_upd me e s) l c = psci_req_local_pwr_states s l c"
  "c \<noteq> me \<Longrightarrow> psci_svc_cpu_data (coord_upd P me e si s) c = psci_svc_cpu_data s c"
  "c \<noteq> me \<Longrightarrow> psci_svc_cpu_data (run_upd me e s) c = psci_svc_cpu_data s c"
  by (simp_all add: coord_upd_def run_upd_def coord_reqs_def requests_def)

lemma req_me:
  "runs_above P s me 0 \<Longrightarrow> runs_above P (coord_upd P me e si s) me e"
  "runs_above P s me e \<Longrightarrow> runs_above P (run_upd me e s) me 0"
  by (auto simp: coord_upd_def run_upd_def coord_reqs_def requests_def runs_above_def)

context psci_port
begin

lemma standby_inv:
  assumes i: "power_inv P (s, st)" and me: "me < PLATFORM_CORE_COUNT P" "e \<le> PLAT_MAX_PWR_LVL P"
    and st: "st me = Running"
  shows "power_inv P (coord_upd P me e si s, st(me := Waiting e))"
proof -
  note D = power_invD [OF i]
  have "cpu_inv P (coord_upd P me e si s) (st(me := Waiting e)) c" if "c < PLATFORM_CORE_COUNT P" for c
  proof (cases "c = me")
    case True
    then show ?thesis using D(4) [OF me(1)] st me(2) req_me(1) [of P s me e si]
      by (simp add: cpu_inv_def coord_upd_def)
  qed (simp add: cpu_inv_other [OF D(4) [OF that]])
  with D coord_upd_respects [OF D(3,2) me] show ?thesis by (simp add: power_inv_def)
qed

lemma suspend_inv:
  assumes i: "power_inv P (s, st)" and me: "me < PLATFORM_CORE_COUNT P" "e \<le> PLAT_MAX_PWR_LVL P"
    and st: "st me = Running"
  shows "power_inv P (suspend_upd P me e si s, st(me := Down))"
proof -
  note D = power_invD [OF i]
  have "cpu_inv P (suspend_upd P me e si s) (st(me := Down)) c" if "c < PLATFORM_CORE_COUNT P" for c
  proof (cases "c = me")
    case True
    then show ?thesis using D(4) [OF me(1)] st me(2) req_me(1) [of P s me e si]
      by (simp add: cpu_inv_def coord_upd_def suspend_upd_def psci_set_suspend_pwrlvl_def runs_above_def)
  qed (simp add: cpu_inv_other [OF D(4) [OF that]] suspend_upd_def psci_set_suspend_pwrlvl_def)
  with D coord_upd_respects [OF D(3,2) me] show ?thesis by (simp add: power_inv_def suspend_upd_def)
qed

lemma off_inv:
  assumes i: "power_inv P (s, st)" and me: "me < PLATFORM_CORE_COUNT P" "e \<le> PLAT_MAX_PWR_LVL P"
    and st: "st me = Running"
  shows "power_inv P (off_upd P me e si s, st(me := Down))"
proof -
  note D = power_invD [OF i]
  have "cpu_inv P (off_upd P me e si s) (st(me := Down)) c" if "c < PLATFORM_CORE_COUNT P" for c
  proof (cases "c = me")
    case True
    then show ?thesis using D(4) [OF me(1)] st
      by (simp add: cpu_inv_def coord_upd_def off_upd_def psci_set_aff_info_state_by_idx_def)
  qed (simp add: cpu_inv_other [OF D(4) [OF that]] off_upd_def psci_set_aff_info_state_by_idx_def)
  with D coord_upd_respects [OF D(3,2) me] show ?thesis by (simp add: power_inv_def off_upd_def)
qed

end

lemma run_inv:
  assumes i: "power_inv P (s, st)" and me: "me < PLATFORM_CORE_COUNT P" "e \<le> PLAT_MAX_PWR_LVL P"
    and run: "target_pwrlvl (psci_svc_cpu_data s me) = PSCI_INVALID_PWR_LVL P" "runs_above P s me e"
  shows "power_inv P (run_upd me e s, st(me := Running))"
proof -
  note D = power_invD [OF i]
  have "cpu_inv P (run_upd me e s) (st(me := Running)) c" if "c < PLATFORM_CORE_COUNT P" for c
  proof (cases "c = me")
    case True
    then show ?thesis using run req_me(2) [of P s me e] by (simp add: cpu_inv_def run_upd_def)
  qed (simp add: cpu_inv_other [OF D(4) [OF that]])
  with D run_upd_respects [OF D(3,2) me] show ?thesis by (simp add: power_inv_def)
qed

lemma set_aff_inv:
  assumes i: "power_inv P (s, st)" and "aff_info_state (psci_svc_cpu_data s t) = AFF_STATE_OFF" "a \<noteq> AFF_STATE_ON"
  shows "power_inv P (psci_set_aff_info_state_by_idx t a s, st)"
proof -
  note D = power_invD [OF i]
  have "cpu_inv P (psci_set_aff_info_state_by_idx t a s) st c" if c: "c < PLATFORM_CORE_COUNT P" for c
    using D(4) [OF c] assms(2,3)
    by (auto simp: cpu_inv_def psci_set_aff_info_state_by_idx_def runs_above_def split: cpu_status.splits)
  with D show ?thesis by (simp add: power_inv_def)
qed

lemma set_cpu_local_inv:
  assumes i: "power_inv P (s, st)"
  shows "power_inv P (psci_set_cpu_local_state t a s, st)"
proof -
  note D = power_invD [OF i]
  have "cpu_inv P (psci_set_cpu_local_state t a s) st c" if c: "c < PLATFORM_CORE_COUNT P" for c
    using D(4) [OF c]
    by (auto simp: cpu_inv_def psci_set_cpu_local_state_def runs_above_def split: cpu_status.splits)
  with D show ?thesis by (simp add: power_inv_def)
qed

lemma down_inv:
  assumes i: "power_inv P (s, st)" and "st me = Running"
  shows "power_inv P (s, st(me := Down))"
  using assms by (auto simp: power_inv_def cpu_inv_def split: cpu_status.splits)

subsection \<open>The system\<close>

text \<open>
  CPUs make PSCI calls, leave standby and boot warm, in any order and with any arguments and registers.
  A step is a call up to its return or its \<^verbatim>\<open>wfi\<close>: the critical section it runs under the locks of its
  domains is not interleaved with another, which is what the locks are for.
\<close>

inductive psci_step ::
    "plat_def \<Rightarrow> 'p psci_state \<times> (nat \<Rightarrow> cpu_status) \<Rightarrow> 'p psci_state \<times> (nat \<Rightarrow> cpu_status) \<Rightarrow> bool" for P where
  smc_return:
    "my_core_pos R < PLATFORM_CORE_COUNT P \<Longrightarrow> st (my_core_pos R) = Running \<Longrightarrow>
     psci_smc_handler P R fid x1 x2 x3 flags s = Return v s' \<Longrightarrow> psci_step P (s, st) (s', st)"
| smc_standby:
    "my_core_pos R < PLATFORM_CORE_COUNT P \<Longrightarrow> st (my_core_pos R) = Running \<Longrightarrow>
     psci_smc_handler P R fid x1 x2 x3 flags s = Standby e s' \<Longrightarrow>
     psci_step P (s, st) (s', st(my_core_pos R := Waiting e))"
| smc_power_down:
    "my_core_pos R < PLATFORM_CORE_COUNT P \<Longrightarrow> st (my_core_pos R) = Running \<Longrightarrow>
     psci_smc_handler P R fid x1 x2 x3 flags s = PowerDown s' \<Longrightarrow>
     psci_step P (s, st) (s', st(my_core_pos R := Down))"
| wake_up:
    "my_core_pos R < PLATFORM_CORE_COUNT P \<Longrightarrow> st (my_core_pos R) = Waiting e \<Longrightarrow>
     psci_suspend_to_standby_finisher P R (my_core_pos R) e s = Return () s' \<Longrightarrow>
     psci_step P (s, st) (s', st(my_core_pos R := Running))"
| warm_boot:
    "my_core_pos R < PLATFORM_CORE_COUNT P \<Longrightarrow> st (my_core_pos R) = Down \<Longrightarrow>
     psci_warmboot_entrypoint P R s = Return () s' \<Longrightarrow>
     psci_step P (s, st) (s', st(my_core_pos R := Running))"

text \<open>The system boots on one CPU, through \<^verbatim>\<open>psci_setup\<close>.\<close>

definition psci_start :: "plat_def \<Rightarrow> 'p psci_state \<times> (nat \<Rightarrow> cpu_status) \<Rightarrow> bool" where
  "psci_start P = (\<lambda>(s, st). \<exists>R ops s0. cold_state s0 \<and> my_core_pos R < PLATFORM_CORE_COUNT P \<and>
     s = snd (psci_setup P R ops s0) \<and> st = (\<lambda>c. if c = my_core_pos R then Running else Down))"

lemma warm_boot_inv:
  fixes s :: "'p psci_state"
  assumes i: "power_inv P (s, st)" and me: "my_core_pos R < PLATFORM_CORE_COUNT P"
    and st: "st (my_core_pos R) = Down" and w: "psci_warmboot_entrypoint P R s = Return () s'"
  shows "power_inv P (s', st(my_core_pos R := Running))"
proof -
  let ?me = "my_core_pos R"
  let ?d = "psci_svc_cpu_data s ?me" and ?e = "get_power_on_target_pwrlvl P ?me s"
  note D = power_invD [OF i]
  have on: "aff_info_state ?d \<noteq> AFF_STATE_OFF"
    using w by (auto simp: psci_warmboot_entrypoint_def psci_get_aff_info_state_by_idx_def)
  have tgt: "target_pwrlvl ?d = PSCI_INVALID_PWR_LVL P \<or> aff_info_state ?d = AFF_STATE_ON \<and>
      target_pwrlvl ?d \<le> PLAT_MAX_PWR_LVL P \<and> runs_above P s ?me (target_pwrlvl ?d)"
    using D(4) [OF me] st by (simp add: cpu_inv_def)
  then have e: "?e \<le> PLAT_MAX_PWR_LVL P" and above: "runs_above P s ?me ?e"
    by (auto simp: get_power_on_target_pwrlvl_def psci_get_suspend_pwrlvl_def Let_def runs_above_def
        PSCI_INVALID_PWR_LVL_def)
  let ?t = "if aff_info_state ?d = AFF_STATE_ON_PENDING then s
    else psci_set_suspend_pwrlvl ?me (PSCI_INVALID_PWR_LVL P) s"
  have "view s' = view (warm_upd P ?me s)"
    using psci_warmboot_entrypoint_cases [OF D(1) me e on] w by auto
  then have v: "view s' = view (run_upd ?me ?e ?t)" by (simp add: warm_upd_def)
  have "cpu_inv P ?t st c" if "c < PLATFORM_CORE_COUNT P" for c
    using D(4) [OF that] tgt st
    by (auto simp: cpu_inv_def psci_set_suspend_pwrlvl_def runs_above_def split: cpu_status.splits)
  then have "power_inv P (?t, st)" using D by (simp add: power_inv_def)
  moreover have "target_pwrlvl (psci_svc_cpu_data ?t ?me) = PSCI_INVALID_PWR_LVL P" "runs_above P ?t ?me ?e"
    using tgt above by (auto simp: psci_set_suspend_pwrlvl_def runs_above_def)
  ultimately have "power_inv P (run_upd ?me ?e ?t, st(?me := Running))" by (rule run_inv [OF _ me e])
  then show ?thesis using power_inv_view [OF v] by blast
qed

lemma boot_state_inv:
  assumes "boot_state P me s" "me < PLATFORM_CORE_COUNT P"
  shows "power_inv P (s, \<lambda>c. if c = me then Running else Down)"
  using assms unfolding boot_state_def power_inv_def quiet_def requests_respected_def
  by (auto simp: cpu_inv_def runs_above_def PSCI_LOCAL_STATE_RUN_def)

context psci_port
begin

lemma smc_inv:
  fixes s :: "'p psci_state"
  assumes i: "power_inv P (s, st)" and me: "my_core_pos R < PLATFORM_CORE_COUNT P"
    and st: "st (my_core_pos R) = Running"
    and smc: "psci_smc_handler P R fid x1 x2 x3 flags s = r"
  shows "r = Return v s' \<Longrightarrow> power_inv P (s', st)"
    and "r = Standby e s' \<Longrightarrow> power_inv P (s', st(my_core_pos R := Waiting e))"
    and "r = PowerDown s' \<Longrightarrow> power_inv P (s', st(my_core_pos R := Down))"
proof -
  note D = power_invD [OF i]
  have eff: "smc_effect P (my_core_pos R) s r"
    using psci_smc_handler_effect [OF D(1) me] smc by blast
  show "power_inv P (s', st)" if r: "r = Return v s'"
  proof -
    from eff [unfolded r] consider "view s' = view s"
      | "view s' = view (psci_set_cpu_local_state (my_core_pos R) PSCI_LOCAL_STATE_RUN s)"
      | c a where "aff_info_state (psci_svc_cpu_data s c) = AFF_STATE_OFF" "a \<noteq> AFF_STATE_ON"
        "view s' = view (psci_set_aff_info_state_by_idx c a s)"
      by (auto simp: smc_effect_def)
    then show ?thesis
      by cases (blast intro: power_inv_viewI i set_cpu_local_inv [OF i] set_aff_inv [OF i])+
  qed
  show "power_inv P (s', st(my_core_pos R := Waiting e))" if r: "r = Standby e s'"
    using eff standby_inv [OF i me _ st] power_inv_viewI unfolding r smc_effect_def by fastforce
  show "power_inv P (s', st(my_core_pos R := Down))" if r: "r = PowerDown s'"
  proof -
    from eff [unfolded r] consider "view s' = view s"
      | si where "view s' = view (off_upd P (my_core_pos R) (PLAT_MAX_PWR_LVL P) si s)"
      | e si where "e \<le> PLAT_MAX_PWR_LVL P" "view s' = view (suspend_upd P (my_core_pos R) e si s)"
      by (auto simp: smc_effect_def)
    then show ?thesis
      by cases (blast intro: power_inv_viewI down_inv [OF i st] suspend_inv [OF i me _ st]
          off_inv [OF i me order_refl st])+
  qed
qed

lemma step_inv: "psci_step P x y \<Longrightarrow> power_inv P x \<Longrightarrow> power_inv P y"
proof (induction rule: psci_step.induct)
  case (smc_return R st fid x1 x2 x3 flags s v s')
  then show ?case by (blast intro: smc_inv(1))
next
  case (smc_standby R st fid x1 x2 x3 flags s e s')
  then show ?case by (blast intro: smc_inv(2))
next
  case (smc_power_down R st fid x1 x2 x3 flags s s')
  then show ?case by (blast intro: smc_inv(3))
next
  case (warm_boot R st s s')
  then show ?case by (blast intro: warm_boot_inv)
next
  case (wake_up R st e s s')
  let ?me = "my_core_pos R"
  have D: "quiet P s" "cpu_inv P s st ?me" using power_invD [OF wake_up(4)] wake_up(1) by auto
  then have c: "e \<le> PLAT_MAX_PWR_LVL P" "target_pwrlvl (psci_svc_cpu_data s ?me) = PSCI_INVALID_PWR_LVL P"
    "runs_above P s ?me e"
    using wake_up(2) by (simp_all add: cpu_inv_def)
  then have "view s' = view (run_upd ?me e s)"
    using psci_suspend_to_standby_finisher_cases [OF D(1) wake_up(1) c(1)] wake_up(3) by auto
  then show ?case by (rule power_inv_viewI) (rule run_inv [OF wake_up(4,1) c])
qed

end

text \<open>A platform: its descriptor fits its arrays, and it satisfies the assertions of the library.\<close>

locale psci_platform = psci_port +
  assumes topology: "valid_topology P"
    and few_domains: "PSCI_NUM_NON_CPU_PWR_DOMAINS P \<le> 256"
    and asserts: "plat_asserts P"
begin

lemma max_lvl: "PLAT_MAX_PWR_LVL P < 256"
  using asserts by (simp add: plat_asserts_def PSCI_MAX_PWR_LVL_def)

lemma start_inv: "psci_start P x \<Longrightarrow> power_inv P x"
  by (auto simp: psci_start_def intro!: boot_state_inv psci_setup_boot_state topology few_domains max_lvl)

end

sublocale psci_platform \<subseteq> sys: inductive_invariant "psci_start P" "psci_step P" "power_inv P"
  by unfold_locales (simp_all add: start_inv step_inv)

context psci_platform
begin

lemma running_domains:
  assumes "reach (psci_start P) (psci_step P) (s, st)" "c < PLATFORM_CORE_COUNT P" "st c = Running"
    and "1 \<le> l" "l \<le> PLAT_MAX_PWR_LVL P"
  shows "local_state (psci_non_cpu_pd_nodes s (pd_node s c l)) = PSCI_LOCAL_STATE_RUN"
proof -
  note D = power_invD [OF sys.inv_reach [OF assms(1)]]
  have "local_state (psci_non_cpu_pd_nodes s (pd_node s c l)) \<le> psci_req_local_pwr_states s (l - 1) c"
    using D(3) assms by (simp add: requests_respected_def)
  moreover have "psci_req_local_pwr_states s (l - 1) c = PSCI_LOCAL_STATE_RUN"
    using D(4) [OF assms(2)] assms by (simp add: cpu_inv_def runs_above_def)
  ultimately show ?thesis by (simp add: PSCI_LOCAL_STATE_RUN_def)
qed

end

end
