(* ===== verification/Marvell_Topology.thy ===== *)
theory Marvell_Topology
  imports Psci_System
begin

unbundle bit_operations_syntax

text \<open>
  The Armada 3700 as a platform of the PSCI library: \<^verbatim>\<open>plat/marvell/common/marvell_topology.c\<close>, the core
  position helper of \<^verbatim>\<open>marvell_helpers.S\<close> and the constants of \<^verbatim>\<open>platform_def.h\<close> and
  \<^verbatim>\<open>marvell_def.h\<close>. The platform satisfies the contract of the library, which is where the generic
  results become results about this board.
\<close>

subsection \<open>Topology\<close>

definition PLAT_MARVELL_CLUSTER_COUNT :: nat where "PLAT_MARVELL_CLUSTER_COUNT = 1"
definition PLAT_MARVELL_CLUSTER_CORE_COUNT :: nat where "PLAT_MARVELL_CLUSTER_CORE_COUNT = 2"

definition marvell_power_domain_tree_desc :: "nat list" where
  "marvell_power_domain_tree_desc =
     PLAT_MARVELL_CLUSTER_COUNT # map (\<lambda>i. PLAT_MARVELL_CLUSTER_CORE_COUNT) [0..<PLAT_MARVELL_CLUSTER_COUNT]"

definition marvell_tree_desc :: "nat \<Rightarrow> nat" where
  "marvell_tree_desc i =
     (if i < length marvell_power_domain_tree_desc then marvell_power_domain_tree_desc ! i else 0)"

definition MPIDR_CPU_MASK :: u64 where "MPIDR_CPU_MASK = 0xff"
definition MPIDR_CLUSTER_MASK :: u64 where "MPIDR_CLUSTER_MASK = 0xff00"

definition marvell_check_mpidr :: "u64 \<Rightarrow> int" where
  "marvell_check_mpidr mpidr =
     (let mpidr = mpidr AND MPIDR_AFFINITY_MASK in
      if mpidr AND NOT (MPIDR_CLUSTER_MASK OR MPIDR_CPU_MASK OR push_bit 16 0xff) \<noteq> 0 then -1
      else let nb_id = drop_bit 32 mpidr AND 0xff;
               cluster_id = drop_bit 8 mpidr AND 0xff;
               cpu_id = mpidr AND 0xff
           in if unat nb_id \<ge> PLAT_MARVELL_CLUSTER_COUNT then -1
              else if unat cluster_id \<ge> PLAT_MARVELL_CLUSTER_COUNT then -1
              else if unat cpu_id \<ge> PLAT_MARVELL_CLUSTER_CORE_COUNT then -1
              else 0)"

definition plat_marvell_calc_core_pos :: "u64 \<Rightarrow> u64" where
  "plat_marvell_calc_core_pos mpidr = (mpidr AND MPIDR_CPU_MASK) + drop_bit 7 (mpidr AND MPIDR_CLUSTER_MASK)"

definition marvell_core_pos_by_mpidr :: "u64 \<Rightarrow> int" where
  "marvell_core_pos_by_mpidr mpidr =
     (if marvell_check_mpidr mpidr = -1 then -1 else uint (plat_marvell_calc_core_pos mpidr))"

subsection \<open>The platform\<close>

definition MARVELL_LOCAL_STATE_RET :: plat_local_state_t where "MARVELL_LOCAL_STATE_RET = 1"
definition MARVELL_LOCAL_STATE_OFF :: plat_local_state_t where "MARVELL_LOCAL_STATE_OFF = 2"

definition a3700_plat :: plat_def where
  "a3700_plat =
     \<lparr>PLATFORM_CORE_COUNT = PLAT_MARVELL_CLUSTER_CORE_COUNT,
      PSCI_NUM_NON_CPU_PWR_DOMAINS = 2 * PLAT_MARVELL_CLUSTER_CORE_COUNT - PLAT_MARVELL_CLUSTER_CORE_COUNT,
      PLAT_MAX_PWR_LVL = 1,
      PLAT_MAX_RET_STATE = MARVELL_LOCAL_STATE_RET,
      PLAT_MAX_OFF_STATE = MARVELL_LOCAL_STATE_OFF,
      plat_core_pos_by_mpidr = marvell_core_pos_by_mpidr,
      plat_get_power_domain_tree_desc = marvell_tree_desc,
      get_target_pwr_state = plat_get_target_pwr_state MARVELL_LOCAL_STATE_OFF\<rparr>"

lemma a3700_plat_simps [simp]:
  "PLATFORM_CORE_COUNT a3700_plat = 2" "PSCI_NUM_NON_CPU_PWR_DOMAINS a3700_plat = 2"
  "PLAT_MAX_PWR_LVL a3700_plat = 1" "PLAT_MAX_RET_STATE a3700_plat = 1" "PLAT_MAX_OFF_STATE a3700_plat = 2"
  "plat_core_pos_by_mpidr a3700_plat = marvell_core_pos_by_mpidr"
  "plat_get_power_domain_tree_desc a3700_plat = marvell_tree_desc"
  "get_target_pwr_state a3700_plat = plat_get_target_pwr_state 2"
  by (simp_all add: a3700_plat_def PLAT_MARVELL_CLUSTER_CORE_COUNT_def MARVELL_LOCAL_STATE_RET_def
      MARVELL_LOCAL_STATE_OFF_def)

lemma marvell_tree_desc_simps [simp]: "marvell_tree_desc 0 = 1" "marvell_tree_desc (Suc 0) = 2"
  by (simp_all add: marvell_tree_desc_def marvell_power_domain_tree_desc_def PLAT_MARVELL_CLUSTER_COUNT_def
      PLAT_MARVELL_CLUSTER_CORE_COUNT_def)

lemma a3700_valid_topology: "valid_topology a3700_plat"
  by (simp add: valid_topology_def children_def)

lemma a3700_asserts: "plat_asserts a3700_plat"
  by (simp add: plat_asserts_def PSCI_MAX_PWR_LVL_def PSCI_CPU_PWR_LVL_def)

interpretation a3700: psci_platform a3700_plat
  by unfold_locales (simp_all add: plat_get_target_pwr_state_le a3700_valid_topology a3700_asserts)

end
