(* ===== verification/Psci_Theorems.thy ===== *)
theory Psci_Theorems
  imports Marvell_Topology
begin

unbundle bit_operations_syntax

text \<open>
  The properties of the PSCI library, with the Armada 3700 as the concrete platform on which their
  hypotheses are shown to hold.
\<close>

subsection \<open>A concrete system\<close>

definition ex_ep :: entry_point_info where
  "ex_ep = \<lparr>ep_type = 0, ep_version = 0, ep_size = 0, ep_attr = 0, ep_pc = 0, ep_spsr = 0, ep_args = []\<rparr>"

definition ex_regs :: "nat \<Rightarrow> arch_regs" where
  "ex_regs c = \<lparr>my_core_pos = c, mpidr_el1 = of_nat c, scr_el3 = 0x500, sctlr_el1 = 0, sctlr_el2 = 0,
     isr_el1 = 0, stack_state = (\<lambda>_. 0), stack_ep = ex_ep\<rparr>"

definition ex_ops :: "unit plat_psci_ops" where
  "ex_ops = \<lparr>cpu_standby = None, pwr_domain_on = Some (\<lambda>_ p. (0, p)), pwr_domain_off = Some (\<lambda>_ p. p),
     pwr_domain_suspend_pwrdown_early = None, pwr_domain_suspend = Some (\<lambda>_ p. p),
     pwr_domain_on_finish = Some (\<lambda>_ p. p), pwr_domain_suspend_finish = Some (\<lambda>_ p. p),
     pwr_domain_pwr_down_wfi = None, system_off = None, system_reset = None,
     validate_power_state = Some (\<lambda>_ si. Some (0, \<lambda>_. 2)), validate_ns_entrypoint = None,
     get_sys_suspend_power_state = None, get_node_hw_state = None, mem_protect_chk = None,
     read_mem_protect = None, write_mem_protect = None, system_reset2 = None\<rparr>"

definition ex_cold :: "unit psci_state" where
  "ex_cold = \<lparr>psci_req_local_pwr_states = (\<lambda>_ _. 0),
     psci_non_cpu_pd_nodes = (\<lambda>_. \<lparr>cpu_start_idx = 0, ncpus = 0, parent_node = 0, local_state = 0, level = 0, lock_index = 0\<rparr>),
     psci_cpu_pd_nodes = (\<lambda>_. \<lparr>cpu_mpidr = 0, cpu_parent_node = 0\<rparr>),
     psci_svc_cpu_data = (\<lambda>_. \<lparr>aff_info_state = AFF_STATE_ON, target_pwrlvl = 0, cpu_local_state = 0\<rparr>),
     psci_locks = Map.empty, cpu_locks = Map.empty, psci_ns_context = Map.empty, psci_caps = 0,
     psci_plat_pm_ops = ex_ops, psci_spd_pm = None, plat_state = (), psci_events = []\<rparr>"

definition ex_boot :: "unit psci_state" where
  "ex_boot = snd (psci_setup a3700_plat (ex_regs 0) ex_ops ex_cold)"

definition ex_status :: "nat \<Rightarrow> cpu_status" where
  "ex_status c = (if c = 0 then Running else Down)"

lemma ex_cold [simp]: "cold_state ex_cold"
  by (simp add: cold_state_def ex_cold_def)

lemma ex_regs_pos [simp]: "my_core_pos (ex_regs c) = c"
  by (simp add: ex_regs_def)

lemma ex_start: "psci_start a3700_plat (ex_boot, ex_status)"
proof -
  have "ex_status = (\<lambda>c. if c = my_core_pos (ex_regs 0) then Running else Down)"
    by (simp add: ex_status_def fun_eq_iff)
  moreover have "cold_state ex_cold" "my_core_pos (ex_regs 0) < PLATFORM_CORE_COUNT a3700_plat" by simp_all
  ultimately show ?thesis unfolding psci_start_def ex_boot_def prod.case by blast
qed

lemma ex_reach: "reach (psci_start a3700_plat) (psci_step a3700_plat) (ex_boot, ex_status)"
  by (rule reach_start) (rule ex_start)

lemma ex_boot_state: "boot_state a3700_plat 0 ex_boot"
  using psci_setup_boot_state [OF a3700_valid_topology _ _ ex_cold, of "ex_regs 0" ex_ops] by (simp add: ex_boot_def)

lemma ex_quiet [simp]: "quiet a3700_plat ex_boot"
  using ex_boot_state by (simp add: boot_state_def quiet_def)

lemma ex_wf [simp]: "wf_tree a3700_plat ex_boot"
  using ex_quiet by (simp add: quiet_def)

lemma upt_0_2: "[0..<2] = [0, Suc 0]"
  by (simp add: upt_rec)

lemmas ex_eval = ex_boot_def ex_cold_def psci_setup_def Let_def psci_arch_setup_def
  populate_power_domain_tree_def psci_init_pwr_domain_node_def PSCI_CPU_PWR_LVL_def emit_def upt_0_2
  psci_update_pwrlvl_limits_def limits_cpu_def psci_get_parent_pwr_domain_nodes_eq pd_node_def
  psci_init_req_local_pwr_states_def psci_set_pwr_domains_to_run_def set_domains_run_loop.simps
  set_non_cpu_pd_node_local_state_def psci_set_req_local_pwr_state_def
  psci_set_aff_info_state_by_idx_def psci_set_cpu_local_state_def

lemma ex_boot_req: "psci_req_local_pwr_states ex_boot = (\<lambda>l c. if l = 0 \<and> c = 1 then 2 else 0)"
  by (simp add: ex_eval fun_eq_iff PSCI_LOCAL_STATE_RUN_def)

subsection \<open>Power states\<close>

text \<open>
  C5. In every reachable state of the system, whatever PSCI calls the CPUs make and however they are
  interleaved with wake-ups and warm boots, every power domain above a running CPU is in the RUN state.
  It holds for every topology descriptor that fits the platform's arrays, with the default coordination.
\<close>

theorem psci_running_cpu_domains_run:
  fixes s :: "'p psci_state"
  assumes "valid_topology P" "PSCI_NUM_NON_CPU_PWR_DOMAINS P \<le> 256" "plat_asserts P"
    and "get_target_pwr_state P = plat_get_target_pwr_state (PLAT_MAX_OFF_STATE P)"
    and "reach (psci_start P) (psci_step P) (s, st)"
    and "c < PLATFORM_CORE_COUNT P" "st c = Running" "1 \<le> l" "l \<le> PLAT_MAX_PWR_LVL P"
  shows "local_state (psci_non_cpu_pd_nodes s (pd_node s c l)) = PSCI_LOCAL_STATE_RUN"
proof -
  have "psci_platform P"
    using assms(1-4) by unfold_locales (simp_all add: plat_get_target_pwr_state_le)
  then show ?thesis using psci_platform.running_domains assms(5-9) by blast
qed

theorem psci_running_cpu_domains_run_witness:
  "reach (psci_start a3700_plat) (psci_step a3700_plat) (ex_boot, ex_status) \<and>
   local_state (psci_non_cpu_pd_nodes ex_boot (pd_node ex_boot 0 1)) = PSCI_LOCAL_STATE_RUN"
  using psci_running_cpu_domains_run [OF a3700_valid_topology _ a3700_asserts _ ex_reach, of 0 1] ex_reach
  by (simp add: ex_status_def)

text \<open>
  C6. Every PSCI call refines the abstract specification: from a state with a well-formed tree and no
  lock held, the handler never waits for a lock, and it leaves the power states unchanged, marks an
  off CPU, returns from standby, or enters standby or power down with the coordinated states; the
  locks are free again in each case.
\<close>

theorem psci_smc_handler_refines:
  assumes "quiet P s" "my_core_pos R < PLATFORM_CORE_COUNT P"
  shows "smc_effect P (my_core_pos R) s (psci_smc_handler P R fid x1 x2 x3 flags s)"
  by (rule psci_smc_handler_effect [OF assms])

theorem psci_smc_handler_refines_witness:
  "quiet a3700_plat ex_boot \<and>
   smc_effect a3700_plat 0 ex_boot (psci_smc_handler a3700_plat (ex_regs 0) PSCI_CPU_OFF 0 0 0 1 ex_boot)"
  using psci_smc_handler_refines [of a3700_plat ex_boot "ex_regs 0" PSCI_CPU_OFF 0 0 0 1] by simp

text \<open>
  C7. For every topology descriptor whose level sizes fit the arrays, \<^verbatim>\<open>psci_setup\<close> builds a well-formed
  power domain tree in which the booting CPU and its domains run, every other CPU and domain is
  off, and the requested states agree.
\<close>

theorem psci_setup_builds_tree:
  assumes "valid_topology P" "PSCI_NUM_NON_CPU_PWR_DOMAINS P \<le> 256" "PLAT_MAX_PWR_LVL P < 256"
    and "cold_state s" "my_core_pos R < PLATFORM_CORE_COUNT P"
  shows "boot_state P (my_core_pos R) (snd (psci_setup P R ops s))"
  by (rule psci_setup_boot_state [OF assms])

theorem psci_setup_builds_tree_witness:
  "valid_topology a3700_plat \<and> boot_state a3700_plat 1 (snd (psci_setup a3700_plat (ex_regs 1) ex_ops ex_cold))"
  using psci_setup_builds_tree [OF a3700_valid_topology _ _ ex_cold, of "ex_regs 1" ex_ops]
    a3700_valid_topology by simp

subsection \<open>Coordination\<close>

text \<open>The states requested for the domain of CPU \<open>me\<close> at level \<open>l\<close>.\<close>

definition domain_requests :: "'p psci_state \<Rightarrow> nat \<Rightarrow> nat \<Rightarrow> plat_local_state_t set" where
  "domain_requests s me l =
     {psci_req_local_pwr_states s (l - 1) c | c. in_domain s (pd_node s me l) c}"

lemma domain_target_Min:
  assumes wf: "wf_tree P s" and me: "me < PLATFORM_CORE_COUNT P" and l: "1 \<le> l" "l \<le> PLAT_MAX_PWR_LVL P"
    and pol: "get_target_pwr_state P = plat_get_target_pwr_state (PLAT_MAX_OFF_STATE P)"
    and le: "\<And>c. in_domain s (pd_node s me l) c \<Longrightarrow> req (l - 1) c \<le> PLAT_MAX_OFF_STATE P"
  shows "domain_target P s me req l = Min {req (l - 1) c | c. in_domain s (pd_node s me l) c}"
proof -
  let ?nd = "psci_non_cpu_pd_nodes s (pd_node s me l)"
  have "in_domain s (pd_node s me l) me" by (rule wf_treeD(4) [OF wf me l])
  then have "0 < ncpus ?nd" by (auto simp: in_domain_def Let_def)
  then have "domain_target P s me req l =
      Min ((\<lambda>k. req (l - 1) (cpu_start_idx ?nd + k)) ` {..<ncpus ?nd})"
    unfolding domain_target_def Let_def pol using le
    by (intro plat_get_target_pwr_state_Min) (auto simp: in_domain_def Let_def)
  also have "(\<lambda>k. req (l - 1) (cpu_start_idx ?nd + k)) ` {..<ncpus ?nd} =
      {req (l - 1) c | c. in_domain s (pd_node s me l) c}"
  proof (intro equalityI subsetI)
    fix x
    assume "x \<in> {req (l - 1) c | c. in_domain s (pd_node s me l) c}"
    then obtain c where "x = req (l - 1) c" "cpu_start_idx ?nd \<le> c" "c < cpu_start_idx ?nd + ncpus ?nd"
      by (auto simp: in_domain_def Let_def)
    then show "x \<in> (\<lambda>k. req (l - 1) (cpu_start_idx ?nd + k)) ` {..<ncpus ?nd}"
      by (intro image_eqI [of _ _ "c - cpu_start_idx ?nd"]) auto
  qed (auto simp: in_domain_def Let_def)
  finally show ?thesis .
qed

text \<open>
  C8. \<^verbatim>\<open>psci_do_state_coordination\<close> gives every domain of the calling CPU, up to the end level, the
  shallowest state requested for it by any of its CPUs, except that a domain above one that stays in RUN
  stays in RUN; the nodes record these states, the call returns them, and the CPU's own request is recorded.
\<close>

theorem psci_do_state_coordination_spec:
  assumes wf: "wf_tree P s" and me: "me < PLATFORM_CORE_COUNT P" and e: "e \<le> PLAT_MAX_PWR_LVL P"
    and pol: "get_target_pwr_state P = plat_get_target_pwr_state (PLAT_MAX_OFF_STATE P)"
    and le: "\<And>l c. psci_req_local_pwr_states s l c \<le> PLAT_MAX_OFF_STATE P" "\<And>l. si l \<le> PLAT_MAX_OFF_STATE P"
    and run: "psci_do_state_coordination P me e si s = (si', s')" and l: "1 \<le> l" "l \<le> e"
  shows "si' l = (if \<exists>m \<in> {1..l}. Min (domain_requests s' me m) = PSCI_LOCAL_STATE_RUN then PSCI_LOCAL_STATE_RUN
      else Min (domain_requests s' me l)) \<and>
    local_state (psci_non_cpu_pd_nodes s' (pd_node s' me l)) = si' l \<and>
    psci_req_local_pwr_states s' (l - 1) me = si l"
proof -
  let ?req = "coord_reqs me e si s"
  have eq: "si' = coord_states P me e si s" "s' = coord_upd P me e si s"
    using run coordination_coord_upd [OF wf_path_levels [OF wf me e], of P si] by auto
  have st: "same_tree s s'" by (simp add: eq)
  have lM: "l \<le> PLAT_MAX_PWR_LVL P" using l e by simp
  have req: "psci_req_local_pwr_states s' = ?req" by (simp add: eq coord_upd_def)
  have dom: "domain_target P s me ?req m = Min (domain_requests s' me m)" if "1 \<le> m" "m \<le> l" for m
    using domain_target_Min [OF wf me that(1) _ pol, of ?req] that(2) lM le
    by (simp add: domain_requests_def req same_tree_pd_node [OF st] same_tree_in_domain [OF st]
        coord_reqs_def requests_def)
  have "si' l = coordinated P s me ?req 1 l" using l by (simp add: eq coord_states_def)
  also have "\<dots> = (if \<exists>m \<in> {1..l}. Min (domain_requests s' me m) = PSCI_LOCAL_STATE_RUN
      then PSCI_LOCAL_STATE_RUN else Min (domain_requests s' me l))"
    using dom l unfolding coordinated_def by (auto cong: bex_cong)
  finally show ?thesis
    using path_states_at [OF wf me me l(1) lM e, of "coord_states P me e si s"] l
    by (simp add: req same_tree_pd_node [OF st]) (simp add: eq coord_upd_def coord_reqs_def requests_def)
qed

theorem psci_do_state_coordination_spec_witness:
  "local_state (psci_non_cpu_pd_nodes (snd (psci_do_state_coordination a3700_plat 0 1 (\<lambda>_. 2) ex_boot))
     (pd_node (snd (psci_do_state_coordination a3700_plat 0 1 (\<lambda>_. 2) ex_boot)) 0 1)) =
   fst (psci_do_state_coordination a3700_plat 0 1 (\<lambda>_. 2) ex_boot) 1 \<and>
   psci_req_local_pwr_states (snd (psci_do_state_coordination a3700_plat 0 1 (\<lambda>_. 2) ex_boot)) 0 0 = 2"
  using psci_do_state_coordination_spec [of a3700_plat ex_boot 0 1 "\<lambda>_. 2"
      "fst (psci_do_state_coordination a3700_plat 0 1 (\<lambda>_. 2) ex_boot)"
      "snd (psci_do_state_coordination a3700_plat 0 1 (\<lambda>_. 2) ex_boot)" 1]
  by (simp add: ex_boot_req)

subsection \<open>Locks\<close>

text \<open>
  C9. A CPU takes the locks of its power domains from the lowest level up and releases them from the
  highest level down; acquiring succeeds exactly when they are all free, and releasing gives
  back the locks as they were.
\<close>

theorem psci_pwr_domain_locks_roundtrip:
  assumes wf: "wf_tree P s" and me: "me < PLATFORM_CORE_COUNT P" "e \<le> PLAT_MAX_PWR_LVL P"
  shows "case psci_acquire_pwr_domain_locks e me s of
      None \<Rightarrow> \<exists>l \<in> {1..e}. psci_locks s (pd_node s me l) \<noteq> None
    | Some t \<Rightarrow>
        psci_locks s ` pd_node s me ` {1..e} \<subseteq> {None} \<and>
        psci_locks t = (\<lambda>n. if n \<in> pd_node s me ` {1..e} then Some me else psci_locks s n) \<and>
        psci_events t = psci_events s @ map (\<lambda>l. Lock_get (pd_node s me l)) [1..<Suc e] \<and>
        psci_locks (psci_release_pwr_domain_locks e me t) = psci_locks s \<and>
        psci_events (psci_release_pwr_domain_locks e me t) =
          psci_events t @ map (\<lambda>l. Lock_release (pd_node s me l)) (rev [1..<Suc e])"
proof (cases "path_free me e s")
  case False
  then have "psci_acquire_pwr_domain_locks e me s = None"
    using psci_acquire_pwr_domain_locks_eq [OF wf_path_lockable [OF wf me]] by simp
  with False show ?thesis by (simp add: path_free_def)
next
  case True
  let ?t = "path_locked me 1 e s"
  have "path_lockable me e ?t"
    using wf_path_lockable [OF wf me] path_lockable_cong [OF same_tree_path_locked] by blast
  then have rel: "psci_release_pwr_domain_locks e me ?t = path_unlocked me e ?t"
    by (rule psci_release_pwr_domain_locks_eq)
  have free: "psci_locks s n = None" if "n \<in> pd_node s me ` {1..e}" for n
    using True that by (auto simp: path_free_def)
  then have "psci_locks (path_unlocked me e ?t) = psci_locks s"
    by (auto simp: path_unlocked_def path_locked_def fun_eq_iff)
  moreover have "psci_events (path_unlocked me e ?t) =
      psci_events ?t @ map (\<lambda>l. Lock_release (pd_node s me l)) (rev [1..<Suc e])"
    by (simp add: path_unlocked_def del: upt_Suc)
  moreover have "psci_acquire_pwr_domain_locks e me s = Some ?t"
    using True psci_acquire_pwr_domain_locks_eq [OF wf_path_lockable [OF wf me]] by simp
  ultimately show ?thesis
    using free rel by (simp add: path_locked_def subset_eq del: upt_Suc)
qed

theorem psci_pwr_domain_locks_roundtrip_witness:
  "psci_acquire_pwr_domain_locks 1 0 ex_boot \<noteq> None"
proof -
  have "psci_locks ex_boot = Map.empty" using ex_quiet by (simp add: quiet_def)
  then show ?thesis
    using psci_pwr_domain_locks_roundtrip [of a3700_plat ex_boot 0 1] by (auto split: option.splits)
qed

subsection \<open>Suspend requests\<close>






subsection \<open>CPU\_ON and CPU\_OFF\<close>



lemma psci_do_cpu_off_not_refused:
  assumes q: "quiet P s" and me: "my_core_pos R < PLATFORM_CORE_COUNT P" "e \<le> PLAT_MAX_PWR_LVL P"
    and spd: "psci_spd_pm s = None"
  shows "psci_do_cpu_off P R e s \<noteq> Return rc t"
proof -
  have "psci_spd_pm (path_locked (my_core_pos R) 1 e s) = None" using spd by (simp add: path_locked_def)
  then show ?thesis
    by (simp add: psci_do_cpu_off_def quiet_acquire [OF q me] call_svc_off_def PSCI_E_SUCCESS_def
        pwr_down_wfi_def Let_def split: prod.split option.split)
qed

text \<open>
  C12. \<^verbatim>\<open>CPU_OFF\<close> by the last CPU that is on: with no secure payload to refuse it, the call powers the CPU
  down, its affinity state becomes OFF, and a power domain above it goes OFF when every other CPU under
  it has requested OFF for the domain and for those of the caller below it.
\<close>

theorem psci_cpu_off_last_cpu:
  fixes s :: "'p psci_state"
  assumes q: "quiet P s" and me: "my_core_pos R < PLATFORM_CORE_COUNT P"
    and pol: "get_target_pwr_state P = plat_get_target_pwr_state (PLAT_MAX_OFF_STATE P)"
    and off: "PLAT_MAX_OFF_STATE P \<noteq> PSCI_LOCAL_STATE_RUN"
    and spd: "psci_spd_pm s = None" and hook: "pwr_domain_off (psci_plat_pm_ops s) \<noteq> None"
    and l: "1 \<le> l" "l \<le> PLAT_MAX_PWR_LVL P"
    and others: "\<And>m c. 1 \<le> m \<Longrightarrow> m \<le> l \<Longrightarrow> in_domain s (pd_node s (my_core_pos R) m) c \<Longrightarrow>
      c \<noteq> my_core_pos R \<Longrightarrow> psci_req_local_pwr_states s (m - 1) c = PLAT_MAX_OFF_STATE P"
  shows "\<exists>t. psci_cpu_off P R s = PowerDown t \<and>
    aff_info_state (psci_svc_cpu_data t (my_core_pos R)) = AFF_STATE_OFF \<and>
    local_state (psci_non_cpu_pd_nodes t (pd_node t (my_core_pos R) l)) = PLAT_MAX_OFF_STATE P"
proof -
  let ?me = "my_core_pos R" and ?M = "PLAT_MAX_PWR_LVL P" and ?off = "PLAT_MAX_OFF_STATE P"
  let ?si = "psci_set_power_off_state P (stack_state R)"
  let ?req = "coord_reqs ?me ?M ?si s" and ?s = "coord_upd P ?me ?M ?si s"
  have wf: "wf_tree P s" using q by (simp add: quiet_def)
  obtain t where run: "psci_cpu_off P R s = PowerDown t" and v: "view t = view (off_upd P ?me ?M ?si s)"
    using psci_do_cpu_off_cases [OF q me order_refl] hook psci_do_cpu_off_not_refused [OF q me order_refl spd]
    by (auto simp: psci_cpu_off_def)
  have dom: "domain_target P s ?me ?req m = ?off" if m: "1 \<le> m" "m \<le> l" for m
  proof -
    have M: "m \<le> ?M" using m l by simp
    have req: "?req (m - 1) c = ?off" if "in_domain s (pd_node s ?me m) c" for c
      using that m M others [OF m, of c] by (auto simp: coord_reqs_def requests_def psci_set_power_off_state_def)
    have "{?req (m - 1) c | c. in_domain s (pd_node s ?me m) c} = {?off}"
      using wf_treeD(4) [OF wf me m(1) M] req by (auto intro: exI [of _ ?me])
    then show ?thesis using domain_target_Min [OF wf me m(1) M pol, of ?req] req by simp
  qed
  then have "coord_states P ?me ?M ?si s l = ?off"
    using l off by (auto simp: coord_states_def coordinated_def)
  then have "local_state (psci_non_cpu_pd_nodes ?s (pd_node s ?me l)) = ?off"
    using path_states_at [OF wf me me l order_refl, of "coord_states P ?me ?M ?si s"] l
    by (simp add: coord_upd_def)
  moreover have "same_tree s t"
    using same_tree_transitions(1) [of s P ?me ?M ?si] v
    by (auto simp: view_def same_tree_def off_upd_def psci_set_aff_info_state_by_idx_def dest: fun_cong)
  moreover have "psci_non_cpu_pd_nodes t = psci_non_cpu_pd_nodes ?s"
    "psci_svc_cpu_data t ?me = (psci_svc_cpu_data ?s ?me)\<lparr>aff_info_state := AFF_STATE_OFF\<rparr>"
    using v by (simp_all add: view_def off_upd_def psci_set_aff_info_state_by_idx_def)
  ultimately show ?thesis using run by (simp add: same_tree_pd_node [of s t])
qed

theorem psci_cpu_off_last_cpu_witness:
  "\<exists>t. psci_cpu_off a3700_plat (ex_regs 0) ex_boot = PowerDown t \<and>
    aff_info_state (psci_svc_cpu_data t 0) = AFF_STATE_OFF \<and>
    local_state (psci_non_cpu_pd_nodes t (pd_node t 0 1)) = 2"
proof -
  have "psci_req_local_pwr_states ex_boot (m - 1) c = 2"
    if "1 \<le> m" "m \<le> 1" "in_domain ex_boot (pd_node ex_boot 0 m) c" "c \<noteq> 0" for m c
  proof -
    have "c < 2" using that(3) wf_treeD(5) [OF ex_wf, of 0 m] that(1,2) by (auto simp: in_domain_def Let_def)
    then show ?thesis using that by (simp add: ex_boot_req)
  qed
  moreover have "psci_spd_pm ex_boot = None" "pwr_domain_off (psci_plat_pm_ops ex_boot) \<noteq> None"
    by (simp_all add: ex_eval ex_ops_def)
  ultimately show ?thesis
    using psci_cpu_off_last_cpu [of a3700_plat ex_boot "ex_regs 0" 1] by (simp add: PSCI_LOCAL_STATE_RUN_def)
qed

end
