(* ===== verification/Xlat_Tables.thy ===== *)
theory Xlat_Tables
  imports Atf_Prelude
begin

unbundle bit_operations_syntax

text \<open>
  The translation table library of \<^verbatim>\<open>src/atf-marvell/lib/xlat_tables\<close>: the sorted array of memory
  regions, the descriptors, the recursive construction of the tables, and the register values that
  enable the MMU. The tables are a function from a table and an entry to a descriptor.
  A read past the end of the region array, an overflow of the array of tables and a level past the last
  one (assertions that the release build leaves out) end the model's run with \<open>None\<close>.
\<close>

subsection \<open>Constants\<close>

definition UNSET_DESC :: u64 where "UNSET_DESC = NOT 0"
definition INVALID_DESC :: u64 where "INVALID_DESC = 0"
definition BLOCK_DESC :: u64 where "BLOCK_DESC = 1"
definition TABLE_DESC :: u64 where "TABLE_DESC = 3"
definition PAGE_DESC :: u64 where "PAGE_DESC = 3"

definition XN :: u64 where "XN = push_bit 2 1"
definition PXN :: u64 where "PXN = push_bit 1 1"
definition UPPER_ATTRS :: "u64 \<Rightarrow> u64" where "UPPER_ATTRS x = push_bit 52 (x AND 7)"

definition ACCESS_FLAG :: u64 where "ACCESS_FLAG = push_bit 8 1"
definition OSH :: u64 where "OSH = push_bit 6 2"
definition ISH :: u64 where "ISH = push_bit 6 3"
definition AP_RO :: u64 where "AP_RO = push_bit 5 1"
definition AP_RW :: u64 where "AP_RW = push_bit 5 0"
definition NS :: u64 where "NS = push_bit 3 1"
definition ATTR_NON_CACHEABLE_INDEX :: u64 where "ATTR_NON_CACHEABLE_INDEX = 2"
definition ATTR_DEVICE_INDEX :: u64 where "ATTR_DEVICE_INDEX = 1"
definition ATTR_IWBWA_OWBWA_NTR_INDEX :: u64 where "ATTR_IWBWA_OWBWA_NTR_INDEX = 0"
definition LOWER_ATTRS :: "u64 \<Rightarrow> u64" where "LOWER_ATTRS x = push_bit 2 (x AND 0xfff)"

definition XLAT_TABLE_LEVEL_MAX :: nat where "XLAT_TABLE_LEVEL_MAX = 3"
definition XLAT_BLOCK_LEVEL_MIN :: nat where "XLAT_BLOCK_LEVEL_MIN = 1"
definition XLAT_TABLE_ENTRIES_SHIFT :: nat where "XLAT_TABLE_ENTRIES_SHIFT = 9"
definition XLAT_TABLE_ENTRIES_MASK :: u64 where "XLAT_TABLE_ENTRIES_MASK = 511"
definition L0_XLAT_ADDRESS_SHIFT :: nat where "L0_XLAT_ADDRESS_SHIFT = 39"
definition L1_XLAT_ADDRESS_SHIFT :: nat where "L1_XLAT_ADDRESS_SHIFT = 30"
definition XLAT_TABLE_SIZE :: u64 where "XLAT_TABLE_SIZE = push_bit 12 1"

definition MT_TYPE :: "u32 \<Rightarrow> u32" where "MT_TYPE a = a AND 7"
definition MT_DEVICE :: u32 where "MT_DEVICE = 0"
definition MT_NON_CACHEABLE :: u32 where "MT_NON_CACHEABLE = 1"
definition MT_MEMORY :: u32 where "MT_MEMORY = 2"
definition MT_RO :: u32 where "MT_RO = push_bit 3 0"
definition MT_RW :: u32 where "MT_RW = push_bit 3 1"
definition MT_SECURE :: u32 where "MT_SECURE = push_bit 4 0"
definition MT_NS :: u32 where "MT_NS = push_bit 4 1"
definition MT_EXECUTE :: u32 where "MT_EXECUTE = push_bit 5 0"
definition MT_EXECUTE_NEVER :: u32 where "MT_EXECUTE_NEVER = push_bit 5 1"
definition MT_CODE :: u32 where "MT_CODE = MT_MEMORY OR MT_RO OR MT_EXECUTE"
definition MT_RO_DATA :: u32 where "MT_RO_DATA = MT_MEMORY OR MT_RO OR MT_EXECUTE_NEVER"

lemmas xlat_const_defs = UNSET_DESC_def INVALID_DESC_def BLOCK_DESC_def TABLE_DESC_def PAGE_DESC_def
  XN_def PXN_def UPPER_ATTRS_def ACCESS_FLAG_def OSH_def ISH_def AP_RO_def AP_RW_def NS_def
  ATTR_NON_CACHEABLE_INDEX_def ATTR_DEVICE_INDEX_def ATTR_IWBWA_OWBWA_NTR_INDEX_def LOWER_ATTRS_def

lemmas mt_defs = MT_TYPE_def MT_DEVICE_def MT_NON_CACHEABLE_def MT_MEMORY_def MT_RO_def MT_RW_def
  MT_SECURE_def MT_NS_def MT_EXECUTE_def MT_EXECUTE_NEVER_def MT_CODE_def MT_RO_DATA_def

lemmas level_defs = XLAT_TABLE_LEVEL_MAX_def XLAT_BLOCK_LEVEL_MIN_def XLAT_TABLE_ENTRIES_SHIFT_def
  XLAT_TABLE_ENTRIES_MASK_def L0_XLAT_ADDRESS_SHIFT_def

subsection \<open>State\<close>

record mmap_region =
  base_pa :: u64
  base_va :: u64
  region_size :: u64
  region_attr :: u32

text \<open>A pointer to a table is the base table or one of the array \<^verbatim>\<open>xlat_tables\<close>.\<close>

datatype table = Base | Xlat nat

record xlat_cfg =
  MAX_XLAT_TABLES :: nat
  PLAT_VIRT_ADDR_SPACE_SIZE :: u64
  xlat_tables_addr :: u64
  base_xlation_table_addr :: u64

record xlat_state =
  mmap :: "mmap_region list"
  tables :: "table \<Rightarrow> nat \<Rightarrow> u64"
  next_xlat :: nat
  xlat_max_pa :: u64
  xlat_max_va :: u64
  execute_never_mask :: u64
  tcr_ps_bits :: u64

subsection \<open>Memory regions\<close>

text \<open>
  The place of a new region: the index at which the two searches stop. The regions from there up to the
  last but one move up by one.
\<close>

definition mmap_place :: "u64 \<Rightarrow> u64 \<Rightarrow> mmap_region list \<Rightarrow> nat" where
  "mmap_place bva sz mm =
     (let n = length (takeWhile (\<lambda>m. base_va m < bva \<and> region_size m \<noteq> 0) mm) in
      n + length (takeWhile (\<lambda>m. base_va m = bva \<and> region_size m > sz) (drop n mm)))"

definition mmap_add_region :: "u64 \<Rightarrow> u64 \<Rightarrow> u64 \<Rightarrow> u32 \<Rightarrow> xlat_state \<Rightarrow> xlat_state option" where
  "mmap_add_region bpa bva sz attr s =
     (let end_pa = bpa + sz - 1; end_va = bva + sz - 1 in
      if sz = 0 then Some s
      else let p = mmap_place bva sz (mmap s) in
        if p \<ge> length (mmap s) then None
        else Some (s\<lparr>mmap := take p (mmap s) @
              \<lparr>base_pa = bpa, base_va = bva, region_size = sz, region_attr = attr\<rparr> # drop p (butlast (mmap s)),
            xlat_max_pa := (if end_pa > xlat_max_pa s then end_pa else xlat_max_pa s),
            xlat_max_va := (if end_va > xlat_max_va s then end_va else xlat_max_va s)\<rparr>))"

primrec mmap_add :: "mmap_region list \<Rightarrow> xlat_state \<Rightarrow> xlat_state option" where
  "mmap_add [] s = None"
| "mmap_add (m # ms) s =
     (if region_size m = 0 then Some s
      else case mmap_add_region (base_pa m) (base_va m) (region_size m) (region_attr m) s of
        None \<Rightarrow> None
      | Some s' \<Rightarrow> mmap_add ms s')"

text \<open>
  The assertions on a new region against one that is there already: one inside the other
  with the same offset and not equal to it, or both separate.
\<close>

definition mmap_overlap_check :: "mmap_region \<Rightarrow> mmap_region \<Rightarrow> bool" where
  "mmap_overlap_check n m \<longleftrightarrow>
     (let end_pa = base_pa n + region_size n - 1; end_va = base_va n + region_size n - 1;
          mm_end_va = base_va m + region_size m - 1;
          fully_overlapped_va = (base_va n \<ge> base_va m \<and> end_va \<le> mm_end_va) \<or>
            (base_va m \<ge> base_va n \<and> mm_end_va \<le> end_va)
      in if fully_overlapped_va
         then base_va m - base_pa m = base_va n - base_pa n \<and>
           (base_va n \<noteq> base_va m \<or> region_size n \<noteq> region_size m)
         else let mm_end_pa = base_pa m + region_size m - 1;
                  separated_pa = end_pa < base_pa m \<or> base_pa n > mm_end_pa;
                  separated_va = end_va < base_va m \<or> base_va n > mm_end_va
              in separated_va \<and> separated_pa)"

subsection \<open>Descriptors\<close>

definition mmap_desc :: "u64 \<Rightarrow> u32 \<Rightarrow> u64 \<Rightarrow> nat \<Rightarrow> u64" where
  "mmap_desc xn attr addr_pa level =
     (let desc = addr_pa;
          desc = desc OR (if level = XLAT_TABLE_LEVEL_MAX then PAGE_DESC else BLOCK_DESC);
          desc = desc OR (if attr AND MT_NS \<noteq> 0 then LOWER_ATTRS NS else 0);
          desc = desc OR (if attr AND MT_RW \<noteq> 0 then LOWER_ATTRS AP_RW else LOWER_ATTRS AP_RO);
          desc = desc OR LOWER_ATTRS ACCESS_FLAG;
          mem_type = MT_TYPE attr
      in if mem_type = MT_DEVICE then
           desc OR LOWER_ATTRS (ATTR_DEVICE_INDEX OR OSH) OR xn
         else
           let desc = (if attr AND MT_RW \<noteq> 0 \<or> attr AND MT_EXECUTE_NEVER \<noteq> 0 then desc OR xn else desc)
           in if mem_type = MT_MEMORY then desc OR LOWER_ATTRS (ATTR_IWBWA_OWBWA_NTR_INDEX OR ISH)
              else desc OR LOWER_ATTRS (ATTR_NON_CACHEABLE_INDEX OR OSH))"

text \<open>
  The attributes of the innermost region around an area. The accumulator is the attribute when the C
  variable \<^verbatim>\<open>ret\<close> is 0 and \<open>None\<close> when it is -1; the result is \<open>Some None\<close> for the return value -1.
\<close>

fun mmap_region_attr :: "mmap_region list \<Rightarrow> u64 \<Rightarrow> u64 \<Rightarrow> u32 option \<Rightarrow> u32 option option" where
  "mmap_region_attr [] b sz ret = None"
| "mmap_region_attr (m # mm) b sz ret =
     (if region_size m = 0 then Some ret
      else if base_va m > b + sz - 1 then Some ret
      else if base_va m + region_size m - 1 < b then mmap_region_attr mm b sz ret
      else if ret = Some (region_attr m) then mmap_region_attr mm b sz ret
      else if base_va m > b \<or> base_va m + region_size m - 1 < b + sz - 1 then Some None
      else mmap_region_attr mm b sz (Some (region_attr m)))"

subsection \<open>Construction of the tables\<close>

definition level_size_shift :: "nat \<Rightarrow> nat" where
  "level_size_shift level = L0_XLAT_ADDRESS_SHIFT - level * XLAT_TABLE_ENTRIES_SHIFT"

definition level_size :: "nat \<Rightarrow> u64" where
  "level_size level = push_bit (level_size_shift level) 1"

definition level_index_mask :: "nat \<Rightarrow> u64" where
  "level_index_mask level = push_bit (level_size_shift level) XLAT_TABLE_ENTRIES_MASK"

text \<open>The condition of the loop over the entries of a table.\<close>

definition more_entries :: "xlat_cfg \<Rightarrow> u64 \<Rightarrow> nat \<Rightarrow> bool" where
  "more_entries C b level \<longleftrightarrow>
     b AND level_index_mask level \<noteq> 0 \<and> b - 1 < PLAT_VIRT_ADDR_SPACE_SIZE C - 1"

text \<open>The descriptor of an area; \<^const>\<open>UNSET_DESC\<close> asks for a finer table.\<close>

definition area_desc :: "u64 \<Rightarrow> mmap_region \<Rightarrow> mmap_region list \<Rightarrow> u64 \<Rightarrow> nat \<Rightarrow> u64 option" where
  "area_desc xn m mm b level =
     (let desc = (if region_size m = 0 then INVALID_DESC else UNSET_DESC) in
      if base_va m > b + level_size level - 1 then Some INVALID_DESC
      else if level \<ge> XLAT_BLOCK_LEVEL_MIN then
        (case mmap_region_attr (m # mm) b (level_size level) None of
           None \<Rightarrow> None
         | Some None \<Rightarrow> Some desc
         | Some (Some attr) \<Rightarrow> Some (mmap_desc xn attr (b - base_va m + base_pa m) level))
      else Some desc)"

definition table_addr :: "xlat_cfg \<Rightarrow> nat \<Rightarrow> u64" where
  "table_addr C k = xlat_tables_addr C + of_nat k * XLAT_TABLE_SIZE"

definition set_entry :: "table \<Rightarrow> nat \<Rightarrow> u64 \<Rightarrow> xlat_state \<Rightarrow> xlat_state" where
  "set_entry t i d s = s\<lparr>tables := (tables s)(t := (tables s t)(i := d))\<rparr>"

lemma index_step:
  fixes b :: u64
  assumes s: "s + 9 \<le> 64"
  shows "unat (drop_bit s (b + push_bit s 1)) mod 512 = (unat (drop_bit s b) mod 512 + 1) mod 512"
proof -
  have p: "(2 :: nat) ^ 64 = 2 ^ s * 2 ^ (64 - s)" using s by (simp flip: power_add)
  have u: "unat (b + push_bit s 1) = (unat b + 2 ^ s) mod 2 ^ 64"
    using s by (simp add: unat_word_ariths unat_2p)
  have "(unat b + 2 ^ s) mod 2 ^ 64 div 2 ^ s mod 2 ^ 9 = (unat b div 2 ^ s + 1) mod 2 ^ (64 - s) mod 2 ^ 9"
    unfolding p using div_add_self2 [of "2 ^ s" "unat b"] by (simp add: mod_mult2_eq)
  also have "\<dots> = (unat b div 2 ^ s + 1) mod 2 ^ 9"
    using s by (intro mod_mod_cancel le_imp_power_dvd) simp
  finally show ?thesis unfolding unat_drop_bit_div u by (simp add: mod_simps)
qed


definition table_index :: "nat \<Rightarrow> u64 \<Rightarrow> nat" where
  "table_index level b = unat (drop_bit (level_size_shift level) b) mod 512"

lemma level_size_shift_bound: "level_size_shift level + 9 \<le> 64"
  by (simp add: level_size_shift_def level_defs)

lemma table_index_next:
  "table_index level (b + level_size level) = (table_index level b + 1) mod 512"
  unfolding table_index_def level_size_def by (rule index_step [OF level_size_shift_bound])

lemma table_index_lt: "table_index level b < 512"
  by (simp add: table_index_def)

lemma index_mask_zero: "b AND level_index_mask level = 0 \<longleftrightarrow> table_index level b = 0"
proof -
  let ?s = "level_size_shift level"
  have m: "(511 :: u64) = mask 9" by (simp add: mask_eq_exp_minus_1)
  have "b AND level_index_mask level = push_bit ?s (take_bit 9 (drop_bit ?s b))"
    unfolding level_index_mask_def XLAT_TABLE_ENTRIES_MASK_def m
    by (rule bit_word_eqI) (auto simp: bit_simps)
  moreover have "push_bit ?s (take_bit 9 (drop_bit ?s b)) = 0 \<longleftrightarrow> take_bit 9 (drop_bit ?s b) = 0"
  proof
    assume "push_bit ?s (take_bit 9 (drop_bit ?s b)) = 0"
    then have "\<not> bit (push_bit ?s (take_bit 9 (drop_bit ?s b))) (?s + n)" for n by simp
    then have "\<not> bit (take_bit 9 (drop_bit ?s b)) n" for n
      using level_size_shift_bound [of level] by (auto simp: bit_simps)
    then show "take_bit 9 (drop_bit ?s b) = 0" by (intro bit_word_eqI) simp
  qed simp
  moreover have "take_bit 9 (drop_bit ?s b) = 0 \<longleftrightarrow> table_index level b = 0"
  proof -
    have "unat (take_bit 9 (drop_bit ?s b)) = table_index level b"
      by (simp add: table_index_def unsigned_take_bit_eq take_bit_eq_mod [where 'a = nat])
    then show ?thesis using unat_eq_zero [of "take_bit 9 (drop_bit ?s b)"] by simp
  qed
  ultimately show ?thesis by simp
qed

lemma more_entries_index: "more_entries C b level \<Longrightarrow> table_index level b \<noteq> 0"
  by (simp add: more_entries_def index_mask_zero)

lemma more_entries_next:
  assumes "more_entries C (b + level_size level) level"
  shows "table_index level (b + level_size level) = table_index level b + 1" and "table_index level b < 511"
  using more_entries_index [OF assms] table_index_lt [of level b]
  by (auto simp: table_index_next mod_Suc split: if_splits)

lemma more_entries_less:
  "more_entries C (b + level_size level) level \<Longrightarrow>
   512 - table_index level (b + level_size level) < 512 - table_index level b"
  using more_entries_next [of C b level] by linarith

text \<open>
  \<^verbatim>\<open>init_xlation_table_inner\<close> from the entry \<open>i\<close> of the table \<open>t\<close> on: the body of its loop, with
  \<^verbatim>\<open>continue\<close> going to the condition of the loop, and the recursive call for a finer table.
\<close>

function init_xlation_table_inner ::
    "xlat_cfg \<Rightarrow> mmap_region list \<Rightarrow> u64 \<Rightarrow> table \<Rightarrow> nat \<Rightarrow> nat \<Rightarrow> xlat_state \<Rightarrow>
     (mmap_region list \<times> xlat_state) option" where
  "init_xlation_table_inner C mm b t i level s =
     (if level > XLAT_TABLE_LEVEL_MAX then None
      else case mm of
        [] \<Rightarrow> None
      | m # mm' \<Rightarrow>
        if region_size m \<noteq> 0 \<and> base_va m + region_size m - 1 < b then
          (if more_entries C b level then init_xlation_table_inner C mm' b t i level s else Some (mm', s))
        else case area_desc (execute_never_mask s) m mm' b level of
          None \<Rightarrow> None
        | Some desc \<Rightarrow>
          if desc = UNSET_DESC then
            (if next_xlat s \<ge> MAX_XLAT_TABLES C then None
             else case init_xlation_table_inner C mm b (Xlat (next_xlat s)) 0 (level + 1)
                      (s\<lparr>next_xlat := next_xlat s + 1\<rparr>) of
               None \<Rightarrow> None
             | Some (mm2, s2) \<Rightarrow>
               let s3 = set_entry t i (TABLE_DESC OR table_addr C (next_xlat s)) s2;
                   b' = b + level_size level in
               if more_entries C b' level then init_xlation_table_inner C mm2 b' t (i + 1) level s3
               else Some (mm2, s3))
          else
            let s1 = set_entry t i desc s; b' = b + level_size level in
            if more_entries C b' level then init_xlation_table_inner C mm b' t (i + 1) level s1
            else Some (mm, s1))"
  by pat_completeness auto
termination
proof (relation "measures [\<lambda>(C, mm, b, t, i, level, s). 4 - level,
    \<lambda>(C, mm, b, t, i, level, s). 512 - table_index level b, \<lambda>(C, mm, b, t, i, level, s). length mm]")
qed (auto simp: XLAT_TABLE_LEVEL_MAX_def more_entries_less)

declare init_xlation_table_inner.simps [simp del]

definition xlat_arch_get_xn_desc :: "int \<Rightarrow> u64" where
  "xlat_arch_get_xn_desc el = (if el = 3 then UPPER_ATTRS XN else UPPER_ATTRS PXN)"

definition init_xlation_table ::
    "xlat_cfg \<Rightarrow> int \<Rightarrow> u64 \<Rightarrow> table \<Rightarrow> nat \<Rightarrow> xlat_state \<Rightarrow> (u64 \<times> u64 \<times> xlat_state) option" where
  "init_xlation_table C el b t level s =
     (let s = s\<lparr>execute_never_mask := xlat_arch_get_xn_desc el\<rparr> in
      case init_xlation_table_inner C (mmap s) b t 0 level s of
        None \<Rightarrow> None
      | Some (_, s) \<Rightarrow> Some (xlat_max_va s, xlat_max_pa s, s))"

definition GET_XLAT_TABLE_LEVEL_BASE :: "u64 \<Rightarrow> nat" where
  "GET_XLAT_TABLE_LEVEL_BASE sz =
     (if sz > push_bit L0_XLAT_ADDRESS_SHIFT 1 then 0
      else if sz > push_bit L1_XLAT_ADDRESS_SHIFT 1 then 1 else 2)"

subsection \<open>Enabling the MMU\<close>

definition calc_physical_addr_size_bits :: "u64 \<Rightarrow> u64" where
  "calc_physical_addr_size_bits max_addr =
     (if max_addr AND 0x0000F00000000000 \<noteq> 0 then 5
      else if max_addr AND 0x00000C0000000000 \<noteq> 0 then 4
      else if max_addr AND 0x0000030000000000 \<noteq> 0 then 3
      else if max_addr AND 0x000000F000000000 \<noteq> 0 then 2
      else if max_addr AND 0x0000000F00000000 \<noteq> 0 then 1
      else 0)"

definition init_xlat_tables :: "xlat_cfg \<Rightarrow> int \<Rightarrow> xlat_state \<Rightarrow> xlat_state option" where
  "init_xlat_tables C el s =
     (case init_xlation_table C el 0 Base (GET_XLAT_TABLE_LEVEL_BASE (PLAT_VIRT_ADDR_SPACE_SIZE C)) s of
        None \<Rightarrow> None
      | Some (max_va, max_pa, s) \<Rightarrow> Some (s\<lparr>tcr_ps_bits := calc_physical_addr_size_bits max_pa\<rparr>))"

definition TCR_SH_NON_SHAREABLE :: u64 where "TCR_SH_NON_SHAREABLE = push_bit 12 0"
definition TCR_SH_INNER_SHAREABLE :: u64 where "TCR_SH_INNER_SHAREABLE = push_bit 12 3"
definition TCR_RGN_OUTER_NC :: u64 where "TCR_RGN_OUTER_NC = push_bit 10 0"
definition TCR_RGN_OUTER_WBA :: u64 where "TCR_RGN_OUTER_WBA = push_bit 10 1"
definition TCR_RGN_INNER_NC :: u64 where "TCR_RGN_INNER_NC = push_bit 8 0"
definition TCR_RGN_INNER_WBA :: u64 where "TCR_RGN_INNER_WBA = push_bit 8 1"
definition TCR_EPD1_BIT :: u64 where "TCR_EPD1_BIT = push_bit 23 1"
definition TCR_EL3_RES1 :: u64 where "TCR_EL3_RES1 = push_bit 31 1 OR push_bit 23 1"
definition SCTLR_M_BIT :: u32 where "SCTLR_M_BIT = push_bit 0 1"
definition SCTLR_C_BIT :: u32 where "SCTLR_C_BIT = push_bit 2 1"
definition SCTLR_WXN_BIT :: u32 where "SCTLR_WXN_BIT = push_bit 19 1"
definition DISABLE_DCACHE :: u32 where "DISABLE_DCACHE = push_bit 0 1"
definition XLAT_TABLE_NC :: u32 where "XLAT_TABLE_NC = push_bit 1 1"
definition ATTR_NON_CACHEABLE :: u64 where "ATTR_NON_CACHEABLE = 4 OR push_bit 4 4"
definition ATTR_DEVICE :: u64 where "ATTR_DEVICE = 4"
definition ATTR_IWBWA_OWBWA_NTR :: u64 where "ATTR_IWBWA_OWBWA_NTR = 0xf OR push_bit 4 0xf"
definition MAIR_ATTR_SET :: "u64 \<Rightarrow> u64 \<Rightarrow> u64" where "MAIR_ATTR_SET attr index = push_bit (unat (push_bit 3 index)) attr"

record mmu_regs =
  mair :: u64
  tcr :: u64
  ttbr0 :: u64
  sctlr :: u32

text \<open>The number of trailing zeros of a 64-bit value that is not zero.\<close>

definition ctzll :: "u64 \<Rightarrow> nat" where
  "ctzll w = length (takeWhile (\<lambda>n. \<not> bit w n) [0..<64])"

definition enable_mmu_el :: "u64 \<Rightarrow> xlat_cfg \<Rightarrow> u32 \<Rightarrow> mmu_regs \<Rightarrow> mmu_regs" where
  "enable_mmu_el tcr_extra C flags r =
     (let mair = MAIR_ATTR_SET ATTR_DEVICE ATTR_DEVICE_INDEX;
          mair = mair OR MAIR_ATTR_SET ATTR_IWBWA_OWBWA_NTR ATTR_IWBWA_OWBWA_NTR_INDEX;
          mair = mair OR MAIR_ATTR_SET ATTR_NON_CACHEABLE ATTR_NON_CACHEABLE_INDEX;
          txsz = 64 - of_nat (ctzll (PLAT_VIRT_ADDR_SPACE_SIZE C));
          tcr = (if flags AND XLAT_TABLE_NC \<noteq> 0
                 then TCR_SH_NON_SHAREABLE OR TCR_RGN_OUTER_NC OR TCR_RGN_INNER_NC OR txsz
                 else TCR_SH_INNER_SHAREABLE OR TCR_RGN_OUTER_WBA OR TCR_RGN_INNER_WBA OR txsz);
          tcr = tcr OR tcr_extra;
          sc = sctlr r OR (SCTLR_WXN_BIT OR SCTLR_M_BIT);
          sc = (if flags AND DISABLE_DCACHE \<noteq> 0 then sc AND NOT SCTLR_C_BIT else sc OR SCTLR_C_BIT)
      in \<lparr>mair = mair, tcr = tcr, ttbr0 = base_xlation_table_addr C, sctlr = sc\<rparr>)"

definition enable_mmu_el1 :: "xlat_cfg \<Rightarrow> xlat_state \<Rightarrow> u32 \<Rightarrow> mmu_regs \<Rightarrow> mmu_regs" where
  "enable_mmu_el1 C s = enable_mmu_el (TCR_EPD1_BIT OR push_bit 32 (tcr_ps_bits s)) C"

definition enable_mmu_el3 :: "xlat_cfg \<Rightarrow> xlat_state \<Rightarrow> u32 \<Rightarrow> mmu_regs \<Rightarrow> mmu_regs" where
  "enable_mmu_el3 C s = enable_mmu_el (TCR_EL3_RES1 OR push_bit 16 (tcr_ps_bits s)) C"

subsection \<open>The Marvell memory map\<close>

text \<open>
  \<^verbatim>\<open>marvell_setup_page_tables\<close> with \<^verbatim>\<open>USE_COHERENT_MEM=0\<close>: the memory of the image, its code and its
  read-only data, and the regions of the platform, all mapped to themselves.
\<close>

definition marvell_setup_page_tables ::
    "xlat_cfg \<Rightarrow> int \<Rightarrow> mmap_region list \<Rightarrow> u64 \<Rightarrow> u64 \<Rightarrow> u64 \<Rightarrow> u64 \<Rightarrow> u64 \<Rightarrow> u64 \<Rightarrow>
     xlat_state \<Rightarrow> xlat_state option" where
  "marvell_setup_page_tables C el plat_mmap total_base total_size code_start code_limit
     rodata_start rodata_limit s =
     (case mmap_add_region total_base total_base total_size (MT_MEMORY OR MT_RW OR MT_SECURE) s of
        None \<Rightarrow> None
      | Some s \<Rightarrow>
     (case mmap_add_region code_start code_start (code_limit - code_start) (MT_CODE OR MT_SECURE) s of
        None \<Rightarrow> None
      | Some s \<Rightarrow>
     (case mmap_add_region rodata_start rodata_start (rodata_limit - rodata_start) (MT_RO_DATA OR MT_SECURE) s of
        None \<Rightarrow> None
      | Some s \<Rightarrow>
     (case mmap_add plat_mmap s of
        None \<Rightarrow> None
      | Some s \<Rightarrow> init_xlat_tables C el s))))"

end
