(* ===== verification/Xlat_Regions.thy ===== *)
theory Xlat_Regions
  imports Xlat_Tables
begin

unbundle bit_operations_syntax

text \<open>
  The array of memory regions as the translation table library keeps it: regions sorted so that a
  region inside another comes after it, any two of them nested with the same offset or separate.
\<close>

subsection \<open>Regions as intervals\<close>

definition lo :: "mmap_region \<Rightarrow> nat" where "lo m = unat (base_va m)"
definition hi :: "mmap_region \<Rightarrow> nat" where "hi m = unat (base_va m) + unat (region_size m)"

definition covers :: "nat \<Rightarrow> mmap_region \<Rightarrow> bool" where
  "covers a m \<longleftrightarrow> lo m \<le> a \<and> a < hi m"

definition wf_region :: "xlat_cfg \<Rightarrow> mmap_region \<Rightarrow> bool" where
  "wf_region C m \<longleftrightarrow> region_size m \<noteq> 0 \<and> 4096 dvd unat (base_va m) \<and> 4096 dvd unat (region_size m) \<and>
     hi m \<le> unat (PLAT_VIRT_ADDR_SPACE_SIZE C) \<and> unat (base_pa m) + unat (region_size m) \<le> 2 ^ 48 \<and>
     unat (base_pa m) mod 2 ^ 30 = unat (base_va m) mod 2 ^ 30"

text \<open>The order of the array, with what the overlap checks give of two regions in this order.\<close>

definition region_before :: "mmap_region \<Rightarrow> mmap_region \<Rightarrow> bool" where
  "region_before a b \<longleftrightarrow> (lo a < lo b \<or> lo a = lo b \<and> hi b < hi a) \<and>
     (hi a \<le> lo b \<or> hi b \<le> hi a \<and> base_va a - base_pa a = base_va b - base_pa b)"

definition regions_ok :: "xlat_cfg \<Rightarrow> mmap_region list \<Rightarrow> bool" where
  "regions_ok C rs \<longleftrightarrow> (\<forall>m \<in> set rs. wf_region C m) \<and> sorted_wrt region_before rs"

definition empty_region :: mmap_region where
  "empty_region = \<lparr>base_pa = 0, base_va = 0, region_size = 0, region_attr = 0\<rparr>"

definition mmap_inv :: "xlat_cfg \<Rightarrow> mmap_region list \<Rightarrow> nat \<Rightarrow> xlat_state \<Rightarrow> bool" where
  "mmap_inv C rs k s \<longleftrightarrow> mmap s = rs @ replicate k empty_region \<and> regions_ok C rs"

lemma wf_regionD:
  assumes "wf_region C m" "unat (PLAT_VIRT_ADDR_SPACE_SIZE C) \<le> 2 ^ 48"
  shows "lo m < hi m" "hi m \<le> 2 ^ 48" "unat (base_va m + region_size m - 1) = hi m - 1"
    "unat (base_pa m + region_size m - 1) = unat (base_pa m) + unat (region_size m) - 1"
proof -
  have s: "0 < unat (region_size m)" using assms(1) by (simp add: wf_region_def unat_gt_0)
  then show "lo m < hi m" by (simp add: lo_def hi_def)
  show h: "hi m \<le> 2 ^ 48" using assms by (simp add: wf_region_def)
  have "unat (base_va m + region_size m) = hi m"
    unfolding hi_def by (rule unat_add_less) (use h in \<open>simp add: hi_def\<close>)
  then show "unat (base_va m + region_size m - 1) = hi m - 1" using s by (simp add: unat_pred hi_def)
  have "unat (base_pa m + region_size m) = unat (base_pa m) + unat (region_size m)"
    by (rule unat_add_less) (use assms(1) in \<open>simp add: wf_region_def\<close>)
  then show "unat (base_pa m + region_size m - 1) = unat (base_pa m) + unat (region_size m) - 1"
    using s by (simp add: unat_pred)
qed

text \<open>The overlap check of the code, read on intervals.\<close>

lemma overlap_check_intervals:
  assumes vs: "unat (PLAT_VIRT_ADDR_SPACE_SIZE C) \<le> 2 ^ 48" and wf: "wf_region C n" "wf_region C m"
    and chk: "mmap_overlap_check n m"
  shows "hi n \<le> lo m \<or> hi m \<le> lo n \<or>
    (lo m \<le> lo n \<and> hi n \<le> hi m \<or> lo n \<le> lo m \<and> hi m \<le> hi n) \<and>
    base_va m - base_pa m = base_va n - base_pa n \<and> (lo n \<noteq> lo m \<or> hi n \<noteq> hi m)"
proof -
  note w = wf_regionD [OF wf(1) vs] wf_regionD [OF wf(2) vs]
  have sz: "region_size n \<noteq> region_size m \<Longrightarrow> unat (region_size n) \<noteq> unat (region_size m)" by (simp add: word_unat_eq_iff)
  have bv: "base_va n \<noteq> base_va m \<Longrightarrow> lo n \<noteq> lo m" by (simp add: word_unat_eq_iff lo_def)
  show ?thesis using chk w sz bv
    unfolding mmap_overlap_check_def Let_def word_le_nat_alt word_less_nat_alt
    by (auto simp: lo_def hi_def split: if_splits)
qed

subsection \<open>Adding a region\<close>

text \<open>What the place of a region gives on a sorted array: it comes after the regions before it.\<close>

lemma mmap_place_le: "mmap_place b sz (rs @ replicate k empty_region) \<le> length rs" if "sz \<noteq> 0"
proof -
  let ?P = "\<lambda>m. base_va m < b \<and> region_size m \<noteq> 0"
  have e: "\<not> ?P empty_region" "\<not> (base_va empty_region = b \<and> region_size empty_region > sz)"
    by (simp_all add: empty_region_def)
  have tw: "length (takeWhile Q (xs @ replicate j empty_region)) \<le> length xs" if "\<not> Q empty_region" for Q xs j
    using that by (induction xs) (cases j; simp)+
  let ?n = "length (takeWhile ?P (rs @ replicate k empty_region))"
  have n: "?n \<le> length rs" by (rule tw) (rule e(1))
  have "drop ?n (rs @ replicate k empty_region) = drop ?n rs @ replicate k empty_region" using n by simp
  then show ?thesis unfolding mmap_place_def Let_def
    using tw [of "\<lambda>m. base_va m = b \<and> region_size m > sz" "drop ?n rs" k, OF e(2)] n by simp
qed

lemma mmap_place_before:
  assumes "m \<in> set (take (mmap_place b sz xs) xs)"
  shows "base_va m < b \<or> base_va m = b \<and> region_size m > sz"
proof -
  let ?P = "\<lambda>m. base_va m < b \<and> region_size m \<noteq> 0"
  let ?Q = "\<lambda>m. base_va m = b \<and> region_size m > sz"
  let ?n = "length (takeWhile ?P xs)"
  have "take (mmap_place b sz xs) xs = takeWhile ?P xs @ takeWhile ?Q (drop ?n xs)"
    unfolding mmap_place_def Let_def take_add by (simp add: takeWhile_eq_take [symmetric])
  then show ?thesis using assms by (auto dest: set_takeWhileD)
qed

lemma mmap_place_at:
  assumes "mmap_place b sz xs < length xs"
  shows "\<not> (base_va (xs ! mmap_place b sz xs) = b \<and> region_size (xs ! mmap_place b sz xs) > sz) \<and>
    (base_va (xs ! mmap_place b sz xs) \<ge> b \<or> region_size (xs ! mmap_place b sz xs) = 0 \<or>
     (\<exists>m \<in> set (take (mmap_place b sz xs) xs). base_va m = b))"
proof -
  let ?P = "\<lambda>m. base_va m < b \<and> region_size m \<noteq> 0"
  let ?Q = "\<lambda>m. base_va m = b \<and> region_size m > sz"
  let ?n = "length (takeWhile ?P xs)"
  let ?k = "length (takeWhile ?Q (drop ?n xs))"
  have p: "mmap_place b sz xs = ?n + ?k" by (simp add: mmap_place_def Let_def)
  have "\<not> ?Q (drop ?n xs ! ?k)"
    by (rule nth_length_takeWhile) (use assms p in simp)
  then have q: "\<not> ?Q (xs ! mmap_place b sz xs)" using assms p by simp
  show ?thesis
  proof (cases "?k = 0")
    case True
    have "\<not> ?P (xs ! ?n)" by (rule nth_length_takeWhile) (use assms p in simp)
    with True q p show ?thesis by (auto simp: not_less)
  next
    case False
    then have "takeWhile ?Q (drop ?n xs) \<noteq> []" by simp
    then obtain m where m: "m \<in> set (takeWhile ?Q (drop ?n xs))" using last_in_set by blast
    have "take (mmap_place b sz xs) xs = takeWhile ?P xs @ takeWhile ?Q (drop ?n xs)"
      unfolding p take_add by (simp add: takeWhile_eq_take [symmetric])
    with m have "m \<in> set (take (mmap_place b sz xs) xs)" "base_va m = b" by (auto dest: set_takeWhileD)
    with q show ?thesis by blast
  qed
qed

lemma region_before_lo: "region_before a b \<Longrightarrow> lo a \<le> lo b"
  by (auto simp: region_before_def)

lemma regions_ok_insert:
  assumes vs: "unat (PLAT_VIRT_ADDR_SPACE_SIZE C) \<le> 2 ^ 48" and ok: "regions_ok C rs" and n: "wf_region C n"
    and chk: "\<forall>m \<in> set rs. mmap_overlap_check n m" and k: "0 < k"
  defines "p \<equiv> mmap_place (base_va n) (region_size n) (rs @ replicate k empty_region)"
  shows "regions_ok C (take p rs @ n # drop p rs)"
proof -
  let ?xs = "rs @ replicate k empty_region"
  have n0: "region_size n \<noteq> 0" using n by (simp add: wf_region_def)
  have p: "p \<le> length rs" unfolding p_def by (rule mmap_place_le [OF n0])
  have tk: "take p ?xs = take p rs" using p by simp
  have wf: "wf_region C m" if "m \<in> set rs" for m using ok that by (simp add: regions_ok_def)
  have iv: "hi n \<le> lo m \<or> hi m \<le> lo n \<or>
      (lo m \<le> lo n \<and> hi n \<le> hi m \<or> lo n \<le> lo m \<and> hi m \<le> hi n) \<and>
      base_va m - base_pa m = base_va n - base_pa n \<and> (lo n \<noteq> lo m \<or> hi n \<noteq> hi m)"
    and ne: "lo m < hi m" "lo n < hi n" if "m \<in> set rs" for m
    using overlap_check_intervals [OF vs n wf [OF that]] chk that wf_regionD(1) [OF wf [OF that] vs]
      wf_regionD(1) [OF n vs] by auto
  have srt: "sorted_wrt region_before (take p rs @ drop p rs)" using ok by (simp add: regions_ok_def)
  have bef: "region_before m n" if m: "m \<in> set (take p rs)" for m
  proof -
    have "base_va m < base_va n \<or> base_va m = base_va n \<and> region_size m > region_size n"
      using mmap_place_before [of m "base_va n" "region_size n" ?xs] m tk by (simp add: p_def)
    then have "lo m < lo n \<or> lo m = lo n \<and> hi n < hi m" by (auto simp: lo_def hi_def word_less_nat_alt)
    then show ?thesis using iv [of m] ne [of m] in_set_takeD [OF m] by (auto simp: region_before_def)
  qed
  have aft: "region_before n m" if m: "m \<in> set (drop p rs)" for m
  proof -
    have pl: "p < length rs" using m by (cases "p < length rs") auto
    let ?x = "rs ! p"
    have x: "?xs ! p = ?x" "?x \<in> set rs" using pl by (simp_all add: nth_append)
    have lox: "lo n \<le> lo ?x"
    proof -
      have "base_va ?x \<ge> base_va n \<or> (\<exists>m \<in> set (take p rs). base_va m = base_va n)"
        using mmap_place_at [of "base_va n" "region_size n" ?xs] wf [OF x(2)] pl x(1) tk
        by (auto simp: p_def wf_region_def)
      moreover have "lo m \<le> lo ?x" if "m \<in> set (take p rs)" for m
        using srt that pl by (intro region_before_lo) (auto simp: sorted_wrt_append Cons_nth_drop_Suc [symmetric])
      ultimately show ?thesis unfolding lo_def word_le_nat_alt by fastforce
    qed
    have "lo ?x = lo n \<Longrightarrow> hi ?x \<le> hi n"
      using mmap_place_at [of "base_va n" "region_size n" ?xs] pl x(1)
      by (auto simp: p_def lo_def hi_def word_less_nat_alt word_unat_eq_iff not_less)
    then have nx: "lo n < lo ?x \<or> lo n = lo ?x \<and> hi ?x < hi n" using lox iv [OF x(2)] ne [OF x(2)] by linarith
    have "m = ?x \<or> region_before ?x m"
      using srt m pl by (auto simp: sorted_wrt_append Cons_nth_drop_Suc [symmetric])
    then have "lo n < lo m \<or> lo n = lo m \<and> hi m < hi n" using nx by (auto simp: region_before_def)
    then show ?thesis using iv [of m] ne [of m] in_set_dropD [OF m] by (auto simp: region_before_def)
  qed
  have "sorted_wrt region_before (take p rs @ n # drop p rs)"
    using srt [unfolded sorted_wrt_append] bef aft by (auto simp: sorted_wrt_append)
  then show ?thesis using ok n by (auto simp: regions_ok_def dest: in_set_takeD in_set_dropD)
qed

lemma mmap_add_region_inv:
  assumes vs: "unat (PLAT_VIRT_ADDR_SPACE_SIZE C) \<le> 2 ^ 48" and inv: "mmap_inv C rs (Suc k) s"
    and n: "wf_region C n" and chk: "\<forall>m \<in> set rs. mmap_overlap_check n m"
  shows "\<exists>rs' s'. mmap_add_region (base_pa n) (base_va n) (region_size n) (region_attr n) s = Some s' \<and>
    mmap_inv C rs' k s' \<and> set rs' = insert n (set rs) \<and> length rs' = Suc (length rs)"
proof -
  let ?xs = "rs @ replicate (Suc k) empty_region"
  let ?p = "mmap_place (base_va n) (region_size n) ?xs"
  have sz: "region_size n \<noteq> 0" using n by (simp add: wf_region_def)
  have p: "?p \<le> length rs" by (rule mmap_place_le [OF sz])
  have mm: "mmap s = ?xs" and ok: "regions_ok C rs" using inv by (simp_all only: mmap_inv_def)
  have bl: "butlast ?xs = rs @ replicate k empty_region"
    by (simp add: butlast_append replicate_append_same [symmetric] del: replicate_append_same)
  have ok': "regions_ok C (take ?p rs @ n # drop ?p rs)"
    using regions_ok_insert [OF vs ok n chk, of "Suc k"] by simp
  have "set (take ?p rs) \<union> set (drop ?p rs) = set rs"
    by (metis append_take_drop_id set_append)
  then have st: "set (take ?p rs @ n # drop ?p rs) = insert n (set rs)" by auto
  have nn: "\<lparr>base_pa = base_pa n, base_va = base_va n, region_size = region_size n, region_attr = region_attr n\<rparr> = n"
    by simp
  show ?thesis
  proof (intro exI conjI)
    show "mmap_add_region (base_pa n) (base_va n) (region_size n) (region_attr n) s =
      Some (s\<lparr>mmap := (take ?p rs @ n # drop ?p rs) @ replicate k empty_region,
        xlat_max_pa := max (xlat_max_pa s) (base_pa n + region_size n - 1),
        xlat_max_va := max (xlat_max_va s) (base_va n + region_size n - 1)\<rparr>)"
      using p sz by (simp add: mmap_add_region_def Let_def mm bl max_def not_less del: replicate_Suc)
    show "set (take ?p rs @ n # drop ?p rs) = insert n (set rs)" by (rule st)
    show "length (take ?p rs @ n # drop ?p rs) = Suc (length rs)" using p by simp
  qed (use ok' in \<open>simp add: mmap_inv_def\<close>)
qed

subsection \<open>The innermost region\<close>

text \<open>The last region of the array that covers an address.\<close>

fun innermost :: "mmap_region list \<Rightarrow> nat \<Rightarrow> mmap_region option" where
  "innermost [] a = None"
| "innermost (m # rs) a =
     (case innermost rs a of Some x \<Rightarrow> Some x | None \<Rightarrow> if covers a m then Some m else None)"

lemma innermost_SomeD: "innermost rs a = Some m \<Longrightarrow> m \<in> set rs \<and> covers a m"
  by (induction rs) (auto split: option.splits if_splits)

lemma innermost_None_iff: "innermost rs a = None \<longleftrightarrow> (\<forall>m \<in> set rs. \<not> covers a m)"
  by (induction rs) (auto split: option.splits)

lemma innermost_past: "\<forall>m \<in> set xs. hi m \<le> a \<Longrightarrow> innermost (xs @ ys) a = innermost ys a"
  by (induction xs) (auto simp: covers_def split: option.splits)

text \<open>It is the smallest one: it lies inside every other region that covers the address.\<close>

lemma innermost_smallest:
  assumes "sorted_wrt region_before rs" "innermost rs a = Some m" "n \<in> set rs" "covers a n"
  shows "lo n \<le> lo m \<and> hi m \<le> hi n \<and> base_va n - base_pa n = base_va m - base_pa m"
  using assms
proof (induction rs)
  case (Cons r rs)
  show ?case
  proof (cases "innermost rs a")
    case None
    with Cons.prems show ?thesis by (auto simp: innermost_None_iff split: if_splits)
  next
    case (Some x)
    then have x: "x = m" using Cons.prems(2) by simp
    have m: "m \<in> set rs" "covers a m" using innermost_SomeD [OF Some] x by auto
    show ?thesis
    proof (cases "n \<in> set rs")
      case True
      with Cons Some x show ?thesis by simp
    next
      case False
      with Cons.prems have "n = r" by simp
      with Cons.prems m show ?thesis by (auto simp: region_before_def covers_def)
    qed
  qed
qed simp

subsection \<open>The attributes of an area\<close>

text \<open>An area of virtual addresses as the code passes it, with its bounds.\<close>

definition area :: "u64 \<Rightarrow> u64 \<Rightarrow> nat \<Rightarrow> nat \<Rightarrow> bool" where
  "area b sz l h \<longleftrightarrow> unat b = l \<and> h = l + unat sz \<and> 0 < unat sz \<and> h \<le> 2 ^ 48"

lemma area_end: "area b sz l h \<Longrightarrow> unat (b + sz - 1) = h - 1"
proof -
  assume a: "area b sz l h"
  then have "unat (b + sz) = h" by (simp add: area_def unat_add_less)
  then show ?thesis using a by (simp add: unat_pred area_def)
qed

lemma area_simps:
  assumes vs: "unat (PLAT_VIRT_ADDR_SPACE_SIZE C) \<le> 2 ^ 48" and "area b sz l h" "wf_region C m"
  shows "base_va m > b + sz - 1 \<longleftrightarrow> h \<le> lo m"
    "base_va m + region_size m - 1 < b \<longleftrightarrow> hi m \<le> l"
    "base_va m > b \<longleftrightarrow> l < lo m"
    "base_va m + region_size m - 1 < b + sz - 1 \<longleftrightarrow> hi m < h"
    "region_size m \<noteq> 0"
  using assms(2) area_end [OF assms(2)] wf_regionD [OF assms(3) vs] assms(3)
  by (auto simp: word_less_nat_alt area_def lo_def wf_region_def)

lemma empty_region_attr [simp]: "mmap_region_attr (replicate (Suc k) empty_region) b sz ret = Some ret"
  by (simp add: empty_region_def)

lemma region_attr_sound:
  assumes vs: "unat (PLAT_VIRT_ADDR_SPACE_SIZE C) \<le> 2 ^ 48" and ar: "area b sz l h"
    and "regions_ok C rs" "mmap_region_attr (rs @ replicate (Suc k) empty_region) b sz ret = Some (Some a)"
    "l \<le> v" "v < h"
  shows "case innermost rs v of None \<Rightarrow> ret = Some a | Some m \<Rightarrow> region_attr m = a"
  using assms(3-)
proof (induction rs arbitrary: ret)
  case (Cons m rs)
  have wf: "wf_region C m" and ok: "regions_ok C rs" and bef: "\<forall>n \<in> set rs. lo m \<le> lo n"
    using Cons.prems(1) region_before_lo by (auto simp: regions_ok_def)
  note s = area_simps [OF vs ar wf]
  show ?case
  proof (cases "h \<le> lo m")
    case True
    then have "\<forall>n \<in> set (m # rs). \<not> covers v n" using bef Cons.prems by (fastforce simp: covers_def)
    then have "innermost (m # rs) v = None" by (simp only: innermost_None_iff)
    then show ?thesis using True Cons.prems s by simp
  next
    case False
    show ?thesis using Cons.prems False s Cons.IH [OF ok]
      by (fastforce simp: covers_def split: option.splits if_splits)
  qed
qed (simp del: replicate_Suc)

lemma region_attr_covers:
  assumes vs: "unat (PLAT_VIRT_ADDR_SPACE_SIZE C) \<le> 2 ^ 48" and ar: "area b sz l h"
    and "regions_ok C (m # rs)" "lo m < h" "l < hi m"
    "mmap_region_attr ((m # rs) @ replicate (Suc k) empty_region) b sz None = Some (Some a)"
  shows "lo m \<le> l \<and> h \<le> hi m"
proof -
  have "wf_region C m" using assms(3) by (simp add: regions_ok_def)
  from area_simps [OF vs ar this] assms show ?thesis by (auto split: if_splits)
qed

lemma region_attr_total:
  assumes vs: "unat (PLAT_VIRT_ADDR_SPACE_SIZE C) \<le> 2 ^ 48" and ar: "area b sz l h"
    and "regions_ok C rs"
  shows "\<exists>x. mmap_region_attr (rs @ replicate (Suc k) empty_region) b sz ret = Some x"
  using assms(3) by (induction rs arbitrary: ret) (auto simp: regions_ok_def simp del: replicate_Suc)

lemma region_attr_complete:
  assumes vs: "unat (PLAT_VIRT_ADDR_SPACE_SIZE C) \<le> 2 ^ 48" and ar: "area b sz l h"
    and "regions_ok C rs" "\<forall>m \<in> set rs. hi m \<le> l \<or> h \<le> lo m \<or> lo m \<le> l \<and> h \<le> hi m"
  shows "\<exists>a. mmap_region_attr (rs @ replicate (Suc k) empty_region) b sz (Some a0) = Some (Some a)"
  using assms(3-)
proof (induction rs arbitrary: a0)
  case (Cons m rs)
  have "wf_region C m" and ok: "regions_ok C rs" using Cons.prems(1) by (simp_all add: regions_ok_def)
  from area_simps [OF vs ar this(1)] Cons.prems Cons.IH [OF ok] show ?case by auto
qed (simp del: replicate_Suc)

text \<open>The search fails only on a region that ends or begins inside the area.\<close>

lemma region_attr_partial:
  assumes vs: "unat (PLAT_VIRT_ADDR_SPACE_SIZE C) \<le> 2 ^ 48" and ar: "area b sz l h"
    and ok: "regions_ok C (m # rs)" and hd: "lo m < h" "l < hi m"
    and r: "mmap_region_attr ((m # rs) @ replicate (Suc k) empty_region) b sz None = Some None"
  shows "\<exists>n \<in> set (m # rs). l < lo n \<and> lo n < h \<or> l < hi n \<and> hi n < h"
proof (rule ccontr)
  assume c: "\<not> ?thesis"
  have wf: "wf_region C n" if "n \<in> set (m # rs)" for n using ok that by (simp only: regions_ok_def)
  have all: "\<forall>n \<in> set (m # rs). hi n \<le> l \<or> h \<le> lo n \<or> lo n \<le> l \<and> h \<le> hi n"
    using c by (meson not_le)
  have ok': "regions_ok C rs" using ok by (simp add: regions_ok_def)
  have "\<exists>a. mmap_region_attr (rs @ replicate (Suc k) empty_region) b sz (Some (region_attr m)) = Some (Some a)"
    by (rule region_attr_complete [OF vs ar ok']) (use all in simp)
  then show False using r hd all area_simps [OF vs ar wf [of m]] by auto
qed

end
