(* ===== verification/Xlat_Walk.thy ===== *)
theory Xlat_Walk
  imports Xlat_Regions
begin

unbundle bit_operations_syntax

text \<open>
  What the tables mean: the table walk of the AArch64 architecture with a 4KB granule, and the proof that
  walking the tables the library builds gives the innermost region around the address.
\<close>

subsection \<open>Descriptors\<close>

lemma mmap_desc_pa: "mmap_desc xn a pa level = pa OR mmap_desc xn a 0 level"
  by (simp add: mmap_desc_def Let_def or.assoc)

definition xn_bits :: "u64 set" where
  "xn_bits = {UPPER_ATTRS XN, UPPER_ATTRS PXN}"

lemma xn_desc_bits [simp]: "xlat_arch_get_xn_desc el \<in> xn_bits"
  by (simp add: xlat_arch_get_xn_desc_def xn_bits_def)

lemma desc_attr_addr: "xn \<in> xn_bits \<Longrightarrow> mmap_desc xn a 0 level AND 0x0000FFFFFFFFF800 = 0"
  by (auto simp: mmap_desc_def Let_def xlat_const_defs xn_bits_def)

lemma desc_attr_type:
  "xn \<in> xn_bits \<Longrightarrow> mmap_desc xn a 0 level AND 3 = (if level = 3 then 3 else 1)"
  by (auto simp: mmap_desc_def Let_def xlat_const_defs xn_bits_def XLAT_TABLE_LEVEL_MAX_def)

lemma mmap_desc_type:
  assumes "xn \<in> xn_bits" "pa AND 3 = 0"
  shows "mmap_desc xn a pa level AND 3 = (if level = 3 then 3 else 1)"
  using desc_attr_type [OF assms(1), of a level] assms(2)
  by (subst mmap_desc_pa) (simp only: bit.conj_disj_distrib2 or.left_neutral)

subsection \<open>Levels\<close>

definition lsz :: "nat \<Rightarrow> nat" where "lsz level = 2 ^ level_size_shift level"

lemma lsz_values: "lsz 0 = 2 ^ 39" "lsz (Suc 0) = 2 ^ 30" "lsz 2 = 2 ^ 21" "lsz 3 = 2 ^ 12"
  by (simp_all add: lsz_def level_size_shift_def level_defs)

lemma lsz_pos [simp]: "0 < lsz level"
  by (simp add: lsz_def)

lemma lsz_le: "lsz level \<le> 2 ^ 39"
  unfolding lsz_def by (rule power_increasing) (simp_all add: level_size_shift_def level_defs)

lemma lsz_Suc: "level < 3 \<Longrightarrow> lsz level = 512 * lsz (Suc level)"
  by (auto simp: less_Suc_eq numeral_3_eq_3 lsz_def level_size_shift_def level_defs)

lemma unat_level_size: "unat (level_size level) = lsz level"
  unfolding level_size_def lsz_def by (rule unat_push_bit_1) (simp add: level_size_shift_def level_defs)

lemma table_index_nat: "table_index level b = unat b div lsz level mod 512"
  by (simp add: table_index_def lsz_def unat_drop_bit_div)

lemma lsz_dvd_GB: "1 \<le> level \<Longrightarrow> lsz level dvd 2 ^ 30"
  unfolding lsz_def by (rule le_imp_power_dvd) (simp add: level_size_shift_def level_defs)

lemma page_dvd_lsz: "level \<le> 3 \<Longrightarrow> 4096 dvd lsz level"
proof -
  assume "level \<le> 3"
  then have "(2 :: nat) ^ 12 dvd lsz level"
    unfolding lsz_def by (intro le_imp_power_dvd) (simp add: level_size_shift_def level_defs)
  then show ?thesis by simp
qed

subsection \<open>The table walk\<close>

definition out_addr :: "nat \<Rightarrow> u64 \<Rightarrow> u64 \<Rightarrow> u64" where
  "out_addr level d v =
     ((d AND 0x0000FFFFFFFFF000) AND NOT (mask (level_size_shift level))) OR (v AND mask (level_size_shift level))"

definition desc_table :: "xlat_cfg \<Rightarrow> u64 \<Rightarrow> table" where
  "desc_table C d = Xlat (unat ((d AND 0x0000FFFFFFFFF000) - xlat_tables_addr C) div 4096)"

text \<open>The leaf descriptor of an address and its level; \<open>None\<close> is a translation fault.\<close>

function xlat_walk ::
    "xlat_cfg \<Rightarrow> (table \<Rightarrow> nat \<Rightarrow> u64) \<Rightarrow> nat \<Rightarrow> table \<Rightarrow> u64 \<Rightarrow> (nat \<times> u64) option" where
  "xlat_walk C T level t v =
     (let d = T t (table_index level v) in
      if d AND 1 = 0 then None
      else if level \<ge> 3 then (if d AND 3 = 3 then Some (level, d) else None)
      else if d AND 3 = 1 then (if level = 0 then None else Some (level, d))
      else xlat_walk C T (level + 1) (desc_table C d) v)"
  by pat_completeness auto
termination by (relation "measure (\<lambda>(C, T, level, t, v). 3 - level)") auto

declare xlat_walk.simps [simp del]

definition cfg_ok :: "xlat_cfg \<Rightarrow> bool" where
  "cfg_ok C \<longleftrightarrow> 4096 dvd unat (xlat_tables_addr C) \<and>
     unat (xlat_tables_addr C) + MAX_XLAT_TABLES C * 4096 \<le> 2 ^ 48 \<and>
     (\<exists>w \<in> {25..48}. PLAT_VIRT_ADDR_SPACE_SIZE C = push_bit w 1)"

lemma cfg_okD:
  assumes "cfg_ok C"
  shows "unat (PLAT_VIRT_ADDR_SPACE_SIZE C) \<le> 2 ^ 48" "0 < unat (PLAT_VIRT_ADDR_SPACE_SIZE C)"
proof -
  obtain w where w: "25 \<le> w" "w \<le> 48" "PLAT_VIRT_ADDR_SPACE_SIZE C = push_bit w 1"
    using assms by (auto simp: cfg_ok_def)
  then have "unat (PLAT_VIRT_ADDR_SPACE_SIZE C) = 2 ^ w" using unat_push_bit_1 [of w, where 'a = 64] by simp
  then show "unat (PLAT_VIRT_ADDR_SPACE_SIZE C) \<le> 2 ^ 48" "0 < unat (PLAT_VIRT_ADDR_SPACE_SIZE C)"
    using w power_increasing [of w 48 "2 :: nat"] by simp_all
qed

lemma aligned_bit:
  fixes a :: "'a :: len word"
  assumes "2 ^ k dvd unat a" "bit a n"
  shows "k \<le> n"
proof (rule ccontr)
  assume "\<not> k \<le> n"
  then have "bit (take_bit k a) n" using assms(2) by (simp add: bit_simps)
  moreover have "unat (take_bit k a) = 0"
    using assms(1) by (simp add: unsigned_take_bit_eq take_bit_eq_mod [where 'a = nat])
  ultimately show False by (simp add: unat_eq_zero)
qed

lemma small_bit:
  fixes a :: "'a :: len word"
  assumes "unat a < 2 ^ k" "bit a n"
  shows "n < k"
proof -
  have "unat (take_bit k a) = unat a"
    using assms(1) by (simp add: unsigned_take_bit_eq take_bit_eq_mod [where 'a = nat])
  then have "take_bit k a = a" by (simp add: word_unat_eq_iff)
  then show ?thesis using assms(2) by (metis bit_take_bit_iff)
qed

lemma addr_mask: "(0x0000FFFFFFFFF000 :: u64) = mask 48 AND NOT (mask 12)"
  by (simp add: mask_eq_exp_minus_1)

text \<open>A page-aligned address below 48 bits has only address bits.\<close>

lemma aligned_addr:
  fixes a :: u64
  assumes "4096 dvd unat a" "unat a < 2 ^ 48"
  shows "a AND 0x0000FFFFFFFFF000 = a" "a AND 3 = 0"
proof -
  have lb: "12 \<le> n" "n < 48" if "bit a n" for n
    using aligned_bit [of 12 a n] small_bit [of a 48 n] that assms by simp_all
  show "a AND 0x0000FFFFFFFFF000 = a"
    unfolding addr_mask using lb by (intro bit_word_eqI) (force simp: bit_simps)
  have "(3 :: u64) = mask 2" by (simp add: mask_eq_exp_minus_1)
  moreover have "a AND mask 2 = 0" using lb by (intro bit_word_eqI) (force simp: bit_simps)
  ultimately show "a AND 3 = 0" by simp
qed

lemma desc_table_addr:
  assumes C: "cfg_ok C" and k: "k < MAX_XLAT_TABLES C"
  shows "desc_table C (TABLE_DESC OR table_addr C k) = Xlat k"
    and "(TABLE_DESC OR table_addr C k) AND 3 = 3" "(TABLE_DESC OR table_addr C k) AND 1 = 1"
proof -
  let ?a = "table_addr C k"
  have b: "unat (xlat_tables_addr C) + MAX_XLAT_TABLES C * 4096 \<le> 2 ^ 48" using C by (simp add: cfg_ok_def)
  have k': "k * 4096 + 4096 \<le> MAX_XLAT_TABLES C * 4096" using k by simp
  have "unat (of_nat k :: u64) = k" using b k' by (simp add: unat_of_nat)
  then have m: "unat (of_nat k * XLAT_TABLE_SIZE) = k * 4096"
    using b k' by (simp add: XLAT_TABLE_SIZE_def unat_mult_lem [THEN iffD1])
  have u: "unat ?a = unat (xlat_tables_addr C) + k * 4096"
    unfolding table_addr_def using m b k' by (simp add: unat_add_less)
  have al: "4096 dvd unat ?a" "unat ?a < 2 ^ 48" using u C b k' by (simp_all add: cfg_ok_def)
  have t: "(TABLE_DESC OR ?a) AND 0x0000FFFFFFFFF000 = ?a"
    using aligned_addr(1) [OF al] by (simp add: TABLE_DESC_def bit.conj_disj_distrib2)
  have "?a - xlat_tables_addr C = of_nat k * XLAT_TABLE_SIZE" by (simp add: table_addr_def)
  then show "desc_table C (TABLE_DESC OR ?a) = Xlat k" unfolding desc_table_def t by (simp add: m)
  show "(TABLE_DESC OR ?a) AND 3 = 3" using aligned_addr(2) [OF al]
    by (simp add: TABLE_DESC_def bit.conj_disj_distrib2)
  then have "((TABLE_DESC OR ?a) AND 3) AND 1 = 3 AND 1" by simp
  then show "(TABLE_DESC OR ?a) AND 1 = 1" by (simp add: and.assoc)
qed


subsection \<open>Leaf entries\<close>

text \<open>
  What a walk has to give for an address: a fault where no region covers it, and otherwise a leaf
  with the attributes of the innermost region that translates the address by the offset of that region.
\<close>

definition maps_to :: "u64 \<Rightarrow> u64 \<Rightarrow> mmap_region option \<Rightarrow> (nat \<times> u64) option \<Rightarrow> bool" where
  "maps_to xn v r w =
     (case r of
        None \<Rightarrow> w = None
      | Some m \<Rightarrow> (\<exists>level pa. level \<in> {1..3} \<and> w = Some (level, mmap_desc xn (region_attr m) pa level) \<and>
          out_addr level (mmap_desc xn (region_attr m) pa level) v = v - base_va m + base_pa m))"

lemma out_addr_desc:
  assumes xn: "xn \<in> xn_bits" and level: "1 \<le> level" "level \<le> 3"
    and al: "lsz level dvd unat pa" "unat pa < 2 ^ 48"
  shows "out_addr level (mmap_desc xn a pa level) v = pa + (v AND mask (level_size_shift level))"
proof -
  let ?s = "level_size_shift level" and ?D = "mmap_desc xn a 0 level"
  have pg: "4096 dvd unat pa" using al(1) page_dvd_lsz [OF level(2)] dvd_trans by blast
  have "(pa OR ?D) AND 0x0000FFFFFFFFF000 = pa"
  proof -
    have "?D AND 0x0000FFFFFFFFF000 = (?D AND 0x0000FFFFFFFFF800) AND 0x0000FFFFFFFFF000"
      by (simp add: and.assoc)
    then show ?thesis using aligned_addr(1) [OF pg al(2)] desc_attr_addr [OF xn, of a level]
      by (simp add: bit.conj_disj_distrib2)
  qed
  moreover have "pa AND NOT (mask ?s) = pa"
    using aligned_bit [of ?s pa] al(1) unfolding lsz_def by (intro bit_word_eqI) (force simp: bit_simps)
  ultimately have "out_addr level (mmap_desc xn a pa level) v = pa OR (v AND mask ?s)"
    unfolding out_addr_def mmap_desc_pa [of xn a pa] by simp
  also have "\<dots> = pa + (v AND mask ?s)"
    using aligned_bit [of ?s pa] al(1) unfolding lsz_def
    by (intro disjunctive_add [symmetric]) (force simp: bit_simps)
  finally show ?thesis .
qed

text \<open>
  The entry of an area \<open>[l, l + lsz level)\<close> whose remaining regions do not all lie before it:
  a leaf translates every address of the area, and otherwise a finer table is asked for, below
  level 3 only and only for an area that the first region meets.
\<close>

lemma area_level:
  assumes "cfg_ok C" "lsz level dvd unat b" "unat b < unat (PLAT_VIRT_ADDR_SPACE_SIZE C)"
    "lsz level dvd unat (PLAT_VIRT_ADDR_SPACE_SIZE C)"
  shows "unat b + lsz level \<le> unat (PLAT_VIRT_ADDR_SPACE_SIZE C)"
    and "area b (level_size level) (unat b) (unat b + lsz level)"
    and "unat (b + level_size level) = unat b + lsz level"
proof -
  obtain q r where q: "unat b = q * lsz level" "unat (PLAT_VIRT_ADDR_SPACE_SIZE C) = r * lsz level"
    using assms(2,4) by (metis dvd_def mult.commute)
  then have "q < r" using assms(3) by simp
  then have "Suc q * lsz level \<le> r * lsz level" by (intro mult_le_mono1) simp
  then show le: "unat b + lsz level \<le> unat (PLAT_VIRT_ADDR_SPACE_SIZE C)" using q by simp
  show "area b (level_size level) (unat b) (unat b + lsz level)"
    using le cfg_okD(1) [OF assms(1)] by (simp add: area_def unat_level_size)
  show "unat (b + level_size level) = unat b + lsz level"
    using le cfg_okD(1) [OF assms(1)] by (subst unat_add_less) (simp_all add: unat_level_size)
qed

lemma offset_in_area:
  fixes v b :: u64
  assumes "lsz level dvd unat b" "unat b \<le> unat v" "unat v < unat b + lsz level"
  shows "b + (v AND mask (level_size_shift level)) = v"
proof -
  obtain q where q: "unat b = lsz level * q" using assms(1) by (auto simp: dvd_def)
  have "unat v mod lsz level = unat v - unat b"
  proof -
    have "unat v = lsz level * q + (unat v - unat b)" using assms(2) q by simp
    then have "unat v mod lsz level = (unat v - unat b) mod lsz level" by (metis mod_mult_self4)
    moreover have "unat v - unat b < lsz level" using assms(2,3) by linarith
    ultimately show ?thesis by simp
  qed
  then have "unat (v AND mask (level_size_shift level)) = unat v - unat b"
    by (simp add: unat_and_mask lsz_def)
  then have "unat (b + (v AND mask (level_size_shift level))) = unat v"
    using assms(2) unsigned_less [of v, where 'a = nat] by (subst unat_add_less) simp_all
  then show ?thesis by (simp add: word_unat_eq_iff)
qed

lemma block_pa:
  assumes C: "cfg_ok C" and m: "wf_region C m" and level: "1 \<le> level"
    and b: "lsz level dvd unat b" "lo m \<le> unat b" "unat b + lsz level \<le> hi m"
  shows "unat (b - base_va m + base_pa m) = unat b - lo m + unat (base_pa m)"
    and "lsz level dvd unat (b - base_va m + base_pa m)" and "unat (b - base_va m + base_pa m) < 2 ^ 48"
proof -
  have s: "unat b - lo m + unat (base_pa m) < 2 ^ 48"
    using m b(2,3) lsz_pos [of level] unfolding wf_region_def lo_def hi_def by linarith
  have "unat (b - base_va m) = unat b - lo m" using b(2) by (simp add: lo_def unat_sub_le)
  then show u: "unat (b - base_va m + base_pa m) = unat b - lo m + unat (base_pa m)"
    using s by (subst unat_add_less) simp_all
  then show "unat (b - base_va m + base_pa m) < 2 ^ 48" using s by simp
  have "unat (base_pa m) mod 2 ^ 30 = lo m mod 2 ^ 30" using m by (simp add: wf_region_def lo_def)
  then have "unat (base_pa m) mod lsz level = lo m mod lsz level"
    by (metis mod_mod_cancel [OF lsz_dvd_GB [OF level]])
  moreover have "(unat b - lo m + lo m) mod lsz level = 0" using b by simp
  ultimately have "(unat b - lo m + unat (base_pa m)) mod lsz level = 0" by (metis mod_add_right_eq)
  then show "lsz level dvd unat (b - base_va m + base_pa m)" unfolding u by (simp add: mod_eq_0_iff_dvd)
qed

text \<open>The remaining regions of an array, with its end.\<close>

definition region_tail :: "mmap_region list \<Rightarrow> nat \<Rightarrow> mmap_region list" where
  "region_tail rs k = rs @ replicate (Suc k) empty_region"

definition not_passed :: "mmap_region list \<Rightarrow> nat \<Rightarrow> bool" where
  "not_passed rs l \<longleftrightarrow> (\<forall>m ms. rs = m # ms \<longrightarrow> l < hi m)"

lemma area_desc_leaf:
  assumes C: "cfg_ok C" and ok: "regions_ok C rs" and np: "not_passed rs (unat b)" and xn: "xn \<in> xn_bits"
    and b: "lsz level dvd unat b" "unat b < unat (PLAT_VIRT_ADDR_SPACE_SIZE C)" "lsz level dvd unat (PLAT_VIRT_ADDR_SPACE_SIZE C)"
    and level: "level \<le> 3" and mm: "region_tail rs k = m # mm"
    and d: "area_desc xn m mm b level = Some d" "d \<noteq> UNSET_DESC"
    and v: "unat b \<le> unat v" "unat v < unat b + lsz level"
  shows "(d = INVALID_DESC \<and> innermost rs (unat v) = None) \<or>
    (\<exists>n pa. innermost rs (unat v) = Some n \<and> 1 \<le> level \<and> d = mmap_desc xn (region_attr n) pa level \<and>
       d AND 3 = (if level = 3 then 3 else 1) \<and> out_addr level d v = v - base_va n + base_pa n)"
proof (cases rs)
  case Nil
  then have "m = empty_region" "mm = replicate k empty_region" using mm by (auto simp: region_tail_def)
  then show ?thesis using d Nil
    by (auto simp: area_desc_def Let_def empty_region_def split: if_splits option.splits)
next
  case (Cons m' rs')
  then have m: "m' = m" and mm': "mm = rs' @ replicate (Suc k) empty_region"
    using mm by (auto simp: region_tail_def)
  have wf: "wf_region C m" using ok Cons m by (simp add: regions_ok_def)
  note vs = cfg_okD(1) [OF C]
  note ar = area_level(2) [OF C b(1-3)]
  note s = area_simps [OF vs ar wf]
  have hi: "unat b < hi m" using np Cons m by (simp add: not_passed_def)
  show ?thesis
  proof (cases "unat b + lsz level \<le> lo m")
    case True
    then have "d = INVALID_DESC" using d s by (simp add: area_desc_def Let_def)
    moreover have "\<forall>n \<in> set rs. lo m \<le> lo n"
      using ok Cons m region_before_lo by (auto simp: regions_ok_def)
    then have "innermost rs (unat v) = None"
      using True v by (fastforce simp: innermost_None_iff covers_def)
    ultimately show ?thesis by simp
  next
    case False
    have r: "\<exists>a. mmap_region_attr (rs @ replicate (Suc k) empty_region) b (level_size level) None = Some (Some a) \<and>
        d = mmap_desc xn a (b - base_va m + base_pa m) level \<and> 1 \<le> level"
      using d s False Cons m mm' unfolding area_desc_def Let_def
      by (auto simp: XLAT_BLOCK_LEVEL_MIN_def split: if_splits option.splits simp del: mmap_region_attr.simps replicate_Suc)
    then obtain a where a: "mmap_region_attr (rs @ replicate (Suc k) empty_region) b (level_size level) None = Some (Some a)"
      and dd: "d = mmap_desc xn a (b - base_va m + base_pa m) level" and l1: "1 \<le> level" by blast
    have cov: "lo m \<le> unat b" "unat b + lsz level \<le> hi m"
      using region_attr_covers [OF vs ar, of m rs' k a] ok Cons m False hi a by simp_all
    obtain n where n: "innermost rs (unat v) = Some n" "region_attr n = a"
      using region_attr_sound [OF vs ar ok a v(1,2)] by (auto split: option.splits)
    note pa = block_pa [OF C wf l1 b(1) cov]
    have pg: "4096 dvd unat (b - base_va m + base_pa m)" using pa(2) page_dvd_lsz [OF level] dvd_trans by blast
    have "base_va m - base_pa m = base_va n - base_pa n"
      using innermost_smallest [of rs "unat v" n m] ok n Cons m cov v by (auto simp: regions_ok_def covers_def)
    moreover have "out_addr level d v = (b - base_va m + base_pa m) + (v AND mask (level_size_shift level))"
      unfolding dd by (rule out_addr_desc [OF xn l1 level pa(2,3)])
    moreover note offset_in_area [OF b(1) v]
    ultimately have "out_addr level d v = v - base_va n + base_pa n" by (metis (no_types) add.commute add_diff_eq diff_add_eq diff_diff_eq2)
    then show ?thesis
      using n l1 dd mmap_desc_type [OF xn aligned_addr(2) [OF pg pa(3)], of a level] by blast
  qed
qed

lemma mmap_desc_not_unset:
  assumes xn: "xn \<in> xn_bits" and pa: "4096 dvd unat pa"
  shows "mmap_desc xn a pa level \<noteq> UNSET_DESC"
proof
  assume "mmap_desc xn a pa level = UNSET_DESC"
  then have "bit (pa OR mmap_desc xn a 0 level) 11" by (simp add: UNSET_DESC_def flip: mmap_desc_pa)
  moreover have "\<not> bit pa 11" using aligned_bit [of 12 pa 11] pa by auto
  moreover have "\<not> bit (mmap_desc xn a 0 level) 11"
  proof
    assume "bit (mmap_desc xn a 0 level) 11"
    then have "bit (mmap_desc xn a 0 level AND 0x0000FFFFFFFFF800) 11" by (simp add: bit_and_iff)
    then show False by (simp add: desc_attr_addr [OF xn])
  qed
  ultimately show False by (simp add: bit_or_iff)
qed

lemma page_area:
  assumes "regions_ok C rs" "4096 dvd l" "n \<in> set rs"
  shows "hi n \<le> l \<or> l + 4096 \<le> lo n \<or> lo n \<le> l \<and> l + 4096 \<le> hi n"
proof -
  have al: "4096 dvd lo n" "4096 dvd hi n"
    using assms by (auto simp: regions_ok_def wf_region_def lo_def hi_def)
  then obtain p q r where "l = 4096 * p" "lo n = 4096 * q" "hi n = 4096 * r" using assms(2) by (auto simp: dvd_def)
  then show ?thesis by simp arith
qed

definition needs_table :: "mmap_region list \<Rightarrow> nat \<Rightarrow> nat \<Rightarrow> bool" where
  "needs_table rs level l \<longleftrightarrow>
     (\<exists>n \<in> set rs. if level = 0 then lo n < l + lsz level \<and> l < hi n
        else l < lo n \<and> lo n < l + lsz level \<or> l < hi n \<and> hi n < l + lsz level)"

lemma area_desc_total:
  assumes C: "cfg_ok C" and ok: "regions_ok C rs" and np: "not_passed rs (unat b)" and xn: "xn \<in> xn_bits"
    and b: "lsz level dvd unat b" "unat b < unat (PLAT_VIRT_ADDR_SPACE_SIZE C)" "lsz level dvd unat (PLAT_VIRT_ADDR_SPACE_SIZE C)"
    and level: "level \<le> 3" and mm: "region_tail rs k = m # mm"
  shows "\<exists>d. area_desc xn m mm b level = Some d \<and>
    (d = UNSET_DESC \<longrightarrow> level < 3 \<and> needs_table rs level (unat b))"
proof (cases rs)
  case Nil
  then have "m = empty_region" "mm = replicate k empty_region" using mm by (auto simp: region_tail_def)
  then show ?thesis using empty_region_attr [of k b "level_size level" None]
    by (auto simp: area_desc_def Let_def empty_region_def INVALID_DESC_def UNSET_DESC_def)
next
  case (Cons m' rs')
  then have m: "m' = m" and mm': "mm = rs' @ replicate (Suc k) empty_region"
    using mm by (auto simp: region_tail_def)
  have wf: "wf_region C m" using ok Cons m by (simp add: regions_ok_def)
  note vs = cfg_okD(1) [OF C]
  note ar = area_level(2) [OF C b(1-3)]
  note s = area_simps [OF vs ar wf]
  have hi: "unat b < hi m" using np Cons m by (simp add: not_passed_def)
  have ok': "regions_ok C (m # rs')" using ok Cons m by simp
  have eq: "mmap_region_attr (m # mm) b (level_size level) None =
      mmap_region_attr ((m # rs') @ replicate (Suc k) empty_region) b (level_size level) None"
    by (simp add: mm')
  obtain r where r: "mmap_region_attr (m # mm) b (level_size level) None = Some r"
    unfolding eq using region_attr_total [OF vs ar ok', of k None] by blast
  show ?thesis
  proof (cases "unat b + lsz level \<le> lo m")
    case True
    then show ?thesis using s by (simp add: area_desc_def Let_def INVALID_DESC_def UNSET_DESC_def)
  next
    case False
    note part = region_attr_partial [OF vs ar ok' _ hi, of k]
    show ?thesis
    proof (cases r)
      case None
      then have ex: "\<exists>n \<in> set (m # rs'). unat b < lo n \<and> lo n < unat b + lsz level \<or> unat b < hi n \<and> hi n < unat b + lsz level"
        using part r False unfolding eq by simp
      have "level \<noteq> 3"
      proof
        assume "level = 3"
        then have l3: "lsz level = 4096" by (simp add: lsz_values)
        obtain n where n: "n \<in> set (m # rs')" and p: "unat b < lo n \<and> lo n < unat b + lsz level \<or>
            unat b < hi n \<and> hi n < unat b + lsz level" using ex by blast
        have "lo n < hi n" using ok' n wf_regionD(1) [OF _ vs] unfolding regions_ok_def by blast
        then show False using page_area [OF ok' _ n, of "unat b"] b(1) p unfolding l3 by linarith
      qed
      moreover have "needs_table rs level (unat b)"
        using ex False hi Cons m unfolding needs_table_def by (cases "level = 0") auto
      ultimately show ?thesis using None r level s(1) False
        by (auto simp: area_desc_def Let_def simp del: mmap_region_attr.simps)
    next
      case (Some a)
      then have l: "1 \<le> level \<Longrightarrow> mmap_desc xn a (b - base_va m + base_pa m) level \<noteq> UNSET_DESC"
      proof -
        assume l1: "1 \<le> level"
        have cov: "lo m \<le> unat b" "unat b + lsz level \<le> hi m"
          using region_attr_covers [OF vs ar ok', of k a] Some r False hi unfolding eq by simp_all
        show ?thesis using block_pa(2) [OF C wf l1 b(1) cov] page_dvd_lsz [OF level] dvd_trans
          by (intro mmap_desc_not_unset [OF xn]) blast
      qed
      moreover have "level = 0 \<Longrightarrow> needs_table rs level (unat b)"
        using False hi Cons m unfolding needs_table_def by auto
      ultimately show ?thesis using r Some s(1) False level
        by (auto simp: area_desc_def Let_def XLAT_BLOCK_LEVEL_MIN_def Suc_le_eq simp del: mmap_region_attr.simps)
    qed
  qed
qed

end
