(* ===== verification/Xlat_Build.thy ===== *)
theory Xlat_Build
  imports Xlat_Walk
begin

unbundle bit_operations_syntax

text \<open>
  The construction of the tables, entry by entry: it ends with enough tables, it only writes the entries
  that remain of the current table and tables it allocates itself, and the walk of the
  result gives the innermost region of every address of the range.
\<close>

subsection \<open>The range of a table\<close>

definition table_end :: "xlat_cfg \<Rightarrow> nat \<Rightarrow> u64 \<Rightarrow> nat" where
  "table_end C level b =
     min (unat (PLAT_VIRT_ADDR_SPACE_SIZE C)) ((unat b div lsz level div 512 + 1) * 512 * lsz level)"

definition entry_ok :: "xlat_cfg \<Rightarrow> nat \<Rightarrow> u64 \<Rightarrow> bool" where
  "entry_ok C level b \<longleftrightarrow> level \<le> 3 \<and> lsz level dvd unat b \<and> unat b < unat (PLAT_VIRT_ADDR_SPACE_SIZE C) \<and>
     lsz level dvd unat (PLAT_VIRT_ADDR_SPACE_SIZE C)"

lemma more_entries_nat:
  assumes "cfg_ok C" "0 < unat b"
  shows "more_entries C b level \<longleftrightarrow> table_index level b \<noteq> 0 \<and> unat b < unat (PLAT_VIRT_ADDR_SPACE_SIZE C)"
  unfolding more_entries_def word_less_nat_alt
  using assms(2) cfg_okD(2) [OF assms(1)] by (auto simp: index_mask_zero unat_pred)

lemma next_entry:
  assumes C: "cfg_ok C" and e: "entry_ok C level b"
  defines "b' \<equiv> b + level_size level"
  shows "unat b' = unat b + lsz level"
    and "more_entries C b' level \<Longrightarrow> entry_ok C level b' \<and> table_end C level b' = table_end C level b \<and>
      table_index level b' = Suc (table_index level b)"
    and "\<not> more_entries C b' level \<Longrightarrow> table_end C level b = unat b + lsz level"
    and "unat b + lsz level \<le> table_end C level b"
proof -
  let ?L = "lsz level" and ?V = "unat (PLAT_VIRT_ADDR_SPACE_SIZE C)"
  have e': "lsz level dvd unat b" "unat b < ?V" "lsz level dvd ?V" using e by (simp_all add: entry_ok_def)
  note al = area_level [OF C e']
  show u: "unat b' = unat b + ?L" unfolding b'_def by (rule al(3))
  obtain q where q: "unat b = q * ?L" using e' by (metis dvd_def mult.commute)
  have q': "unat b' = Suc q * ?L" using u q by simp
  have ix: "table_index level b' = Suc q mod 512" "table_index level b = q mod 512"
    by (simp_all add: table_index_nat q q')
  have m: "more_entries C b' level \<longleftrightarrow> Suc q mod 512 \<noteq> 0 \<and> unat b' < ?V"
    using more_entries_nat [OF C, of b' level] u ix by simp
  have te: "table_end C level b = min ?V ((q div 512 + 1) * 512 * ?L)"
    "table_end C level b' = min ?V ((Suc q div 512 + 1) * 512 * ?L)"
    by (simp_all add: table_end_def q q')
  show "more_entries C b' level \<Longrightarrow> entry_ok C level b' \<and> table_end C level b' = table_end C level b \<and>
      table_index level b' = Suc (table_index level b)"
  proof -
    assume a: "more_entries C b' level"
    then have "Suc q div 512 = q div 512" "Suc q mod 512 = Suc (q mod 512)" using m by (auto simp: div_Suc mod_Suc split: if_splits)
    then show ?thesis using a m te ix e u by (simp add: entry_ok_def)
  qed
  have le: "Suc q \<le> (q div 512 + 1) * 512" by simp
  then have le': "Suc q * ?L \<le> (q div 512 + 1) * 512 * ?L" by (rule mult_le_mono1)
  have "unat b + ?L = Suc q * ?L" by (simp only: q mult_Suc add.commute)
  then show "unat b + ?L \<le> table_end C level b" using le' al(1) by (simp only: te(1) min.bounded_iff)
  show "\<not> more_entries C b' level \<Longrightarrow> table_end C level b = unat b + ?L"
  proof -
    assume a: "\<not> more_entries C b' level"
    show ?thesis
    proof (cases "Suc q mod 512 = 0")
      case True
      then have "Suc q div 512 = q div 512 + 1" by (simp add: div_Suc)
      then have "(q div 512 + 1) * 512 = Suc q" using True div_mult_mod_eq [of "Suc q" 512] by simp
      then have "table_end C level b = min ?V (Suc q * ?L)" using te(1) by (simp only:)
      then show ?thesis using q al(1) by simp
    next
      case False
      then have "unat b' = ?V" using a m al(1) u by simp
      then have "?V = Suc q * ?L" using q' by simp
      then show ?thesis using le' u q' by (simp only: te(1) min_def if_True)
    qed
  qed
qed

lemma sub_table:
  assumes C: "cfg_ok C" and e: "entry_ok C level b" and l: "level < 3"
  shows "entry_ok C (Suc level) b" "table_index (Suc level) b = 0"
    "table_end C (Suc level) b = unat b + lsz level"
proof -
  let ?L = "lsz (Suc level)"
  have L: "lsz level = 512 * ?L" by (rule lsz_Suc [OF l])
  have e': "lsz level dvd unat b" "unat b < unat (PLAT_VIRT_ADDR_SPACE_SIZE C)" "lsz level dvd unat (PLAT_VIRT_ADDR_SPACE_SIZE C)"
    using e by (simp_all add: entry_ok_def)
  have "?L dvd lsz level" unfolding L by simp
  then show "entry_ok C (Suc level) b" using e l by (auto simp: entry_ok_def intro: dvd_trans)
  obtain q where "unat b = q * lsz level" using e' by (metis dvd_def mult.commute)
  then have q: "unat b = (q * 512) * ?L" by (simp add: L)
  show "table_index (Suc level) b = 0" by (simp add: table_index_nat q)
  have "unat b + lsz level = (q + 1) * 512 * ?L" by (simp add: q L add_mult_distrib)
  then show "table_end C (Suc level) b = unat b + lsz level"
    unfolding table_end_def using area_level(1) [OF C e'] by (simp add: q)
qed

subsection \<open>The construction\<close>

text \<open>The areas of a range that may need a finer table.\<close>

definition split_areas :: "mmap_region list \<Rightarrow> nat \<Rightarrow> nat \<Rightarrow> nat \<Rightarrow> (nat \<times> nat) set" where
  "split_areas rs level l h =
     {(n, a). level \<le> n \<and> n < 3 \<and> lsz n dvd a \<and> l \<le> a \<and> a < h \<and> needs_table rs n a}"

lemma finite_split_areas [simp]: "finite (split_areas rs level l h)"
  by (rule finite_subset [of _ "{..<3} \<times> {..<h}"]) (auto simp: split_areas_def)

lemma needs_table_mono: "needs_table rs level l \<Longrightarrow> set rs \<subseteq> set rs' \<Longrightarrow> needs_table rs' level l"
  unfolding needs_table_def by blast

lemma split_areas_mono: "set rs \<subseteq> set rs' \<Longrightarrow> split_areas rs level l h \<subseteq> split_areas rs' level l h"
  by (auto simp: split_areas_def intro: needs_table_mono)

lemma split_areas_parts:
  assumes "set rs2 \<subseteq> set rs" "a \<le> m" "m \<le> h"
  shows "card (split_areas rs (Suc level) a m) + card (split_areas rs2 level m h) \<le> card (split_areas rs level a h)"
    and "level < 3 \<Longrightarrow> lsz level dvd a \<Longrightarrow> a < m \<Longrightarrow> needs_table rs level a \<Longrightarrow>
      Suc (card (split_areas rs (Suc level) a m) + card (split_areas rs2 level m h)) \<le> card (split_areas rs level a h)"
proof -
  let ?A = "split_areas rs (Suc level) a m" and ?B = "split_areas rs2 level m h" and ?S = "split_areas rs level a h"
  have d: "?A \<inter> ?B = {}" by (auto simp: split_areas_def)
  have s: "?A \<union> ?B \<subseteq> ?S" using assms by (auto simp: split_areas_def intro: needs_table_mono)
  have "card (?A \<union> ?B) = card ?A + card ?B" using d by (intro card_Un_disjoint) simp_all
  then show "card ?A + card ?B \<le> card ?S" using card_mono [OF _ s] by simp
  assume "level < 3" "lsz level dvd a" "a < m" "needs_table rs level a"
  then have i: "(level, a) \<in> ?S" and n: "(level, a) \<notin> ?A \<union> ?B"
    using assms by (auto simp: split_areas_def)
  have "insert (level, a) (?A \<union> ?B) \<subseteq> ?S" using i s by simp
  then have "card (insert (level, a) (?A \<union> ?B)) \<le> card ?S" by (intro card_mono) simp_all
  then show "Suc (card ?A + card ?B) \<le> card ?S" using n d by (simp add: card_Un_disjoint)
qed

text \<open>A table that is in use when \<open>n\<close> tables are allocated.\<close>

fun in_use :: "nat \<Rightarrow> table \<Rightarrow> bool" where
  "in_use n Base = True"
| "in_use n (Xlat k) = (k < n)"

lemma in_use_mono: "in_use n t \<Longrightarrow> n \<le> m \<Longrightarrow> in_use m t"
  by (cases t) simp_all

text \<open>
  What a run over the entries from \<open>i\<close> on does: \<open>s'\<close> differs from \<open>s\<close> only in these entries and in
  new tables, and every table that agrees with \<open>s'\<close> there maps the range from \<open>b\<close> up to \<open>h\<close>.
\<close>

definition kept :: "table \<Rightarrow> nat \<Rightarrow> xlat_state \<Rightarrow> xlat_state \<Rightarrow> bool" where
  "kept t i s s' \<longleftrightarrow> next_xlat s \<le> next_xlat s' \<and> execute_never_mask s' = execute_never_mask s \<and>
     mmap s' = mmap s \<and> xlat_max_va s' = xlat_max_va s \<and> xlat_max_pa s' = xlat_max_pa s \<and>
     (\<forall>t' j. in_use (next_xlat s) t' \<and> (t' \<noteq> t \<or> j < i) \<longrightarrow> tables s' t' j = tables s t' j)"

definition agrees :: "table \<Rightarrow> nat set \<Rightarrow> nat \<Rightarrow> xlat_state \<Rightarrow> (table \<Rightarrow> nat \<Rightarrow> u64) \<Rightarrow> bool" where
  "agrees t J n s T \<longleftrightarrow> (\<forall>j \<in> J. T t j = tables s t j) \<and>
     (\<forall>k j. n \<le> k \<and> k < next_xlat s \<longrightarrow> T (Xlat k) j = tables s (Xlat k) j)"

definition mapped :: "xlat_cfg \<Rightarrow> mmap_region list \<Rightarrow> nat \<Rightarrow> table \<Rightarrow> nat set \<Rightarrow> nat \<Rightarrow> nat \<Rightarrow> nat \<Rightarrow> xlat_state \<Rightarrow> bool" where
  "mapped C rs level t J n l h s \<longleftrightarrow>
     (\<forall>T. agrees t J n s T \<longrightarrow> (\<forall>v. l \<le> unat v \<and> unat v < h \<longrightarrow>
        maps_to (execute_never_mask s) v (innermost rs (unat v)) (xlat_walk C T level t v)))"

definition passed :: "mmap_region list \<Rightarrow> mmap_region list \<Rightarrow> nat \<Rightarrow> bool" where
  "passed rs rs' h \<longleftrightarrow> (\<exists>ds. rs = ds @ rs' \<and> (\<forall>m \<in> set ds. hi m \<le> h))"

lemma passed_innermost: "passed rs rs' h \<Longrightarrow> h \<le> a \<Longrightarrow> innermost rs a = innermost rs' a"
  by (auto simp: passed_def intro!: innermost_past)

lemma passed_refl [simp]: "passed rs rs h"
  by (auto simp: passed_def)

lemma passed_trans: "passed rs rs' h \<Longrightarrow> passed rs' rs'' h' \<Longrightarrow> h \<le> h' \<Longrightarrow> passed rs rs'' h'"
  unfolding passed_def by (metis (no_types, lifting) Un_iff append.assoc le_trans set_append)

lemma passed_sub: "passed rs rs' h \<Longrightarrow> set rs' \<subseteq> set rs"
  by (auto simp: passed_def)

lemma passed_ok: "passed rs rs' h \<Longrightarrow> regions_ok C rs \<Longrightarrow> regions_ok C rs'"
  by (auto simp: passed_def regions_ok_def sorted_wrt_append)

lemma kept_refl [simp]: "kept t i s s"
  by (simp add: kept_def)

lemma kept_trans:
  assumes "kept t i s s1" "kept t i s1 s2"
  shows "kept t i s s2"
proof -
  have "tables s2 t' j = tables s t' j" if "in_use (next_xlat s) t'" "t' \<noteq> t \<or> j < i" for t' j
  proof -
    have "tables s1 t' j = tables s t' j" using assms(1) that unfolding kept_def by blast
    moreover have "in_use (next_xlat s1) t'" using assms(1) that(1) by (auto simp: kept_def intro: in_use_mono)
    then have "tables s2 t' j = tables s1 t' j" using assms(2) that(2) unfolding kept_def by blast
    ultimately show ?thesis by simp
  qed
  then show ?thesis using assms by (auto simp: kept_def)
qed

lemma kept_Suc: "kept t (Suc i) s s' \<Longrightarrow> kept t i s s'"
  unfolding kept_def by auto

lemma kept_set_entry: "kept t i s (set_entry t i d s)"
  by (simp add: kept_def set_entry_def)

lemma set_entry_simps [simp]:
  "next_xlat (set_entry t i d s) = next_xlat s" "execute_never_mask (set_entry t i d s) = execute_never_mask s"
  "tables (set_entry t i d s) t i = d" "t' \<noteq> t \<Longrightarrow> tables (set_entry t i d s) t' = tables s t'"
  by (simp_all add: set_entry_def)

lemma kept_sub_table:
  assumes "kept (Xlat (next_xlat s)) 0 (s\<lparr>next_xlat := Suc (next_xlat s)\<rparr>) s2" "in_use (next_xlat s) t"
  shows "kept t i s (set_entry t i d s2)"
proof -
  have "tables s2 t' j = tables s t' j" if "in_use (next_xlat s) t'" for t' j
  proof -
    have "in_use (Suc (next_xlat s)) t'" "t' \<noteq> Xlat (next_xlat s)" using that by (cases t'; simp)+
    then show ?thesis using assms(1) by (simp add: kept_def)
  qed
  then show ?thesis using assms(1) by (auto simp: kept_def set_entry_def)
qed

lemma mapped_join:
  assumes k: "kept t (Suc i) s3 s4" and t: "in_use n t" "n \<le> next_xlat s3"
    and m1: "mapped C rs level t {i} n l m s3" and m2: "mapped C rs2 level t {Suc i..} (next_xlat s3) m h s4"
    and p: "passed rs rs2 m"
  shows "mapped C rs level t {i..} n l h s4"
  unfolding mapped_def
proof (intro allI impI, elim conjE)
  fix T and v :: u64
  assume a: "agrees t {i..} n s4 T" and v: "l \<le> unat v" "unat v < h"
  show "maps_to (execute_never_mask s4) v (innermost rs (unat v)) (xlat_walk C T level t v)"
  proof (cases "unat v < m")
    case True
    have "in_use (next_xlat s3) t" using t in_use_mono by blast
    moreover have "Xlat k \<noteq> t" if "n \<le> k" for k using t(1) that by auto
    ultimately have "agrees t {i} n s3 T" using a k by (auto simp: agrees_def kept_def)
    then show ?thesis using m1 v True k by (simp add: mapped_def kept_def)
  next
    case False
    have "agrees t {Suc i..} (next_xlat s3) s4 T" using a t by (simp add: agrees_def)
    then show ?thesis using m2 v False passed_innermost [OF p] by (simp add: mapped_def)
  qed
qed

lemma mapped_passed:
  "mapped C rs2 level t J n l h s \<Longrightarrow> passed rs rs2 l \<Longrightarrow> mapped C rs level t J n l h s"
  by (auto simp: mapped_def passed_innermost)

lemma area_index:
  assumes "cfg_ok C" "entry_ok C level b" "unat b \<le> unat v" "unat v < unat b + lsz level"
  shows "table_index level v = table_index level b"
proof -
  obtain q where q: "unat b = q * lsz level" using assms(2) unfolding entry_ok_def by (metis dvd_def mult.commute)
  have "unat v div lsz level = q" using assms(3,4) q by (intro div_nat_eqI) (simp_all add: mult.commute)
  then show ?thesis by (simp add: table_index_nat q)
qed

lemma mapped_leaf:
  assumes C: "cfg_ok C" and e: "entry_ok C level b" and ok: "regions_ok C rs" and np: "not_passed rs (unat b)"
    and xn: "execute_never_mask s \<in> xn_bits" and mm: "region_tail rs k = m # mm"
    and d: "area_desc (execute_never_mask s) m mm b level = Some d" "d \<noteq> UNSET_DESC"
    and i: "i = table_index level b"
  shows "mapped C rs level t {i} n (unat b) (unat b + lsz level) (set_entry t i d s)"
  unfolding mapped_def
proof (intro allI impI, elim conjE)
  fix T and v :: u64
  assume a: "agrees t {i} n (set_entry t i d s) T" and v: "unat b \<le> unat v" "unat v < unat b + lsz level"
  have T: "T t (table_index level v) = d" using a area_index [OF C e v] i by (simp add: agrees_def)
  have e': "level \<le> 3" "lsz level dvd unat b" "unat b < unat (PLAT_VIRT_ADDR_SPACE_SIZE C)"
    "lsz level dvd unat (PLAT_VIRT_ADDR_SPACE_SIZE C)" using e by (simp_all add: entry_ok_def)
  from area_desc_leaf [OF C ok np xn e'(2-4) e'(1) mm d v]
  show "maps_to (execute_never_mask (set_entry t i d s)) v (innermost rs (unat v)) (xlat_walk C T level t v)"
  proof
    assume "d = INVALID_DESC \<and> innermost rs (unat v) = None"
    then show ?thesis using T by (simp add: xlat_walk.simps [of C T level t v] INVALID_DESC_def maps_to_def)
  next
    assume "\<exists>n pa. innermost rs (unat v) = Some n \<and> 1 \<le> level \<and> d = mmap_desc (execute_never_mask s) (region_attr n) pa level \<and>
       d AND 3 = (if level = 3 then 3 else 1) \<and> out_addr level d v = v - base_va n + base_pa n"
    then obtain n pa where n: "innermost rs (unat v) = Some n" "1 \<le> level"
      and dd: "d = mmap_desc (execute_never_mask s) (region_attr n) pa level"
      and d3: "d AND 3 = (if level = 3 then 3 else 1)" and o: "out_addr level d v = v - base_va n + base_pa n" by blast
    have "(d AND 3) AND 1 = 1" unfolding d3 by simp
    then have d1: "d AND 1 = 1" by (simp add: and.assoc)
    have "xlat_walk C T level t v = Some (level, d)"
      using T n(2) d1 d3 e'(1) by (auto simp: xlat_walk.simps [of C T level t v] Let_def)
    then show ?thesis using n o e'(1) unfolding maps_to_def dd by auto
  qed
qed

lemma mapped_table:
  assumes C: "cfg_ok C" and e: "entry_ok C level b" and l: "level < 3" and k: "k < MAX_XLAT_TABLES C" "k = n"
    and m: "mapped C rs (Suc level) (Xlat k) {0..} (Suc n) (unat b) (unat b + lsz level) s2"
    and i: "i = table_index level b" and t: "in_use n t" and n2: "Suc n \<le> next_xlat s2"
  shows "mapped C rs level t {i} n (unat b) (unat b + lsz level)
    (set_entry t i (TABLE_DESC OR table_addr C k) s2)"
  unfolding mapped_def
proof (intro allI impI, elim conjE)
  fix T and v :: u64
  let ?d = "TABLE_DESC OR table_addr C k"
  assume a: "agrees t {i} n (set_entry t i ?d s2) T" and v: "unat b \<le> unat v" "unat v < unat b + lsz level"
  have T: "T t (table_index level v) = ?d" using a area_index [OF C e v] i by (simp add: agrees_def)
  note D = desc_table_addr [OF C k(1)]
  have w: "xlat_walk C T level t v = xlat_walk C T (Suc level) (Xlat k) v"
    using T D l by (subst xlat_walk.simps) (simp add: Let_def)
  have "Xlat j \<noteq> t" if "n \<le> j" for j using t that by auto
  then have "agrees (Xlat k) {0..} (Suc n) s2 T" using a k(2) n2 by (simp add: agrees_def)
  then show "maps_to (execute_never_mask (set_entry t i ?d s2)) v (innermost rs (unat v)) (xlat_walk C T level t v)"
    using m v w by (simp add: mapped_def)
qed

text \<open>The outcome of a run from an entry on, and the rule that puts an entry before it.\<close>

definition built ::
    "xlat_cfg \<Rightarrow> mmap_region list \<Rightarrow> nat \<Rightarrow> u64 \<Rightarrow> table \<Rightarrow> nat \<Rightarrow> nat \<Rightarrow> xlat_state \<Rightarrow>
     (mmap_region list \<times> xlat_state) option \<Rightarrow> bool" where
  "built C rs k b t i level s res \<longleftrightarrow>
     (\<exists>rs' s'. res = Some (region_tail rs' k, s') \<and> passed rs rs' (table_end C level b) \<and> kept t i s s' \<and>
        next_xlat s' \<le> next_xlat s + card (split_areas rs level (unat b) (table_end C level b)) \<and>
        mapped C rs level t {i..} (next_xlat s) (unat b) (table_end C level b) s')"

definition ready :: "xlat_cfg \<Rightarrow> mmap_region list \<Rightarrow> u64 \<Rightarrow> table \<Rightarrow> nat \<Rightarrow> nat \<Rightarrow> xlat_state \<Rightarrow> bool" where
  "ready C rs b t i level s \<longleftrightarrow> regions_ok C rs \<and> entry_ok C level b \<and> i = table_index level b \<and>
     in_use (next_xlat s) t \<and> (table_index level b = 0 \<longrightarrow> not_passed rs (unat b)) \<and>
     execute_never_mask s \<in> xn_bits \<and>
     next_xlat s + card (split_areas rs level (unat b) (table_end C level b)) \<le> MAX_XLAT_TABLES C"

lemma built_step:
  assumes C: "cfg_ok C" and r: "ready C rs b t i level s"
    and k3: "kept t i s s3" and p: "passed rs rs2 (unat b + lsz level)"
    and m: "mapped C rs level t {i} (next_xlat s) (unat b) (unat b + lsz level) s3"
    and n3: "next_xlat s3 + card (split_areas rs2 level (unat b + lsz level) (table_end C level b)) \<le>
      next_xlat s + card (split_areas rs level (unat b) (table_end C level b))"
    and rest: "more_entries C (b + level_size level) level \<Longrightarrow>
      ready C rs2 (b + level_size level) t (Suc i) level s3 \<Longrightarrow>
      built C rs2 k (b + level_size level) t (Suc i) level s3 (f (b + level_size level))"
  shows "built C rs k b t i level s
    (if more_entries C (b + level_size level) level then f (b + level_size level) else Some (region_tail rs2 k, s3))"
proof -
  let ?b = "b + level_size level"
  have e: "entry_ok C level b" and t: "in_use (next_xlat s) t" and ok: "regions_ok C rs"
    and i: "i = table_index level b" using r by (simp_all add: ready_def)
  note nx = next_entry [OF C e]
  have le: "next_xlat s \<le> next_xlat s3" using k3 by (simp add: kept_def)
  show ?thesis
  proof (cases "more_entries C ?b level")
    case False
    have te: "table_end C level b = unat b + lsz level" by (rule nx(3) [OF False])
    have "mapped C rs level t {i..} (next_xlat s) (unat b) (unat b + lsz level) s3"
      using m by (simp add: mapped_def agrees_def)
    then show ?thesis using False k3 p n3 te unfolding built_def by auto
  next
    case True
    have te: "table_end C level ?b = table_end C level b" and ix: "table_index level ?b = Suc i"
      and eb: "entry_ok C level ?b" using nx(2) [OF True] i by simp_all
    have "ready C rs2 ?b t (Suc i) level s3"
      using r k3 n3 eb ix te passed_ok [OF p ok] in_use_mono [OF t le] nx(1)
      by (auto simp: ready_def kept_def)
    from rest [OF True this] obtain rs' s' where
      b: "f ?b = Some (region_tail rs' k, s')" "passed rs2 rs' (table_end C level b)" "kept t (Suc i) s3 s'"
        "next_xlat s' \<le> next_xlat s3 + card (split_areas rs2 level (unat b + lsz level) (table_end C level b))"
        "mapped C rs2 level t {Suc i..} (next_xlat s3) (unat b + lsz level) (table_end C level b) s'"
      unfolding built_def te nx(1) by blast
    have "passed rs rs' (table_end C level b)" by (rule passed_trans [OF p b(2) nx(4)])
    moreover have "kept t i s s'" by (rule kept_trans [OF k3 kept_Suc [OF b(3)]])
    moreover have "mapped C rs level t {i..} (next_xlat s) (unat b) (table_end C level b) s'"
      by (rule mapped_join [OF b(3) t le m b(5) p])
    ultimately show ?thesis unfolding built_def using True b(1,4) n3 by auto
  qed
qed

lemma overtaken:
  assumes C: "cfg_ok C" and r: "ready C rs b t i level s" and mm: "m # mm = region_tail rs k"
    and o: "region_size m \<noteq> 0 \<and> base_va m + region_size m - 1 < b"
  shows "more_entries C b level" "\<exists>rs1. rs = m # rs1 \<and> mm = region_tail rs1 k \<and> ready C rs1 b t i level s"
    "hi m \<le> unat b"
proof -
  have e: "lsz level dvd unat b" "unat b < unat (PLAT_VIRT_ADDR_SPACE_SIZE C)"
    "lsz level dvd unat (PLAT_VIRT_ADDR_SPACE_SIZE C)" and ok: "regions_ok C rs"
    using r by (simp_all add: ready_def entry_ok_def)
  obtain rs1 where rs: "rs = m # rs1" "mm = region_tail rs1 k"
    using mm o by (cases rs) (auto simp: region_tail_def empty_region_def)
  have wf: "wf_region C m" using ok rs by (simp add: regions_ok_def)
  show hi: "hi m \<le> unat b"
    using o area_simps(2) [OF cfg_okD(1) [OF C] area_level(2) [OF C e] wf] by simp
  then have ix: "table_index level b \<noteq> 0" using r rs by (auto simp: ready_def not_passed_def)
  then have "0 < unat b" by (cases "unat b = 0") (simp_all add: table_index_nat)
  then show "more_entries C b level" using ix e by (simp add: more_entries_nat [OF C])
  have "split_areas rs1 level (unat b) (table_end C level b) \<subseteq> split_areas rs level (unat b) (table_end C level b)"
    using rs by (intro split_areas_mono) auto
  then have "card (split_areas rs1 level (unat b) (table_end C level b)) \<le> card (split_areas rs level (unat b) (table_end C level b))"
    by (intro card_mono) simp_all
  then have "ready C rs1 b t i level s" using r ix rs by (auto simp: ready_def regions_ok_def)
  then show "\<exists>rs1. rs = m # rs1 \<and> mm = region_tail rs1 k \<and> ready C rs1 b t i level s" using rs by blast
qed

lemma built_overtaken:
  assumes b: "built C rs1 k b t i level s res" and hi: "hi m \<le> unat b" and le: "unat b \<le> table_end C level b"
  shows "built C (m # rs1) k b t i level s res"
proof -
  have p: "passed (m # rs1) rs1 (unat b)" using hi by (auto simp: passed_def)
  have "split_areas rs1 level (unat b) (table_end C level b) \<subseteq> split_areas (m # rs1) level (unat b) (table_end C level b)"
    by (intro split_areas_mono) auto
  then have "card (split_areas rs1 level (unat b) (table_end C level b)) \<le> card (split_areas (m # rs1) level (unat b) (table_end C level b))"
    by (intro card_mono) simp_all
  then show ?thesis using b unfolding built_def
    by (elim exE conjE) (intro exI conjI, assumption, rule passed_trans [OF p], auto intro: le mapped_passed [OF _ p])
qed

lemma sub_table_ready:
  assumes C: "cfg_ok C" and r: "ready C rs b t i level s" and np: "not_passed rs (unat b)"
    and l: "level < 3" and nd: "needs_table rs level (unat b)"
  shows "ready C rs b (Xlat (next_xlat s)) 0 (Suc level) (s\<lparr>next_xlat := Suc (next_xlat s)\<rparr>)"
    and "next_xlat s < MAX_XLAT_TABLES C"
proof -
  have e: "entry_ok C level b" using r by (simp add: ready_def)
  note st = sub_table [OF C e l]
  have le: "unat b + lsz level \<le> table_end C level b" by (rule next_entry(4) [OF C e])
  have "Suc (card (split_areas rs (Suc level) (unat b) (unat b + lsz level)) +
      card (split_areas rs level (unat b + lsz level) (table_end C level b)))
      \<le> card (split_areas rs level (unat b) (table_end C level b))"
    using e by (intro split_areas_parts(2) [OF _ _ le] l nd) (simp_all add: entry_ok_def)
  then show "ready C rs b (Xlat (next_xlat s)) 0 (Suc level) (s\<lparr>next_xlat := Suc (next_xlat s)\<rparr>)"
    "next_xlat s < MAX_XLAT_TABLES C"
    using r np st by (auto simp: ready_def)
qed

text \<open>An entry that is a leaf, and an entry that is a table, before the rest of the entries.\<close>

lemma built_leaf:
  assumes C: "cfg_ok C" and r: "ready C rs b t i level s" and np: "not_passed rs (unat b)"
    and mm: "region_tail rs k = m # mm"
    and d: "area_desc (execute_never_mask s) m mm b level = Some d" "d \<noteq> UNSET_DESC"
    and rest: "\<And>s1. s1 = set_entry t i d s \<Longrightarrow> more_entries C (b + level_size level) level \<Longrightarrow>
      ready C rs (b + level_size level) t (Suc i) level s1 \<Longrightarrow>
      built C rs k (b + level_size level) t (Suc i) level s1 (f s1 (b + level_size level))"
  shows "built C rs k b t i level s
    (let s1 = set_entry t i d s; b' = b + level_size level in
     if more_entries C b' level then f s1 b' else Some (region_tail rs k, s1))"
proof -
  have e: "entry_ok C level b" and ok: "regions_ok C rs" and xn: "execute_never_mask s \<in> xn_bits"
    and i: "i = table_index level b" using r by (simp_all add: ready_def)
  have le: "unat b + lsz level \<le> table_end C level b" by (rule next_entry(4) [OF C e])
  have "card (split_areas rs (Suc level) (unat b) (unat b + lsz level)) +
      card (split_areas rs level (unat b + lsz level) (table_end C level b))
      \<le> card (split_areas rs level (unat b) (table_end C level b))"
    by (rule split_areas_parts(1) [OF _ _ le]) simp_all
  then show ?thesis unfolding Let_def
    by (intro built_step [OF C r kept_set_entry passed_refl
          mapped_leaf [OF C e ok np xn mm d i]] rest) simp_all
qed

lemma built_table:
  assumes C: "cfg_ok C" and r: "ready C rs b t i level s" and np: "not_passed rs (unat b)"
    and l: "level < 3" and nd: "needs_table rs level (unat b)"
    and sub: "built C rs k b (Xlat (next_xlat s)) 0 (Suc level) (s\<lparr>next_xlat := Suc (next_xlat s)\<rparr>) res"
    and rest: "\<And>rs2 s2 s3. res = Some (region_tail rs2 k, s2) \<Longrightarrow>
      s3 = set_entry t i (TABLE_DESC OR table_addr C (next_xlat s)) s2 \<Longrightarrow>
      more_entries C (b + level_size level) level \<Longrightarrow>
      ready C rs2 (b + level_size level) t (Suc i) level s3 \<Longrightarrow>
      built C rs2 k (b + level_size level) t (Suc i) level s3 (f (region_tail rs2 k) s3 (b + level_size level))"
  shows "built C rs k b t i level s
    (case res of None \<Rightarrow> None
     | Some (mm2, s2) \<Rightarrow>
       let s3 = set_entry t i (TABLE_DESC OR table_addr C (next_xlat s)) s2; b' = b + level_size level in
       if more_entries C b' level then f mm2 s3 b' else Some (mm2, s3))"
proof -
  have e: "entry_ok C level b" and t: "in_use (next_xlat s) t" and i: "i = table_index level b"
    using r by (simp_all add: ready_def)
  note st = sub_table [OF C e l]
  have le: "unat b + lsz level \<le> table_end C level b" by (rule next_entry(4) [OF C e])
  obtain rs2 s2 where res: "res = Some (region_tail rs2 k, s2)" and p: "passed rs rs2 (unat b + lsz level)"
    and kp: "kept (Xlat (next_xlat s)) 0 (s\<lparr>next_xlat := Suc (next_xlat s)\<rparr>) s2"
    and n2: "next_xlat s2 \<le> Suc (next_xlat s) + card (split_areas rs (Suc level) (unat b) (unat b + lsz level))"
    and m: "mapped C rs (Suc level) (Xlat (next_xlat s)) {0..} (Suc (next_xlat s)) (unat b) (unat b + lsz level) s2"
    using sub unfolding built_def st(3) by auto
  let ?s3 = "set_entry t i (TABLE_DESC OR table_addr C (next_xlat s)) s2"
  have parts: "Suc (card (split_areas rs (Suc level) (unat b) (unat b + lsz level)) +
      card (split_areas rs2 level (unat b + lsz level) (table_end C level b)))
      \<le> card (split_areas rs level (unat b) (table_end C level b))"
    using e by (intro split_areas_parts(2) [OF passed_sub [OF p] _ le] l nd) (simp_all add: entry_ok_def)
  have "Suc (next_xlat s) \<le> next_xlat s2" using kp by (simp add: kept_def)
  then have m3: "mapped C rs level t {i} (next_xlat s) (unat b) (unat b + lsz level) ?s3"
    by (intro mapped_table [OF C e l sub_table_ready(2) [OF C r np l nd] refl m i t])
  show ?thesis unfolding res option.case prod.case Let_def
    by (intro built_step [OF C r kept_sub_table [OF kp t] p m3] rest [OF res refl]) (use n2 parts in simp_all)
qed

lemma init_xlation_table_inner_built:
  assumes "cfg_ok C" "ready C rs b t i level s" "mm = region_tail rs k"
  shows "built C rs k b t i level s (init_xlation_table_inner C mm b t i level s)"
  using assms
proof (induction C mm b t i level s arbitrary: rs rule: init_xlation_table_inner.induct)
  case (1 C mm b t i level s)
  note C = 1(5) and r = 1(6) and mm = 1(7)
  have ok: "regions_ok C rs" and e: "entry_ok C level b" and xn: "execute_never_mask s \<in> xn_bits"
    using r by (simp_all add: ready_def)
  have e': "level \<le> 3" "lsz level dvd unat b" "unat b < unat (PLAT_VIRT_ADDR_SPACE_SIZE C)"
    "lsz level dvd unat (PLAT_VIRT_ADDR_SPACE_SIZE C)" using e by (simp_all add: entry_ok_def)
  then have lv: "\<not> level > XLAT_TABLE_LEVEL_MAX" by (simp add: XLAT_TABLE_LEVEL_MAX_def)
  obtain m mm' where mc: "mm = m # mm'" using mm by (cases rs) (auto simp: region_tail_def)
  show ?case
  proof (cases "region_size m \<noteq> 0 \<and> base_va m + region_size m - 1 < b")
    case True
    note o = overtaken [OF C r mm [unfolded mc] True]
    obtain rs1 where rs1: "rs = m # rs1" "mm' = region_tail rs1 k" "ready C rs1 b t i level s" using o(2) by blast
    have "built C rs1 k b t i level s (init_xlation_table_inner C mm' b t i level s)"
      by (rule 1(1) [OF lv mc True o(1) C rs1(3,2)])
    then have "built C rs k b t i level s (init_xlation_table_inner C mm' b t i level s)"
      unfolding rs1(1) using o(3) next_entry(4) [OF C e] by (intro built_overtaken) simp_all
    then show ?thesis using lv mc True o(1) by (subst init_xlation_table_inner.simps) simp
  next
    case False
    have np: "not_passed rs (unat b)"
      unfolding not_passed_def
    proof (intro allI impI)
      fix m1 ms
      assume rs: "rs = m1 # ms"
      then have "m1 = m" "wf_region C m" using mm mc ok by (simp_all add: region_tail_def regions_ok_def)
      then show "unat b < hi m1"
        using False area_simps(2,5) [OF cfg_okD(1) [OF C] area_level(2) [OF C e'(2-4)]] by auto
    qed
    obtain d where d: "area_desc (execute_never_mask s) m mm' b level = Some d"
      and un: "d = UNSET_DESC \<Longrightarrow> level < 3 \<and> needs_table rs level (unat b)"
      using area_desc_total [OF C ok np xn e'(2-4) e'(1) trans [OF mm [symmetric] mc]] by blast
    show ?thesis
    proof (cases "d = UNSET_DESC")
      case True
      note l = un [OF True, THEN conjunct1] and nd = un [OF True, THEN conjunct2]
      note st = sub_table_ready [OF C r np l nd]
      let ?res = "init_xlation_table_inner C mm b (Xlat (next_xlat s)) 0 (level + 1) (s\<lparr>next_xlat := next_xlat s + 1\<rparr>)"
      have sub: "built C rs k b (Xlat (next_xlat s)) 0 (Suc level) (s\<lparr>next_xlat := Suc (next_xlat s)\<rparr>)
          (init_xlation_table_inner C mm b (Xlat (next_xlat s)) 0 (level + 1) (s\<lparr>next_xlat := next_xlat s + 1\<rparr>))"
        using 1(2) [OF lv mc False d True _ C _ mm] st by simp
      have "built C rs k b t i level s
        (case ?res of None \<Rightarrow> None
         | Some (mm2, s2) \<Rightarrow>
           let s3 = set_entry t i (TABLE_DESC OR table_addr C (next_xlat s)) s2; b' = b + level_size level in
           if more_entries C b' level then init_xlation_table_inner C mm2 b' t (i + 1) level s3 else Some (mm2, s3))"
        by (rule built_table [OF C r np l nd sub, where f = "\<lambda>mm2 s3 b'. init_xlation_table_inner C mm2 b' t (i + 1) level s3"])
          (use 1(3) [OF lv mc False d True _ _ refl _ refl _ C] st(2) in simp)
      then show ?thesis using lv mc False d True st(2) by (subst init_xlation_table_inner.simps) auto
    next
      case u: False
      have "built C rs k b t i level s
        (let s1 = set_entry t i d s; b' = b + level_size level in
         if more_entries C b' level then init_xlation_table_inner C mm b' t (i + 1) level s1
         else Some (region_tail rs k, s1))"
        by (rule built_leaf [OF C r np trans [OF mm [symmetric] mc] d u,
              where f = "\<lambda>s1 b'. init_xlation_table_inner C mm b' t (i + 1) level s1"])
          (use 1(4) [OF lv mc False d u _ refl _ C _ mm] in simp)
      then show ?thesis using lv mc False d u mm by (subst init_xlation_table_inner.simps) (auto simp: Let_def)
    qed
  qed
qed

end
