(* ===== verification/Xlat_Theorems.thy ===== *)
theory Xlat_Theorems
  imports Xlat_Build
begin

unbundle bit_operations_syntax

text \<open>
  The properties of the translation table library, and the memory map that BL31 of the Armada 3700 builds
  with it.
\<close>

subsection \<open>The whole address space\<close>

abbreviation base_level :: "xlat_cfg \<Rightarrow> nat" where
  "base_level C \<equiv> GET_XLAT_TABLE_LEVEL_BASE (PLAT_VIRT_ADDR_SPACE_SIZE C)"

lemma base_level_cases:
  assumes "cfg_ok C"
  shows "base_level C \<le> 2" "lsz (base_level C) dvd unat (PLAT_VIRT_ADDR_SPACE_SIZE C)"
    "unat (PLAT_VIRT_ADDR_SPACE_SIZE C) \<le> 512 * lsz (base_level C)"
proof -
  obtain w where w: "25 \<le> w" "w \<le> 48" "PLAT_VIRT_ADDR_SPACE_SIZE C = push_bit w 1"
    using assms by (auto simp: cfg_ok_def)
  have u: "unat (PLAT_VIRT_ADDR_SPACE_SIZE C) = 2 ^ w" using w unat_push_bit_1 [of w, where 'a = 64] by simp
  have g: "PLAT_VIRT_ADDR_SPACE_SIZE C > push_bit n 1 \<longleftrightarrow> n < w" if "n < 64" for n
    using that u by (simp add: word_less_nat_alt unat_2p)
  have l: "base_level C = (if 39 < w then 0 else if 30 < w then 1 else 2)"
    unfolding GET_XLAT_TABLE_LEVEL_BASE_def L0_XLAT_ADDRESS_SHIFT_def L1_XLAT_ADDRESS_SHIFT_def
    using g [of 39] g [of 30] by simp
  show "base_level C \<le> 2" by (simp add: l)
  have k: "lsz (base_level C) = 2 ^ (if 39 < w then 39 else if 30 < w then 30 else 21)"
    by (simp add: l lsz_values)
  show "lsz (base_level C) dvd unat (PLAT_VIRT_ADDR_SPACE_SIZE C)"
    unfolding k u using w by (intro le_imp_power_dvd) simp
  have "512 * lsz (base_level C) = 2 ^ (9 + (if 39 < w then 39 else if 30 < w then 30 else 21))"
    unfolding k power_add by simp
  then show "unat (PLAT_VIRT_ADDR_SPACE_SIZE C) \<le> 512 * lsz (base_level C)"
    unfolding u using w by (simp only:) (intro power_increasing; simp)
qed

lemma init_xlat_tables_built:
  assumes C: "cfg_ok C" and inv: "mmap_inv C rs (Suc k) s"
    and n: "next_xlat s + card (split_areas rs (base_level C) 0 (unat (PLAT_VIRT_ADDR_SPACE_SIZE C))) \<le> MAX_XLAT_TABLES C"
  shows "\<exists>s'. init_xlat_tables C el s = Some s' \<and>
    (\<forall>v. unat v < unat (PLAT_VIRT_ADDR_SPACE_SIZE C) \<longrightarrow>
      maps_to (xlat_arch_get_xn_desc el) v (innermost rs (unat v)) (xlat_walk C (tables s') (base_level C) Base v))"
proof -
  let ?l = "base_level C" and ?s = "s\<lparr>execute_never_mask := xlat_arch_get_xn_desc el\<rparr>"
  let ?V = "unat (PLAT_VIRT_ADDR_SPACE_SIZE C)"
  note bl = base_level_cases [OF C]
  have te: "table_end C ?l 0 = ?V" using bl(3) by (simp add: table_end_def)
  have ok: "regions_ok C rs" and mm: "mmap ?s = region_tail rs k" using inv by (simp_all add: mmap_inv_def region_tail_def)
  have np: "not_passed rs 0"
    unfolding not_passed_def using ok wf_regionD(1) [OF _ cfg_okD(1) [OF C]] by (fastforce simp: regions_ok_def)
  have "ready C rs 0 Base 0 ?l ?s"
    using bl cfg_okD(2) [OF C] ok n te np by (simp add: ready_def entry_ok_def table_index_nat)
  from init_xlation_table_inner_built [OF C this mm]
  obtain rs' s' where r: "init_xlation_table_inner C (mmap ?s) 0 Base 0 ?l ?s = Some (region_tail rs' k, s')"
    and kp: "kept Base 0 ?s s'" and m: "mapped C rs ?l Base {0..} (next_xlat ?s) 0 ?V s'"
    unfolding built_def te by auto
  have "agrees Base {0..} (next_xlat ?s) s' (tables s')" by (simp add: agrees_def)
  then have "maps_to (xlat_arch_get_xn_desc el) v (innermost rs (unat v)) (xlat_walk C (tables s') ?l Base v)"
    if "unat v < ?V" for v
    using m that kp by (simp add: mapped_def kept_def)
  then show ?thesis using r by (simp add: init_xlat_tables_def init_xlation_table_def Let_def)
qed

lemma desc_write_execute:
  assumes "\<not> bit (mmap_desc xn a pa level) 7"
  shows "xn AND mmap_desc xn a pa level = xn"
proof -
  have "a AND MT_RW \<noteq> 0"
  proof
    assume "a AND MT_RW = 0"
    then have "bit (mmap_desc xn a pa level) 7"
      by (auto simp: mmap_desc_def Let_def bit_or_iff xlat_const_defs bit_numeral_rec)
    then show False using assms by simp
  qed
  then have "bit (mmap_desc xn a pa level) n" if "bit xn n" for n
    using that by (simp add: mmap_desc_def Let_def bit_or_iff)
  then show ?thesis by (intro bit_word_eqI) (auto simp: bit_and_iff)
qed

subsection \<open>Flat regions\<close>

text \<open>The regions of \<^verbatim>\<open>MAP_REGION_FLAT\<close>, mapped to themselves.\<close>

definition MAP_REGION_FLAT :: "u64 \<Rightarrow> u64 \<Rightarrow> u32 \<Rightarrow> mmap_region" where
  "MAP_REGION_FLAT adr sz attr = \<lparr>base_pa = adr, base_va = adr, region_size = sz, region_attr = attr\<rparr>"

definition apart_or_nested :: "mmap_region \<Rightarrow> mmap_region \<Rightarrow> bool" where
  "apart_or_nested n m \<longleftrightarrow> hi n \<le> lo m \<or> hi m \<le> lo n \<or>
     (lo m \<le> lo n \<and> hi n \<le> hi m \<or> lo n \<le> lo m \<and> hi m \<le> hi n) \<and> (lo n \<noteq> lo m \<or> hi n \<noteq> hi m)"

lemma flat_overlap_check:
  assumes vs: "unat (PLAT_VIRT_ADDR_SPACE_SIZE C) \<le> 2 ^ 48" and wf: "wf_region C n" "wf_region C m"
    and flat: "base_pa n = base_va n" "base_pa m = base_va m" and an: "apart_or_nested n m"
  shows "mmap_overlap_check n m"
proof -
  note w = wf_regionD [OF wf(1) vs] wf_regionD [OF wf(2) vs]
  have sz: "hi n \<noteq> hi m \<Longrightarrow> lo n = lo m \<Longrightarrow> region_size n \<noteq> region_size m" by (auto simp: hi_def lo_def)
  have bv: "lo n \<noteq> lo m \<Longrightarrow> base_va n \<noteq> base_va m" by (auto simp: lo_def)
  show ?thesis using an w sz bv flat
    unfolding mmap_overlap_check_def Let_def word_le_nat_alt word_less_nat_alt apart_or_nested_def
    by (auto simp: lo_def hi_def)
qed

lemma mmap_add_region_next: "mmap_add_region p v z a s = Some s' \<Longrightarrow> next_xlat s' = next_xlat s"
  by (auto simp: mmap_add_region_def Let_def split: if_splits)

lemma add_flat:
  assumes vs: "unat (PLAT_VIRT_ADDR_SPACE_SIZE C) \<le> 2 ^ 48" and inv: "mmap_inv C rs (Suc k) s"
    and fl: "\<forall>m \<in> set rs. base_pa m = base_va m" and wf: "wf_region C (MAP_REGION_FLAT b z a)"
    and an: "\<forall>m \<in> set rs. apart_or_nested (MAP_REGION_FLAT b z a) m"
  shows "\<exists>rs' s'. mmap_add_region b b z a s = Some s' \<and> mmap_inv C rs' k s' \<and>
    set rs' = insert (MAP_REGION_FLAT b z a) (set rs) \<and> next_xlat s' = next_xlat s"
proof -
  have "\<forall>m \<in> set rs. mmap_overlap_check (MAP_REGION_FLAT b z a) m"
    using inv an fl by (auto simp: mmap_inv_def regions_ok_def MAP_REGION_FLAT_def
        intro!: flat_overlap_check [OF vs wf [unfolded MAP_REGION_FLAT_def]])
  from mmap_add_region_inv [OF vs inv wf this] show ?thesis
    using mmap_add_region_next by (fastforce simp: MAP_REGION_FLAT_def)
qed

text \<open>A whole list of flat regions with its terminating entry.\<close>

lemma mmap_add_inv:
  assumes vs: "unat (PLAT_VIRT_ADDR_SPACE_SIZE C) \<le> 2 ^ 48" and "mmap_inv C rs k s"
    and "\<forall>m \<in> set rs. base_pa m = base_va m \<and> (\<forall>n \<in> set ns. apart_or_nested n m)"
    and "\<forall>m \<in> set ns. wf_region C m \<and> base_pa m = base_va m"
    and "sorted_wrt (\<lambda>m n. apart_or_nested n m) ns" and "length ns < k"
  shows "\<exists>rs' s'. mmap_add (ns @ [empty_region]) s = Some s' \<and> mmap_inv C rs' (k - length ns) s' \<and>
    set rs' = set rs \<union> set ns \<and> next_xlat s' = next_xlat s"
  using assms(2-)
proof (induction ns arbitrary: rs k s)
  case (Cons n ns)
  obtain k' where k: "k = Suc k'" using Cons.prems(5) by (cases k) auto
  have n: "MAP_REGION_FLAT (base_va n) (region_size n) (region_attr n) = n"
    using Cons.prems(3) by (simp add: MAP_REGION_FLAT_def)
  have inv: "mmap_inv C rs (Suc k') s" using Cons.prems(1) k by simp
  obtain rs1 s1 where 1: "mmap_add_region (base_va n) (base_va n) (region_size n) (region_attr n) s = Some s1"
      "mmap_inv C rs1 k' s1" "set rs1 = insert n (set rs)" "next_xlat s1 = next_xlat s"
    using add_flat [OF vs inv, of "base_va n" "region_size n" "region_attr n"] Cons.prems(2,3) n by auto
  obtain rs' s' where "mmap_add (ns @ [empty_region]) s1 = Some s'" "mmap_inv C rs' (k' - length ns) s'"
      "set rs' = set rs1 \<union> set ns" "next_xlat s' = next_xlat s1"
    using Cons.IH [OF 1(2)] Cons.prems(2-) k 1(3) by auto
  then show ?case using 1 k Cons.prems(3) by (auto simp: wf_region_def)
qed (auto simp: empty_region_def)

lemma regions_ok_unique:
  assumes "sorted_wrt region_before rs" "m \<in> set rs" "n \<in> set rs" "lo m = lo n" "hi m = hi n" "lo m < hi m"
  shows "m = n"
  using assms by (induction rs) (auto simp: region_before_def)

lemma innermost_eqI:
  assumes vs: "unat (PLAT_VIRT_ADDR_SPACE_SIZE C) \<le> 2 ^ 48" and ok: "regions_ok C rs"
    and n: "n \<in> set rs" "covers v n" and small: "\<forall>m \<in> set rs. covers v m \<longrightarrow> hi n - lo n \<le> hi m - lo m"
  shows "innermost rs v = Some n"
proof -
  have srt: "sorted_wrt region_before rs" using ok by (simp add: regions_ok_def)
  obtain x where x: "innermost rs v = Some x" using n by (cases "innermost rs v") (auto simp: innermost_None_iff)
  have xs: "x \<in> set rs" "covers v x" using innermost_SomeD [OF x] by auto
  have ne: "lo x < hi x" using ok xs wf_regionD(1) [OF _ vs] by (auto simp: regions_ok_def)
  have "lo n \<le> lo x" "hi x \<le> hi n" using innermost_smallest [OF srt x n] by auto
  moreover have "hi n - lo n \<le> hi x - lo x" using small xs by blast
  ultimately have "lo x = lo n" "hi x = hi n" using ne by linarith+
  then show ?thesis using regions_ok_unique [OF srt xs(1) n(1)] ne x by simp
qed

subsection \<open>The memory map of BL31 on the Armada 3700\<close>

definition MARVELL_SHARED_RAM_BASE :: u64 where "MARVELL_SHARED_RAM_BASE = 0x4000000"
definition MARVELL_SHARED_RAM_SIZE :: u64 where "MARVELL_SHARED_RAM_SIZE = 0x1000"
definition MARVELL_DRAM_BASE :: u64 where "MARVELL_DRAM_BASE = 0"
definition MARVELL_DRAM_SIZE :: u64 where "MARVELL_DRAM_SIZE = 0x20000000"
definition DEVICE0_BASE :: u64 where "DEVICE0_BASE = 0xD0000000"
definition DEVICE0_SIZE :: u64 where "DEVICE0_SIZE = 0x10000000"
definition BL31_BASE :: u64 where "BL31_BASE = 0x4001000 + 0x7F000 - 0x5D000"
definition BL31_LIMIT :: u64 where "BL31_LIMIT = 0x4001000 + 0x7F000"

definition plat_marvell_mmap_bl31 :: "mmap_region list" where
  "plat_marvell_mmap_bl31 =
     [MAP_REGION_FLAT MARVELL_SHARED_RAM_BASE MARVELL_SHARED_RAM_SIZE (MT_MEMORY OR MT_RW OR MT_SECURE),
      MAP_REGION_FLAT DEVICE0_BASE DEVICE0_SIZE (MT_DEVICE OR MT_RW OR MT_SECURE),
      MAP_REGION_FLAT MARVELL_DRAM_BASE MARVELL_DRAM_SIZE (MT_MEMORY OR MT_RW OR MT_NS),
      empty_region]"

lemmas a3700_map_defs = MARVELL_SHARED_RAM_BASE_def MARVELL_SHARED_RAM_SIZE_def MARVELL_DRAM_BASE_def
  MARVELL_DRAM_SIZE_def DEVICE0_BASE_def DEVICE0_SIZE_def BL31_BASE_def BL31_LIMIT_def

text \<open>
  The addresses the linker gives BL31: its code from its base on, its read-only data, and its end.
\<close>

definition bl31_layout :: "u64 \<Rightarrow> u64 \<Rightarrow> u64 \<Rightarrow> u64 \<Rightarrow> bool" where
  "bl31_layout code_end ro_start ro_end bl31_end \<longleftrightarrow>
     (\<forall>a \<in> {code_end, ro_start, ro_end, bl31_end}. 4096 dvd unat a) \<and>
     BL31_BASE < code_end \<and> code_end \<le> ro_start \<and> ro_start < ro_end \<and> ro_end < bl31_end \<and> bl31_end \<le> BL31_LIMIT"

text \<open>The attributes of every address, as the memory map means them.\<close>

definition a3700_bl31_attr :: "u64 \<Rightarrow> u64 \<Rightarrow> u64 \<Rightarrow> u64 \<Rightarrow> u64 \<Rightarrow> u32 option" where
  "a3700_bl31_attr code_end ro_start ro_end bl31_end v =
     (if BL31_BASE \<le> v \<and> v < code_end then Some (MT_CODE OR MT_SECURE)
      else if ro_start \<le> v \<and> v < ro_end then Some (MT_RO_DATA OR MT_SECURE)
      else if BL31_BASE \<le> v \<and> v < bl31_end then Some (MT_MEMORY OR MT_RW OR MT_SECURE)
      else if MARVELL_SHARED_RAM_BASE \<le> v \<and> v < MARVELL_SHARED_RAM_BASE + MARVELL_SHARED_RAM_SIZE
      then Some (MT_MEMORY OR MT_RW OR MT_SECURE)
      else if v < MARVELL_DRAM_SIZE then Some (MT_MEMORY OR MT_RW OR MT_NS)
      else if DEVICE0_BASE \<le> v \<and> v < DEVICE0_BASE + DEVICE0_SIZE then Some (MT_DEVICE OR MT_RW OR MT_SECURE)
      else None)"

lemma flat_simps [simp]:
  "base_va (MAP_REGION_FLAT b z a) = b" "base_pa (MAP_REGION_FLAT b z a) = b"
  "region_size (MAP_REGION_FLAT b z a) = z" "region_attr (MAP_REGION_FLAT b z a) = a"
  by (simp_all add: MAP_REGION_FLAT_def)

lemma flat_iv [simp]: "lo (MAP_REGION_FLAT b z a) = unat b" "hi (MAP_REGION_FLAT b z a) = unat b + unat z"
  by (simp_all add: lo_def hi_def)

definition bl31_regions :: "u64 \<Rightarrow> u64 \<Rightarrow> u64 \<Rightarrow> u64 \<Rightarrow> mmap_region set" where
  "bl31_regions code_end ro_start ro_end bl31_end =
     {MAP_REGION_FLAT BL31_BASE (bl31_end - BL31_BASE) (MT_MEMORY OR MT_RW OR MT_SECURE),
      MAP_REGION_FLAT BL31_BASE (code_end - BL31_BASE) (MT_CODE OR MT_SECURE),
      MAP_REGION_FLAT ro_start (ro_end - ro_start) (MT_RO_DATA OR MT_SECURE),
      MAP_REGION_FLAT MARVELL_SHARED_RAM_BASE MARVELL_SHARED_RAM_SIZE (MT_MEMORY OR MT_RW OR MT_SECURE),
      MAP_REGION_FLAT DEVICE0_BASE DEVICE0_SIZE (MT_DEVICE OR MT_RW OR MT_SECURE),
      MAP_REGION_FLAT MARVELL_DRAM_BASE MARVELL_DRAM_SIZE (MT_MEMORY OR MT_RW OR MT_NS)}"

lemma bl31_nat:
  assumes "bl31_layout c r r' e"
  shows "4096 dvd unat c" "4096 dvd unat r" "4096 dvd unat r'" "4096 dvd unat e"
    "0x4023000 < unat c" "unat c \<le> unat r" "unat r < unat r'" "unat r' < unat e" "unat e \<le> 0x4080000"
    "unat (c - BL31_BASE) = unat c - 0x4023000" "unat (e - BL31_BASE) = unat e - 0x4023000"
    "unat (r' - r) = unat r' - unat r" "unat BL31_BASE = 0x4023000"
  using assms
  by (auto simp: bl31_layout_def a3700_map_defs word_less_nat_alt word_le_nat_alt unat_sub_le)

lemma bl31_flat_wf:
  assumes "PLAT_VIRT_ADDR_SPACE_SIZE C = push_bit 32 1" "4096 dvd unat b" "4096 dvd unat z" "0 < unat z"
    "unat b + unat z \<le> 2 ^ 32"
  shows "wf_region C (MAP_REGION_FLAT b z a)"
proof -
  have "unat (PLAT_VIRT_ADDR_SPACE_SIZE C) = 2 ^ 32" using assms(1) unat_push_bit_1 [of 32, where 'a = 64] by simp
  then show ?thesis using assms(2-) by (auto simp: wf_region_def unat_gt_0)
qed

lemma marvell_setup_mmap_add:
  assumes "z \<noteq> 0" "c \<noteq> b" "r' \<noteq> r"
  shows "marvell_setup_page_tables C el ms b z b c r r' s =
    (case mmap_add (MAP_REGION_FLAT b z (MT_MEMORY OR MT_RW OR MT_SECURE) #
        MAP_REGION_FLAT b (c - b) (MT_CODE OR MT_SECURE) #
        MAP_REGION_FLAT r (r' - r) (MT_RO_DATA OR MT_SECURE) # ms) s of
       None \<Rightarrow> None | Some s \<Rightarrow> init_xlat_tables C el s)"
  using assms by (simp add: marvell_setup_page_tables_def split: option.split)

lemma bl31_setup_regions:
  assumes VS: "PLAT_VIRT_ADDR_SPACE_SIZE C = push_bit 32 1" and lay: "bl31_layout c r r' e"
    and s: "mmap s = replicate 8 empty_region"
  shows "\<exists>rs s'. marvell_setup_page_tables C el plat_marvell_mmap_bl31 BL31_BASE (e - BL31_BASE)
      BL31_BASE c r r' s = init_xlat_tables C el s' \<and> mmap_inv C rs 2 s' \<and>
      set rs = bl31_regions c r r' e \<and> next_xlat s' = next_xlat s"
proof -
  note n = bl31_nat [OF lay]
  have vs: "unat (PLAT_VIRT_ADDR_SPACE_SIZE C) \<le> 2 ^ 48" using VS unat_push_bit_1 [of 32, where 'a = 64] by simp
  have d: "4096 dvd unat c - 0x4023000" "4096 dvd unat e - 0x4023000" "4096 dvd unat r' - unat r"
    using n by (auto intro: dvd_diff_nat)
  let ?ns = "[MAP_REGION_FLAT BL31_BASE (e - BL31_BASE) (MT_MEMORY OR MT_RW OR MT_SECURE),
      MAP_REGION_FLAT BL31_BASE (c - BL31_BASE) (MT_CODE OR MT_SECURE),
      MAP_REGION_FLAT r (r' - r) (MT_RO_DATA OR MT_SECURE),
      MAP_REGION_FLAT MARVELL_SHARED_RAM_BASE MARVELL_SHARED_RAM_SIZE (MT_MEMORY OR MT_RW OR MT_SECURE),
      MAP_REGION_FLAT DEVICE0_BASE DEVICE0_SIZE (MT_DEVICE OR MT_RW OR MT_SECURE),
      MAP_REGION_FLAT MARVELL_DRAM_BASE MARVELL_DRAM_SIZE (MT_MEMORY OR MT_RW OR MT_NS)]"
  have u: "unat MARVELL_SHARED_RAM_BASE = 0x4000000" "unat MARVELL_SHARED_RAM_SIZE = 0x1000"
    "unat MARVELL_DRAM_BASE = 0" "unat MARVELL_DRAM_SIZE = 0x20000000"
    "unat DEVICE0_BASE = 0xD0000000" "unat DEVICE0_SIZE = 0x10000000"
    by (simp_all add: a3700_map_defs)
  have inv: "mmap_inv C [] 8 s" using s by (simp add: mmap_inv_def regions_ok_def)
  have wf: "\<forall>m \<in> set ?ns. wf_region C m \<and> base_pa m = base_va m"
    using n d u by (auto intro!: bl31_flat_wf [OF VS])
  have an: "sorted_wrt (\<lambda>m n. apart_or_nested n m) ?ns"
    using n u by (simp add: apart_or_nested_def)
  obtain rs s' where "mmap_add (?ns @ [empty_region]) s = Some s'" "mmap_inv C rs 2 s'" "set rs = set ?ns"
      "next_xlat s' = next_xlat s"
    using mmap_add_inv [OF vs inv _ wf an] by auto
  moreover have "e - BL31_BASE \<noteq> 0" "c \<noteq> BL31_BASE" "r' \<noteq> r" using n by (auto simp: unat_eq_zero [symmetric])
  ultimately show ?thesis
    by (intro exI [of _ rs] exI [of _ s'])
      (simp add: marvell_setup_mmap_add plat_marvell_mmap_bl31_def bl31_regions_def)
qed

lemma bl31_split_areas:
  assumes lay: "bl31_layout c r r' e" and rs: "set rs = bl31_regions c r r' e"
  shows "split_areas rs 1 0 (2 ^ 32) \<subseteq> {(1, 0), (1, 0xC0000000), (2, 0x4000000)}"
proof
  note n = bl31_nat [OF lay]
  fix x
  assume "x \<in> split_areas rs 1 0 (2 ^ 32)"
  then obtain l a where x: "x = (l, a)" and l': "1 \<le> l" "l < 3" and a: "lsz l dvd a" "a < 2 ^ 32"
    and nt: "needs_table rs l a" by (auto simp: split_areas_def)
  have l: "l = 1 \<or> l = 2" using l' by arith
  obtain p where p: "a < p" "p < a + lsz l" "p \<in> lo ` set rs \<union> hi ` set rs"
    using nt l' unfolding needs_table_def by auto
  obtain q where q: "a = q * lsz l" using a(1) by (metis dvd_def mult.commute)
  have pd: "p div lsz l = q" using p(1,2) q by (intro div_nat_eqI) (simp_all add: mult.commute)
  have pm: "p mod lsz l \<noteq> 0"
  proof
    assume "p mod lsz l = 0"
    then have "p = q * lsz l" using pd by auto
    then show False using p(1) q by simp
  qed
  consider "p \<in> {0, 0x4000000, 0xD0000000, 0xE0000000, 0x20000000}" | "0x4000000 < p" "p \<le> 0x4080000"
    using p(3) n unfolding rs bl31_regions_def by (auto simp: a3700_map_defs)
  then show "x \<in> {(1, 0), (1, 0xC0000000), (2, 0x4000000)}"
  proof cases
    case 1
    then show ?thesis using l pd pm x q by (auto simp: lsz_values)
  next
    case 2
    have "l = 1 \<Longrightarrow> q = 0" using pd 2 by (simp add: lsz_values)
    moreover have "l = 2 \<Longrightarrow> q = 32" using pd 2 by (simp add: lsz_values div_nat_eqI [of 32])
    ultimately show ?thesis using l x q by (auto simp: lsz_values)
  qed
qed

lemma bl31_innermost:
  assumes VS: "PLAT_VIRT_ADDR_SPACE_SIZE C = push_bit 32 1" and lay: "bl31_layout c r r' e"
    and ok: "regions_ok C rs" and rs: "set rs = bl31_regions c r r' e"
  shows "map_option region_attr (innermost rs (unat v)) = a3700_bl31_attr c r r' e v"
    and "innermost rs (unat v) = Some m \<Longrightarrow> base_pa m = base_va m"
proof -
  note n = bl31_nat [OF lay]
  have vs: "unat (PLAT_VIRT_ADDR_SPACE_SIZE C) \<le> 2 ^ 48" using VS unat_push_bit_1 [of 32, where 'a = 64] by simp
  show "innermost rs (unat v) = Some m \<Longrightarrow> base_pa m = base_va m"
    using innermost_SomeD [of rs "unat v" m] rs by (auto simp: bl31_regions_def)
  have u: "unat MARVELL_SHARED_RAM_BASE = 0x4000000" "unat MARVELL_SHARED_RAM_SIZE = 0x1000"
    "unat MARVELL_DRAM_BASE = 0" "unat MARVELL_DRAM_SIZE = 0x20000000"
    "unat DEVICE0_BASE = 0xD0000000" "unat DEVICE0_SIZE = 0x10000000"
    "unat (MARVELL_SHARED_RAM_BASE + MARVELL_SHARED_RAM_SIZE) = 0x4001000" "unat (DEVICE0_BASE + DEVICE0_SIZE) = 0xE0000000"
    by (simp_all add: a3700_map_defs)
  note eqI = innermost_eqI [OF vs ok, of _ "unat v"]
  note cmp = word_le_nat_alt word_less_nat_alt
  let ?R = "MAP_REGION_FLAT"
  have 1: "innermost rs (unat v) = Some (?R BL31_BASE (c - BL31_BASE) (MT_CODE OR MT_SECURE))"
    if "BL31_BASE \<le> v" "v < c"
    by (rule eqI) (use that n u in \<open>auto simp: rs bl31_regions_def covers_def cmp\<close>)
  have 2: "innermost rs (unat v) = Some (?R r (r' - r) (MT_RO_DATA OR MT_SECURE))" if "r \<le> v" "v < r'"
    by (rule eqI) (use that n u in \<open>auto simp: rs bl31_regions_def covers_def cmp\<close>)
  have 3: "innermost rs (unat v) = Some (?R BL31_BASE (e - BL31_BASE) (MT_MEMORY OR MT_RW OR MT_SECURE))"
    if "BL31_BASE \<le> v" "v < e" "\<not> v < c" "\<not> (r \<le> v \<and> v < r')"
    by (rule eqI) (use that n u in \<open>auto simp: rs bl31_regions_def covers_def cmp\<close>)
  have 4: "innermost rs (unat v) = Some (?R MARVELL_SHARED_RAM_BASE MARVELL_SHARED_RAM_SIZE (MT_MEMORY OR MT_RW OR MT_SECURE))"
    if "MARVELL_SHARED_RAM_BASE \<le> v" "v < MARVELL_SHARED_RAM_BASE + MARVELL_SHARED_RAM_SIZE"
    by (rule eqI) (use that n u in \<open>auto simp: rs bl31_regions_def covers_def cmp\<close>)
  have dr: "innermost rs (unat v) = Some (?R MARVELL_DRAM_BASE MARVELL_DRAM_SIZE (MT_MEMORY OR MT_RW OR MT_NS))"
    if "v < MARVELL_DRAM_SIZE" "\<not> (BL31_BASE \<le> v \<and> v < e)"
      "\<not> (MARVELL_SHARED_RAM_BASE \<le> v \<and> v < MARVELL_SHARED_RAM_BASE + MARVELL_SHARED_RAM_SIZE)"
    by (rule eqI) (use that n u in \<open>auto simp: rs bl31_regions_def covers_def cmp\<close>)
  have dv: "innermost rs (unat v) = Some (?R DEVICE0_BASE DEVICE0_SIZE (MT_DEVICE OR MT_RW OR MT_SECURE))"
    if "DEVICE0_BASE \<le> v" "v < DEVICE0_BASE + DEVICE0_SIZE"
    by (rule eqI) (use that n u in \<open>auto simp: rs bl31_regions_def covers_def cmp\<close>)
  have none: "innermost rs (unat v) = None" if "\<not> v < MARVELL_DRAM_SIZE" "\<not> (DEVICE0_BASE \<le> v \<and> v < DEVICE0_BASE + DEVICE0_SIZE)"
    unfolding innermost_None_iff using that n u by (auto simp: rs bl31_regions_def covers_def cmp)
  show "map_option region_attr (innermost rs (unat v)) = a3700_bl31_attr c r r' e v"
  proof -
    let ?b = "BL31_BASE \<le> v" and ?sh = "MARVELL_SHARED_RAM_BASE \<le> v \<and> v < MARVELL_SHARED_RAM_BASE + MARVELL_SHARED_RAM_SIZE"
    consider "?b \<and> v < c" | "\<not> (?b \<and> v < c)" "r \<le> v \<and> v < r'"
      | "\<not> (?b \<and> v < c)" "\<not> (r \<le> v \<and> v < r')" "?b \<and> v < e"
      | "\<not> (?b \<and> v < c)" "\<not> (r \<le> v \<and> v < r')" "\<not> (?b \<and> v < e)" "?sh"
      | "\<not> (?b \<and> v < c)" "\<not> (r \<le> v \<and> v < r')" "\<not> (?b \<and> v < e)" "\<not> ?sh" by blast
    then show ?thesis
    proof cases
      case 5
      show ?thesis unfolding a3700_bl31_attr_def if_not_P [OF 5(1)] if_not_P [OF 5(2)] if_not_P [OF 5(3)] if_not_P [OF 5(4)]
        using dr [OF _ 5(3,4)] dv none by simp
    qed (auto simp: a3700_bl31_attr_def 1 2 3 4)
  qed
qed

subsection \<open>The properties\<close>

definition ex_xlat_cfg :: xlat_cfg where
  "ex_xlat_cfg = \<lparr>MAX_XLAT_TABLES = 4, PLAT_VIRT_ADDR_SPACE_SIZE = push_bit 32 1,
     xlat_tables_addr = 0x4038000, base_xlation_table_addr = 0x403c000\<rparr>"

definition ex_xlat_state :: xlat_state where
  "ex_xlat_state = \<lparr>mmap = replicate 8 empty_region, tables = (\<lambda>_ _. 0), next_xlat = 0, xlat_max_pa = 0,
     xlat_max_va = 0, execute_never_mask = 0, tcr_ps_bits = 0\<rparr>"

lemma aligned_not_inside: "L dvd a \<Longrightarrow> L dvd p \<Longrightarrow> a < p \<Longrightarrow> \<not> p < a + (L :: nat)"
  using nat_dvd_not_less [of "p - a" L] dvd_diff_nat [of L p a] by (auto simp: less_diff_conv2 add.commute)

lemma ex_cfg_ok: "cfg_ok ex_xlat_cfg"
  by (auto simp: cfg_ok_def ex_xlat_cfg_def intro!: bexI [of _ 32])

lemma ex_layout: "bl31_layout 0x402A000 0x402A000 0x402C000 0x4040000"
  by (simp add: bl31_layout_def a3700_map_defs word_less_nat_alt word_le_nat_alt)

text \<open>
  C13. \<^verbatim>\<open>init_xlat_tables\<close> implements the memory map. With enough tables for the areas in which a
  region begins or ends, it returns; and then, for every virtual address, the architecture's walk of the
  tables faults when no region covers the address, and otherwise ends in a descriptor with the attributes
  of the innermost region around it that translates the address by the offset of that region.
\<close>

theorem init_xlat_tables_translates:
  assumes "cfg_ok C" "mmap_inv C rs (Suc k) s"
    "next_xlat s + card (split_areas rs (base_level C) 0 (unat (PLAT_VIRT_ADDR_SPACE_SIZE C))) \<le> MAX_XLAT_TABLES C"
  shows "\<exists>s'. init_xlat_tables C el s = Some s' \<and>
    (\<forall>v. unat v < unat (PLAT_VIRT_ADDR_SPACE_SIZE C) \<longrightarrow>
      maps_to (xlat_arch_get_xn_desc el) v (innermost rs (unat v)) (xlat_walk C (tables s') (base_level C) Base v))"
  using assms by (rule init_xlat_tables_built)

theorem init_xlat_tables_translates_witness:
  "\<exists>s'. init_xlat_tables ex_xlat_cfg 3 ex_xlat_state = Some s' \<and>
     xlat_walk ex_xlat_cfg (tables s') (base_level ex_xlat_cfg) Base 0x1000 = None"
proof -
  have "mmap_inv ex_xlat_cfg [] (Suc 7) ex_xlat_state"
    by (simp add: mmap_inv_def ex_xlat_state_def regions_ok_def numeral_eq_Suc)
  moreover have "split_areas [] l a b = {}" for l a b by (simp add: split_areas_def needs_table_def)
  moreover have "unat (0x1000 :: u64) < unat (PLAT_VIRT_ADDR_SPACE_SIZE ex_xlat_cfg)"
    by (simp add: ex_xlat_cfg_def)
  moreover have "next_xlat ex_xlat_state \<le> MAX_XLAT_TABLES ex_xlat_cfg" by (simp add: ex_xlat_state_def)
  ultimately obtain s' where "init_xlat_tables ex_xlat_cfg 3 ex_xlat_state = Some s'"
      "maps_to (xlat_arch_get_xn_desc 3) 0x1000 None (xlat_walk ex_xlat_cfg (tables s') (base_level ex_xlat_cfg) Base 0x1000)"
    using init_xlat_tables_translates [OF ex_cfg_ok, of "[]" 7 ex_xlat_state 3] by fastforce
  then show ?thesis by (auto simp: maps_to_def)
qed

text \<open>
  C16. No memory is both writable and executable: a leaf of the tables that allows writes (its \<^verbatim>\<open>AP[2]\<close> bit is
  clear) has the execute-never bits of the exception level set.
\<close>

theorem xlat_no_write_execute:
  assumes "cfg_ok C" "mmap_inv C rs (Suc k) s"
    "next_xlat s + card (split_areas rs (base_level C) 0 (unat (PLAT_VIRT_ADDR_SPACE_SIZE C))) \<le> MAX_XLAT_TABLES C"
    "init_xlat_tables C el s = Some s'" "unat v < unat (PLAT_VIRT_ADDR_SPACE_SIZE C)"
    "xlat_walk C (tables s') (base_level C) Base v = Some (level, d)"
  shows "bit d 7 \<or> xlat_arch_get_xn_desc el AND d = xlat_arch_get_xn_desc el"
proof -
  have "maps_to (xlat_arch_get_xn_desc el) v (innermost rs (unat v)) (Some (level, d))"
    using init_xlat_tables_built [OF assms(1-3), of el] assms(4-6) by auto
  then obtain a pa where "d = mmap_desc (xlat_arch_get_xn_desc el) a pa level"
    by (auto simp: maps_to_def split: option.splits)
  then show ?thesis using desc_write_execute by blast
qed

theorem xlat_no_write_execute_witness:
  "\<exists>s s' level d. init_xlat_tables ex_xlat_cfg 3 s = Some s' \<and>
    xlat_walk ex_xlat_cfg (tables s') (base_level ex_xlat_cfg) Base 0 = Some (level, d) \<and>
    (bit d 7 \<or> UPPER_ATTRS XN AND d = UPPER_ATTRS XN)"
proof -
  have VS: "PLAT_VIRT_ADDR_SPACE_SIZE ex_xlat_cfg = push_bit 32 1" and mm: "mmap ex_xlat_state = replicate 8 empty_region"
    and nx: "next_xlat ex_xlat_state = 0" by (simp_all add: ex_xlat_cfg_def ex_xlat_state_def)
  have "regions_ok ex_xlat_cfg [MAP_REGION_FLAT 0 0x40000000 (MT_MEMORY OR MT_RW)]" (is "regions_ok _ [?m]")
    by (simp add: regions_ok_def bl31_flat_wf [OF VS])
  then have inv: "mmap_inv ex_xlat_cfg [?m] (Suc 0) (ex_xlat_state\<lparr>mmap := [?m, empty_region]\<rparr>)" (is "mmap_inv _ _ _ ?s")
    by (simp add: mmap_inv_def)
  have "\<not> needs_table [?m] l a" if "1 \<le> l" "lsz l dvd a" for l a
    using that lsz_dvd_GB [OF that(1)] aligned_not_inside [of "lsz l" a "2 ^ 30"] by (auto simp: needs_table_def)
  then have "split_areas [?m] 1 0 (2 ^ 32) = {}" by (auto simp: split_areas_def)
  moreover have v32: "unat (PLAT_VIRT_ADDR_SPACE_SIZE ex_xlat_cfg) = 2 ^ 32" by (simp add: VS)
  moreover have bl: "base_level ex_xlat_cfg = 1" unfolding VS
    by (simp add: GET_XLAT_TABLE_LEVEL_BASE_def L0_XLAT_ADDRESS_SHIFT_def L1_XLAT_ADDRESS_SHIFT_def)
  ultimately have n: "next_xlat ?s + card (split_areas [?m] (base_level ex_xlat_cfg) 0
      (unat (PLAT_VIRT_ADDR_SPACE_SIZE ex_xlat_cfg))) \<le> MAX_XLAT_TABLES ex_xlat_cfg" by (simp add: ex_xlat_state_def)
  obtain s' where s': "init_xlat_tables ex_xlat_cfg 3 ?s = Some s'"
      "maps_to (xlat_arch_get_xn_desc 3) 0 (innermost [?m] (unat (0 :: u64)))
        (xlat_walk ex_xlat_cfg (tables s') (base_level ex_xlat_cfg) Base 0)"
    using init_xlat_tables_built [OF ex_cfg_ok inv n, of 3] v32 by (metis unat_0 zero_less_numeral zero_less_power)
  then obtain level d where "xlat_walk ex_xlat_cfg (tables s') (base_level ex_xlat_cfg) Base 0 = Some (level, d)"
    by (auto simp: maps_to_def covers_def)
  with s'(1) xlat_no_write_execute [OF ex_cfg_ok inv n s'(1) _ this] v32 show ?thesis
    by (auto simp: xlat_arch_get_xn_desc_def)
qed

text \<open>
  C15. \<^verbatim>\<open>mmap_add_region\<close> keeps the array of regions sorted, with a region inside another after it, when the
  new region passes the overlap checks and the array has room for it and its end marker; the array then
  holds the regions it had and the new one.
\<close>

theorem mmap_add_region_keeps_order:
  assumes "unat (PLAT_VIRT_ADDR_SPACE_SIZE C) \<le> 2 ^ 48" "mmap_inv C rs (Suc k) s" "wf_region C n"
    "\<forall>m \<in> set rs. mmap_overlap_check n m"
  shows "\<exists>rs' s'. mmap_add_region (base_pa n) (base_va n) (region_size n) (region_attr n) s = Some s' \<and>
    mmap_inv C rs' k s' \<and> set rs' = insert n (set rs) \<and> length rs' = Suc (length rs)"
  using assms by (rule mmap_add_region_inv)

theorem mmap_add_region_keeps_order_witness:
  "\<exists>rs' s'. mmap_add_region 0x4000000 0x4000000 0x1000 8 ex_xlat_state = Some s' \<and>
    mmap_inv ex_xlat_cfg rs' 7 s' \<and> length rs' = 1"
proof -
  have "mmap_inv ex_xlat_cfg [] (Suc 7) ex_xlat_state"
    by (simp add: mmap_inv_def ex_xlat_state_def regions_ok_def numeral_eq_Suc)
  moreover have "wf_region ex_xlat_cfg (MAP_REGION_FLAT 0x4000000 0x1000 8)"
    by (rule bl31_flat_wf) (simp_all add: ex_xlat_cfg_def)
  ultimately show ?thesis
    using mmap_add_region_keeps_order [OF cfg_okD(1) [OF ex_cfg_ok], of "[]" 7 ex_xlat_state
        "MAP_REGION_FLAT 0x4000000 0x1000 8"] by auto
qed

text \<open>
  C14. The page tables of BL31 on the Armada 3700: for every layout of the image that fits its memory,
  \<^verbatim>\<open>marvell_setup_page_tables\<close> succeeds with the four tables of the platform; the code is read-only and
  executable, the read-only data is read-only, the rest of the image is writable memory, the shared RAM and the DRAM
  around it are writable, the register space is device memory, every address is mapped to itself and
  nothing else is mapped.
\<close>

theorem a3700_bl31_page_tables:
  assumes C: "cfg_ok C" and VS: "PLAT_VIRT_ADDR_SPACE_SIZE C = push_bit 32 1" and tables: "4 \<le> MAX_XLAT_TABLES C"
    and lay: "bl31_layout code_end ro_start ro_end bl31_end"
    and s: "mmap s = replicate 8 empty_region" "next_xlat s = 0"
  shows "\<exists>s'. marvell_setup_page_tables C 3 plat_marvell_mmap_bl31 BL31_BASE (bl31_end - BL31_BASE)
      BL31_BASE code_end ro_start ro_end s = Some s' \<and>
    (\<forall>v. unat v < 2 ^ 32 \<longrightarrow>
      (case a3700_bl31_attr code_end ro_start ro_end bl31_end v of
         None \<Rightarrow> xlat_walk C (tables s') 1 Base v = None
       | Some a \<Rightarrow> \<exists>level pa. level \<in> {1..3} \<and>
           xlat_walk C (tables s') 1 Base v = Some (level, mmap_desc (UPPER_ATTRS XN) a pa level) \<and>
           out_addr level (mmap_desc (UPPER_ATTRS XN) a pa level) v = v))"
proof -
  obtain rs s1 where st: "marvell_setup_page_tables C 3 plat_marvell_mmap_bl31 BL31_BASE (bl31_end - BL31_BASE)
      BL31_BASE code_end ro_start ro_end s = init_xlat_tables C 3 s1" "mmap_inv C rs 2 s1"
      "set rs = bl31_regions code_end ro_start ro_end bl31_end" "next_xlat s1 = 0"
    using bl31_setup_regions [OF VS lay s(1), of 3] s(2) by auto
  have bl: "base_level C = 1" unfolding VS
    by (simp add: GET_XLAT_TABLE_LEVEL_BASE_def L0_XLAT_ADDRESS_SHIFT_def L1_XLAT_ADDRESS_SHIFT_def)
  have v32: "unat (PLAT_VIRT_ADDR_SPACE_SIZE C) = 2 ^ 32" using VS unat_push_bit_1 [of 32, where 'a = 64] by simp
  have "card (split_areas rs 1 0 (2 ^ 32)) \<le> card {(1 :: nat, 0 :: nat), (1, 0xC0000000), (2, 0x4000000)}"
    by (rule card_mono) (use bl31_split_areas [OF lay st(3)] in simp_all)
  then have n: "next_xlat s1 + card (split_areas rs (base_level C) 0 (unat (PLAT_VIRT_ADDR_SPACE_SIZE C))) \<le> MAX_XLAT_TABLES C"
    unfolding bl v32 st(4) using tables by simp
  have inv: "mmap_inv C rs (Suc 1) s1" using st(2) by (simp add: numeral_2_eq_2)
  have ok: "regions_ok C rs" using inv by (simp add: mmap_inv_def)
  obtain s' where s': "init_xlat_tables C 3 s1 = Some s'"
    and m: "\<And>v. unat v < 2 ^ 32 \<Longrightarrow> maps_to (UPPER_ATTRS XN) v (innermost rs (unat v)) (xlat_walk C (tables s') 1 Base v)"
    using init_xlat_tables_built [OF C inv n, of 3] unfolding bl v32 by (auto simp: xlat_arch_get_xn_desc_def)
  note im = bl31_innermost [OF VS lay ok st(3)]
  show ?thesis
  proof (intro exI conjI allI impI)
    fix v :: u64
    assume "unat v < 2 ^ 32"
    from m [OF this] im(1) [of v] im(2) [of v]
    show "case a3700_bl31_attr code_end ro_start ro_end bl31_end v of
         None \<Rightarrow> xlat_walk C (tables s') 1 Base v = None
       | Some a \<Rightarrow> \<exists>level pa. level \<in> {1..3} \<and>
           xlat_walk C (tables s') 1 Base v = Some (level, mmap_desc (UPPER_ATTRS XN) a pa level) \<and>
           out_addr level (mmap_desc (UPPER_ATTRS XN) a pa level) v = v"
      by (cases "innermost rs (unat v)") (auto simp: maps_to_def dest: sym split: option.splits)
  qed (use st(1) s' in simp)
qed

theorem a3700_bl31_page_tables_witness:
  "\<exists>s' level pa. marvell_setup_page_tables ex_xlat_cfg 3 plat_marvell_mmap_bl31 BL31_BASE (0x4040000 - BL31_BASE)
      BL31_BASE 0x402A000 0x402A000 0x402C000 ex_xlat_state = Some s' \<and>
    xlat_walk ex_xlat_cfg (tables s') 1 Base BL31_BASE =
      Some (level, mmap_desc (UPPER_ATTRS XN) (MT_CODE OR MT_SECURE) pa level)"
proof -
  have "a3700_bl31_attr 0x402A000 0x402A000 0x402C000 0x4040000 BL31_BASE = Some (MT_CODE OR MT_SECURE)"
    by (simp add: a3700_bl31_attr_def BL31_BASE_def)
  moreover have "unat BL31_BASE < 2 ^ 32" by (simp add: BL31_BASE_def)
  moreover have "PLAT_VIRT_ADDR_SPACE_SIZE ex_xlat_cfg = push_bit 32 1" "4 \<le> MAX_XLAT_TABLES ex_xlat_cfg"
    "mmap ex_xlat_state = replicate 8 empty_region" "next_xlat ex_xlat_state = 0"
    by (simp_all add: ex_xlat_cfg_def ex_xlat_state_def)
  ultimately show ?thesis
    using a3700_bl31_page_tables [OF ex_cfg_ok _ _ ex_layout, of ex_xlat_state] by fastforce
qed

end
