(* ===== verification/Mmio.thy ===== *)
theory Mmio
  imports Atf_Prelude
begin

text \<open>
  Memory mapped registers, \<^verbatim>\<open>include/lib/mmio.h\<close>. What a load or a store does to a device is not in the
  sources: a bus is a parameter of every definition that touches registers. The locale
  \<open>storage_bus\<close> states what the code relies on for the registers that only hold their value, and is
  interpreted on the memory that C gives a load and a store.
\<close>

record 'h bus =
  bus_read8 :: "u64 \<Rightarrow> 'h \<Rightarrow> u8 \<times> 'h"
  bus_write8 :: "u64 \<Rightarrow> u8 \<Rightarrow> 'h \<Rightarrow> 'h"
  bus_read16 :: "u64 \<Rightarrow> 'h \<Rightarrow> u16 \<times> 'h"
  bus_write16 :: "u64 \<Rightarrow> u16 \<Rightarrow> 'h \<Rightarrow> 'h"
  bus_read32 :: "u64 \<Rightarrow> 'h \<Rightarrow> u32 \<times> 'h"
  bus_write32 :: "u64 \<Rightarrow> u32 \<Rightarrow> 'h \<Rightarrow> 'h"
  bus_read64 :: "u64 \<Rightarrow> 'h \<Rightarrow> u64 \<times> 'h"
  bus_write64 :: "u64 \<Rightarrow> u64 \<Rightarrow> 'h \<Rightarrow> 'h"

definition mmio_write_8 :: "'h bus \<Rightarrow> u64 \<Rightarrow> u8 \<Rightarrow> 'h \<Rightarrow> 'h" where
  "mmio_write_8 B addr value h = bus_write8 B addr value h"

definition mmio_read_8 :: "'h bus \<Rightarrow> u64 \<Rightarrow> 'h \<Rightarrow> u8 \<times> 'h" where
  "mmio_read_8 B addr h = bus_read8 B addr h"

definition mmio_write_16 :: "'h bus \<Rightarrow> u64 \<Rightarrow> u16 \<Rightarrow> 'h \<Rightarrow> 'h" where
  "mmio_write_16 B addr value h = bus_write16 B addr value h"

definition mmio_read_16 :: "'h bus \<Rightarrow> u64 \<Rightarrow> 'h \<Rightarrow> u16 \<times> 'h" where
  "mmio_read_16 B addr h = bus_read16 B addr h"

definition mmio_clrsetbits_16 :: "'h bus \<Rightarrow> u64 \<Rightarrow> u16 \<Rightarrow> u16 \<Rightarrow> 'h \<Rightarrow> 'h" where
  "mmio_clrsetbits_16 B addr clear set_bits h =
     (let (r, h) = mmio_read_16 B addr h in mmio_write_16 B addr ((r AND NOT clear) OR set_bits) h)"

definition mmio_write_32 :: "'h bus \<Rightarrow> u64 \<Rightarrow> u32 \<Rightarrow> 'h \<Rightarrow> 'h" where
  "mmio_write_32 B addr value h = bus_write32 B addr value h"

definition mmio_read_32 :: "'h bus \<Rightarrow> u64 \<Rightarrow> 'h \<Rightarrow> u32 \<times> 'h" where
  "mmio_read_32 B addr h = bus_read32 B addr h"

definition mmio_write_64 :: "'h bus \<Rightarrow> u64 \<Rightarrow> u64 \<Rightarrow> 'h \<Rightarrow> 'h" where
  "mmio_write_64 B addr value h = bus_write64 B addr value h"

definition mmio_read_64 :: "'h bus \<Rightarrow> u64 \<Rightarrow> 'h \<Rightarrow> u64 \<times> 'h" where
  "mmio_read_64 B addr h = bus_read64 B addr h"

definition mmio_clrbits_32 :: "'h bus \<Rightarrow> u64 \<Rightarrow> u32 \<Rightarrow> 'h \<Rightarrow> 'h" where
  "mmio_clrbits_32 B addr clear h = (let (r, h) = mmio_read_32 B addr h in mmio_write_32 B addr (r AND NOT clear) h)"

definition mmio_setbits_32 :: "'h bus \<Rightarrow> u64 \<Rightarrow> u32 \<Rightarrow> 'h \<Rightarrow> 'h" where
  "mmio_setbits_32 B addr set_bits h = (let (r, h) = mmio_read_32 B addr h in mmio_write_32 B addr (r OR set_bits) h)"

definition mmio_clrsetbits_32 :: "'h bus \<Rightarrow> u64 \<Rightarrow> u32 \<Rightarrow> u32 \<Rightarrow> 'h \<Rightarrow> 'h" where
  "mmio_clrsetbits_32 B addr clear set_bits h =
     (let (r, h) = mmio_read_32 B addr h in mmio_write_32 B addr ((r AND NOT clear) OR set_bits) h)"

text \<open>
  \<open>storage_bus B peek S\<close>: the registers of \<open>S\<close> are storage. A load returns the value and changes
  nothing, and a store changes the value of its own register alone.
\<close>

locale storage_bus =
  fixes B :: "'h bus"
    and peek :: "'h \<Rightarrow> u64 \<Rightarrow> u32"
    and S :: "u64 set"
  assumes read_storage: "a \<in> S \<Longrightarrow> bus_read32 B a h = (peek h a, h)"
    and write_storage: "a \<in> S \<Longrightarrow> b \<in> S \<Longrightarrow> peek (bus_write32 B a v h) b = (if b = a then v else peek h b)"
begin

lemma peek_read [simp]: "a \<in> S \<Longrightarrow> mmio_read_32 B a h = (peek h a, h)"
  by (simp add: mmio_read_32_def read_storage)

lemma peek_write [simp]:
  "a \<in> S \<Longrightarrow> b \<in> S \<Longrightarrow> peek (mmio_write_32 B a v h) b = (if b = a then v else peek h b)"
  by (simp add: mmio_write_32_def write_storage)

lemma peek_clrbits [simp]:
  "a \<in> S \<Longrightarrow> b \<in> S \<Longrightarrow> peek (mmio_clrbits_32 B a v h) b = (if b = a then peek h a AND NOT v else peek h b)"
  by (simp add: mmio_clrbits_32_def)

lemma peek_setbits [simp]:
  "a \<in> S \<Longrightarrow> b \<in> S \<Longrightarrow> peek (mmio_setbits_32 B a v h) b = (if b = a then peek h a OR v else peek h b)"
  by (simp add: mmio_setbits_32_def)

lemma peek_clrsetbits [simp]:
  "a \<in> S \<Longrightarrow> b \<in> S \<Longrightarrow>
   peek (mmio_clrsetbits_32 B a c v h) b = (if b = a then (peek h a AND NOT c) OR v else peek h b)"
  by (simp add: mmio_clrsetbits_32_def)

end

text \<open>
  The loads and the stores of \<^verbatim>\<open>mmio.h\<close> on memory, held in little-endian cells of 32 bits, and the same
  memory that keeps each state it went through, the latest first.
\<close>

definition cell_shift :: "u64 \<Rightarrow> nat" where
  "cell_shift a = 8 * unat (a AND 3)"

definition cell_read :: "(u64 \<Rightarrow> u32) \<Rightarrow> u64 \<Rightarrow> 'a :: len word" where
  "cell_read m a = ucast (drop_bit (cell_shift a) (m (a AND NOT 3)))"

definition cell_write :: "u64 \<Rightarrow> 'a :: len word \<Rightarrow> (u64 \<Rightarrow> u32) \<Rightarrow> u64 \<Rightarrow> u32" where
  "cell_write a v m = m(a AND NOT 3 :=
     (m (a AND NOT 3) AND NOT (push_bit (cell_shift a) (mask LENGTH('a)))) OR push_bit (cell_shift a) (ucast v))"

definition memory_bus :: "(u64 \<Rightarrow> u32) bus" where
  "memory_bus =
     \<lparr> bus_read8 = (\<lambda>a m. (cell_read m a, m)), bus_write8 = cell_write,
       bus_read16 = (\<lambda>a m. (cell_read m a, m)), bus_write16 = cell_write,
       bus_read32 = (\<lambda>a m. (m a, m)), bus_write32 = (\<lambda>a v m. m(a := v)),
       bus_read64 = (\<lambda>a m. (ucast (m a) OR push_bit 32 (ucast (m (a + 4))), m)),
       bus_write64 = (\<lambda>a v m. m(a := ucast v, a + 4 := ucast (drop_bit 32 v))) \<rparr>"

definition logged_bus :: "'h bus \<Rightarrow> 'h list bus" where
  "logged_bus B =
     \<lparr> bus_read8 = (\<lambda>a l. let (r, h) = bus_read8 B a (hd l) in (r, h # tl l)), bus_write8 = (\<lambda>a v l. bus_write8 B a v (hd l) # l),
       bus_read16 = (\<lambda>a l. let (r, h) = bus_read16 B a (hd l) in (r, h # tl l)), bus_write16 = (\<lambda>a v l. bus_write16 B a v (hd l) # l),
       bus_read32 = (\<lambda>a l. let (r, h) = bus_read32 B a (hd l) in (r, h # tl l)), bus_write32 = (\<lambda>a v l. bus_write32 B a v (hd l) # l),
       bus_read64 = (\<lambda>a l. let (r, h) = bus_read64 B a (hd l) in (r, h # tl l)), bus_write64 = (\<lambda>a v l. bus_write64 B a v (hd l) # l) \<rparr>"

interpretation memory: storage_bus memory_bus "\<lambda>m. m" UNIV
  by unfold_locales (auto simp: memory_bus_def)

end
