(* ===== verification/A3700_Windows.thy ===== *)
theory A3700_Windows
  imports Mmio
begin

text \<open>
  The address decoding of the Armada 3700: the CPU decode windows (\<^verbatim>\<open>dram_win.c\<close>), the decode windows of
  the I/O units (\<^verbatim>\<open>io_addr_dec.c\<close>, configured in \<^verbatim>\<open>marvell_plat_config.c\<close>) and the size of the DRAM
  (\<^verbatim>\<open>marvell_ddr_info.c\<close>). Register addresses are computed in 32 bits, as the macros do, and converted
  to a pointer.
\<close>

abbreviation MVEBU_REGS_BASE :: u32 where "MVEBU_REGS_BASE \<equiv> 0xD0000000"

subsection \<open>Size of the DRAM\<close>

abbreviation DRAM_MAX_IFACE :: nat where "DRAM_MAX_IFACE \<equiv> 1"
abbreviation DRAM_MAX_CS_NUM :: nat where "DRAM_MAX_CS_NUM \<equiv> 2"

definition DRAM_CH0_MMAP_LOW_REG :: "nat \<Rightarrow> nat \<Rightarrow> u64 \<Rightarrow> u64" where
  "DRAM_CH0_MMAP_LOW_REG iface cs base = base + 0x200 + of_nat iface * 0x10000 + of_nat cs * 0x8"

definition DRAM_CS_ENABLED :: "'h bus \<Rightarrow> nat \<Rightarrow> nat \<Rightarrow> u64 \<Rightarrow> 'h \<Rightarrow> u32 \<times> 'h" where
  "DRAM_CS_ENABLED B iface cs base h =
     (let (r, h) = mmio_read_32 B (DRAM_CH0_MMAP_LOW_REG iface cs base) h in (r AND 1, h))"

definition GET_DRAM_REGION_SIZE_CODE :: "'h bus \<Rightarrow> nat \<Rightarrow> nat \<Rightarrow> u64 \<Rightarrow> 'h \<Rightarrow> u8 \<times> 'h" where
  "GET_DRAM_REGION_SIZE_CODE B iface cs base h =
     (let (r, h) = mmio_read_32 B (DRAM_CH0_MMAP_LOW_REG iface cs base) h
      in (ucast (drop_bit 16 (r AND push_bit 16 0x1f)), h))"

definition DRAM_REGION_SIZE_EVEN :: "u8 \<Rightarrow> bool" where
  "DRAM_REGION_SIZE_EVEN c \<longleftrightarrow> c \<ge> 7 \<and> c \<le> 26"

definition GET_DRAM_REGION_SIZE_EVEN :: "u8 \<Rightarrow> u64" where
  "GET_DRAM_REGION_SIZE_EVEN c = push_bit (unat c + 16) 1"

definition DRAM_REGION_SIZE_ODD :: "u8 \<Rightarrow> bool" where
  "DRAM_REGION_SIZE_ODD c \<longleftrightarrow> c \<le> 4"

definition GET_DRAM_REGION_SIZE_ODD :: "u8 \<Rightarrow> u64" where
  "GET_DRAM_REGION_SIZE_ODD c = push_bit (unat c) 0x18000000"

text \<open>
  The inner loop over the chip selects: \<open>Inl\<close> is the early return of 0 on an invalid code, \<open>Inr\<close> the
  accumulated size, also when the loop breaks at a disabled chip select.
\<close>

fun dram_size_cs :: "'h bus \<Rightarrow> u64 \<Rightarrow> nat \<Rightarrow> nat list \<Rightarrow> u64 \<Rightarrow> 'h \<Rightarrow> (u64 + u64) \<times> 'h" where
  "dram_size_cs B ap_base iface [] mem_size h = (Inr mem_size, h)"
| "dram_size_cs B ap_base iface (cs # css) mem_size h =
     (let (en, h) = DRAM_CS_ENABLED B iface cs ap_base h in
      if en = 0 then (Inr mem_size, h)
      else let (region_code, h) = GET_DRAM_REGION_SIZE_CODE B iface cs ap_base h in
        if DRAM_REGION_SIZE_EVEN region_code
        then dram_size_cs B ap_base iface css (mem_size + GET_DRAM_REGION_SIZE_EVEN region_code) h
        else if DRAM_REGION_SIZE_ODD region_code
        then dram_size_cs B ap_base iface css (mem_size + GET_DRAM_REGION_SIZE_ODD region_code) h
        else (Inl 0, h))"

fun dram_size_iface :: "'h bus \<Rightarrow> u64 \<Rightarrow> nat list \<Rightarrow> u64 \<Rightarrow> 'h \<Rightarrow> u64 \<times> 'h" where
  "dram_size_iface B ap_base [] mem_size h = (mem_size, h)"
| "dram_size_iface B ap_base (iface # ifaces) mem_size h =
     (case dram_size_cs B ap_base iface [0..<DRAM_MAX_CS_NUM] mem_size h of
        (Inl ret, h) \<Rightarrow> (ret, h)
      | (Inr mem_size, h) \<Rightarrow> dram_size_iface B ap_base ifaces mem_size h)"

definition mvebu_get_dram_size :: "'h bus \<Rightarrow> u64 \<Rightarrow> 'h \<Rightarrow> u64 \<times> 'h" where
  "mvebu_get_dram_size B ap_base_addr h = dram_size_iface B ap_base_addr [0..<DRAM_MAX_IFACE] 0 h"

subsection \<open>CPU decode windows\<close>

abbreviation MV_CPU_WIN_NUM :: nat where "MV_CPU_WIN_NUM \<equiv> 5"
abbreviation DRAM_WIN_MAP_NUM_MAX :: nat where "DRAM_WIN_MAP_NUM_MAX \<equiv> 5"
abbreviation DRAM_CPU_DEC_TARGET_NUM :: u32 where "DRAM_CPU_DEC_TARGET_NUM \<equiv> 0"
abbreviation MVEBU_CPU_DEC_WIN_REG_BASE :: u32 where "MVEBU_CPU_DEC_WIN_REG_BASE \<equiv> MVEBU_REGS_BASE + 0xCF00"

definition CPU_DEC_WIN_CTRL_REG :: "nat \<Rightarrow> u64" where
  "CPU_DEC_WIN_CTRL_REG win = ucast (MVEBU_CPU_DEC_WIN_REG_BASE + of_nat win * 0x10)"

definition CPU_DEC_WIN_SIZE_REG :: "nat \<Rightarrow> u64" where
  "CPU_DEC_WIN_SIZE_REG win = ucast (MVEBU_CPU_DEC_WIN_REG_BASE + 0x4 + of_nat win * 0x10)"

definition CPU_DEC_WIN_BASE_REG :: "nat \<Rightarrow> u64" where
  "CPU_DEC_WIN_BASE_REG win = ucast (MVEBU_CPU_DEC_WIN_REG_BASE + 0x8 + of_nat win * 0x10)"

definition CPU_DEC_REMAP_LOW_REG :: "nat \<Rightarrow> u64" where
  "CPU_DEC_REMAP_LOW_REG win = ucast (MVEBU_CPU_DEC_WIN_REG_BASE + 0xC + of_nat win * 0x10)"

abbreviation CPU_DEC_CR_WIN_ENABLE :: u32 where "CPU_DEC_CR_WIN_ENABLE \<equiv> 0x1"
abbreviation CPU_DEC_CR_WIN_TARGET_MASK :: u32 where "CPU_DEC_CR_WIN_TARGET_MASK \<equiv> 0xf0"
abbreviation CPU_DEC_CR_WIN_SIZE_MASK :: u32 where "CPU_DEC_CR_WIN_SIZE_MASK \<equiv> 0xffff"
abbreviation CPU_DEC_BR_BASE_MASK :: u32 where "CPU_DEC_BR_BASE_MASK \<equiv> 0xffff"
abbreviation CPU_DEC_RLR_REMAP_LOW_MASK :: u32 where "CPU_DEC_RLR_REMAP_LOW_MASK \<equiv> 0xffff"
abbreviation CPU_DEC_CR_WIN_SIZE_ALIGNMENT :: u64 where "CPU_DEC_CR_WIN_SIZE_ALIGNMENT \<equiv> 0x10000"

datatype cpu_win_target =
    CPU_WIN_TARGET_DRAM | CPU_WIN_TARGET_INTERNAL_REG | CPU_WIN_TARGET_PCIE | CPU_WIN_TARGET_PCIE_OVER_MCI
  | CPU_WIN_TARGET_BOOT_ROM | CPU_WIN_TARGET_MCI_EXTERNAL | CPU_WIN_TARGET_RWTM_RAM | CPU_WIN_TARGET_CCI400_REG

fun cpu_win_target_num :: "cpu_win_target \<Rightarrow> u32" where
  "cpu_win_target_num CPU_WIN_TARGET_DRAM = 0"
| "cpu_win_target_num CPU_WIN_TARGET_INTERNAL_REG = 1"
| "cpu_win_target_num CPU_WIN_TARGET_PCIE = 2"
| "cpu_win_target_num CPU_WIN_TARGET_PCIE_OVER_MCI = 3"
| "cpu_win_target_num CPU_WIN_TARGET_BOOT_ROM = 4"
| "cpu_win_target_num CPU_WIN_TARGET_MCI_EXTERNAL = 5"
| "cpu_win_target_num CPU_WIN_TARGET_RWTM_RAM = 7"
| "cpu_win_target_num CPU_WIN_TARGET_CCI400_REG = 8"

record cpu_win_configuration =
  cw_enabled :: u32
  cw_target :: cpu_win_target
  cw_base_addr :: u64
  cw_size :: u64
  cw_remap_addr :: u64

definition cpu_win_cfg :: "u32 \<Rightarrow> cpu_win_target \<Rightarrow> u64 \<Rightarrow> u64 \<Rightarrow> u64 \<Rightarrow> cpu_win_configuration" where
  "cpu_win_cfg en t b sz rm = \<lparr> cw_enabled = en, cw_target = t, cw_base_addr = b, cw_size = sz, cw_remap_addr = rm \<rparr>"

datatype cpu_win_config_num = CPU_WIN_CONFIG_DRAM_NOT_OVER_2GB | CPU_WIN_CONFIG_DRAM_4GB

fun mv_cpu_wins :: "cpu_win_config_num \<Rightarrow> cpu_win_configuration list" where
  "mv_cpu_wins CPU_WIN_CONFIG_DRAM_NOT_OVER_2GB =
     [cpu_win_cfg 1 CPU_WIN_TARGET_DRAM 0x0 0x08000000 0x0,
      cpu_win_cfg 1 CPU_WIN_TARGET_MCI_EXTERNAL 0xe0000000 0x08000000 0xe0000000,
      cpu_win_cfg 1 CPU_WIN_TARGET_PCIE 0xe8000000 0x08000000 0xe8000000,
      cpu_win_cfg 1 CPU_WIN_TARGET_RWTM_RAM 0xf0000000 0x00020000 0x1fff0000,
      cpu_win_cfg 1 CPU_WIN_TARGET_PCIE_OVER_MCI 0x80000000 0x10000000 0x80000000]"
| "mv_cpu_wins CPU_WIN_CONFIG_DRAM_4GB =
     [cpu_win_cfg 1 CPU_WIN_TARGET_DRAM 0x0 0x80000000 0x0,
      cpu_win_cfg 1 CPU_WIN_TARGET_DRAM 0x80000000 0x40000000 0x80000000,
      cpu_win_cfg 1 CPU_WIN_TARGET_DRAM 0xc0000000 0x10000000 0xc0000000,
      cpu_win_cfg 1 CPU_WIN_TARGET_DRAM 0xe0000000 0x08000000 0xe0000000,
      cpu_win_cfg 1 CPU_WIN_TARGET_PCIE 0xe8000000 0x08000000 0xe8000000]"

record dram_win =
  base_addr :: u64
  win_size :: u64

record dram_win_map =
  dram_win_num :: nat
  dram_windows :: "dram_win list"

text \<open>One iteration of the loop of \<^verbatim>\<open>dram_win_map_build\<close>; the array of windows starts zeroed.\<close>

definition dram_win_map_step :: "'h bus \<Rightarrow> nat \<Rightarrow> dram_win_map \<times> 'h \<Rightarrow> dram_win_map \<times> 'h" where
  "dram_win_map_step B win_id s = (case s of (win_map, h) \<Rightarrow>
     (let (ctrl_reg, h) = mmio_read_32 B (CPU_DEC_WIN_CTRL_REG win_id) h;
          target = drop_bit 4 (ctrl_reg AND CPU_DEC_CR_WIN_TARGET_MASK);
          enabled = ctrl_reg AND CPU_DEC_CR_WIN_ENABLE
      in if enabled = 0 \<or> target \<noteq> DRAM_CPU_DEC_TARGET_NUM then (win_map, h)
         else let (base_reg, h) = mmio_read_32 B (CPU_DEC_WIN_BASE_REG win_id) h;
                  (size_reg, h) = mmio_read_32 B (CPU_DEC_WIN_SIZE_REG win_id) h;
                  base = ucast (base_reg AND CPU_DEC_BR_BASE_MASK) * CPU_DEC_CR_WIN_SIZE_ALIGNMENT;
                  sz = (ucast (size_reg AND CPU_DEC_CR_WIN_SIZE_MASK) + 1) * CPU_DEC_CR_WIN_SIZE_ALIGNMENT
              in (\<lparr> dram_win_num = dram_win_num win_map + 1,
                    dram_windows = (dram_windows win_map)
                      [dram_win_num win_map := \<lparr> base_addr = base, win_size = sz \<rparr>] \<rparr>, h)))"

definition dram_win_map_build :: "'h bus \<Rightarrow> 'h \<Rightarrow> dram_win_map \<times> 'h" where
  "dram_win_map_build B h =
     fold (dram_win_map_step B) [0..<DRAM_WIN_MAP_NUM_MAX]
       (\<lparr> dram_win_num = 0,
          dram_windows = replicate DRAM_WIN_MAP_NUM_MAX \<lparr> base_addr = 0, win_size = 0 \<rparr> \<rparr>, h)"

definition cpu_win_set :: "'h bus \<Rightarrow> nat \<Rightarrow> cpu_win_configuration \<Rightarrow> 'h \<Rightarrow> 'h" where
  "cpu_win_set B win_id win_cfg h =
     (let (ctrl_reg, h) = mmio_read_32 B (CPU_DEC_WIN_CTRL_REG win_id) h;
          ctrl_reg = ctrl_reg AND NOT CPU_DEC_CR_WIN_ENABLE;
          h = mmio_write_32 B (CPU_DEC_WIN_CTRL_REG win_id) ctrl_reg h
      in if cw_enabled win_cfg = 0 then h
         else let base_reg = ucast (cw_base_addr win_cfg div CPU_DEC_CR_WIN_SIZE_ALIGNMENT) AND CPU_DEC_BR_BASE_MASK;
                  h = mmio_write_32 B (CPU_DEC_WIN_BASE_REG win_id) base_reg h;
                  remap_reg = ucast (cw_remap_addr win_cfg div CPU_DEC_CR_WIN_SIZE_ALIGNMENT) AND CPU_DEC_RLR_REMAP_LOW_MASK;
                  h = mmio_write_32 B (CPU_DEC_REMAP_LOW_REG win_id) remap_reg h;
                  size_reg = ucast (cw_size win_cfg div CPU_DEC_CR_WIN_SIZE_ALIGNMENT - 1) AND CPU_DEC_CR_WIN_SIZE_MASK;
                  h = mmio_write_32 B (CPU_DEC_WIN_SIZE_REG win_id) size_reg h;
                  ctrl_reg = ctrl_reg AND NOT CPU_DEC_CR_WIN_TARGET_MASK;
                  ctrl_reg = ctrl_reg OR push_bit 4 (cpu_win_target_num (cw_target win_cfg));
                  ctrl_reg = ctrl_reg OR CPU_DEC_CR_WIN_ENABLE
              in mmio_write_32 B (CPU_DEC_WIN_CTRL_REG win_id) ctrl_reg h)"

abbreviation two_GB :: u64 where "two_GB \<equiv> 0x80000000"

definition cpu_wins_init :: "'h bus \<Rightarrow> 'h \<Rightarrow> 'h" where
  "cpu_wins_init B h =
     (let (sz, h) = mvebu_get_dram_size B (ucast MVEBU_REGS_BASE) h;
          cfg_idx = (if sz \<le> two_GB then CPU_WIN_CONFIG_DRAM_NOT_OVER_2GB else CPU_WIN_CONFIG_DRAM_4GB)
      in fold (\<lambda>win_id. cpu_win_set B win_id (mv_cpu_wins cfg_idx ! win_id)) [1..<MV_CPU_WIN_NUM] h)"

subsection \<open>I/O decode windows\<close>

record dec_win_config =
  dec_reg_base :: u32
  win_attr :: u32
  max_dram_win :: u32
  max_remap :: u32
  win_offset :: u32

definition dec_win :: "u32 \<Rightarrow> u32 \<Rightarrow> u32 \<Rightarrow> u32 \<Rightarrow> u32 \<Rightarrow> dec_win_config" where
  "dec_win b at mx rm off = \<lparr> dec_reg_base = b, win_attr = at, max_dram_win = mx, max_remap = rm, win_offset = off \<rparr>"

definition io_dec_win_conf :: "dec_win_config list" where
  "io_dec_win_conf =
     [dec_win 0xc000 0x3d 2 0 0x08, dec_win 0xc100 0x3d 3 0 0x10, dec_win 0xc200 0x3d 2 0 0x10,
      dec_win 0xc300 0x3d 2 0 0x10, dec_win 0xc400 0x3d 2 0 0x10, dec_win 0xc500 0x3d 2 0 0x10,
      dec_win 0xc800 0x3d 3 0 0x10, dec_win 0xca00 0x3d 3 0 0x08, dec_win 0xcb00 0x3d 3 0 0x10,
      dec_win 0xce00 0x3d 2 0 0x08]"

definition marvell_get_io_dec_win_conf :: "int \<times> dec_win_config list \<times> u32" where
  "marvell_get_io_dec_win_conf = (0, io_dec_win_conf, of_nat (length io_dec_win_conf))"

definition MVEBU_DEC_WIN_CTRL_REG :: "u32 \<Rightarrow> nat \<Rightarrow> u32 \<Rightarrow> u64" where
  "MVEBU_DEC_WIN_CTRL_REG base win off = ucast (MVEBU_REGS_BASE + base + of_nat win * off)"

definition MVEBU_DEC_WIN_BASE_REG :: "u32 \<Rightarrow> nat \<Rightarrow> u32 \<Rightarrow> u64" where
  "MVEBU_DEC_WIN_BASE_REG base win off = ucast (MVEBU_REGS_BASE + base + of_nat win * off + 0x4)"

definition MVEBU_DEC_WIN_REMAP_REG :: "u32 \<Rightarrow> nat \<Rightarrow> u32 \<Rightarrow> u64" where
  "MVEBU_DEC_WIN_REMAP_REG base win off = ucast (MVEBU_REGS_BASE + base + of_nat win * off + 0x8)"

abbreviation MVEBU_WIN_BASE_SIZE_ALIGNMENT :: u64 where "MVEBU_WIN_BASE_SIZE_ALIGNMENT \<equiv> 0x10000"
abbreviation MVEBU_DEC_WIN_ENABLE :: u32 where "MVEBU_DEC_WIN_ENABLE \<equiv> 0x1"
abbreviation MVEBU_MAX_ADDRSS_4GB :: u64 where "MVEBU_MAX_ADDRSS_4GB \<equiv> 0x100000000"
abbreviation IO_UNIT_NUM_MAX :: u32 where "IO_UNIT_NUM_MAX \<equiv> 14"

definition set_io_addr_dec_win :: "'h bus \<Rightarrow> nat \<Rightarrow> u64 \<Rightarrow> u64 \<Rightarrow> dec_win_config \<Rightarrow> 'h \<Rightarrow> 'h" where
  "set_io_addr_dec_win B win_id base_address size_of_win dw h =
     (let ctrl = ucast (push_bit 16 (size_of_win div MVEBU_WIN_BASE_SIZE_ALIGNMENT - 1)) :: u32;
          ctrl = ctrl OR push_bit 8 (win_attr dw);
          ctrl = ctrl OR push_bit 4 DRAM_CPU_DEC_TARGET_NUM;
          base = ucast (push_bit 16 (base_address div MVEBU_WIN_BASE_SIZE_ALIGNMENT)) :: u32;
          h = mmio_write_32 B (MVEBU_DEC_WIN_BASE_REG (dec_reg_base dw) win_id (win_offset dw)) base h;
          h = (if of_nat win_id < max_remap dw
               then mmio_write_32 B (MVEBU_DEC_WIN_REMAP_REG (dec_reg_base dw) win_id (win_offset dw)) base h else h);
          h = mmio_write_32 B (MVEBU_DEC_WIN_CTRL_REG (dec_reg_base dw) win_id (win_offset dw)) ctrl h;
          ctrl = ctrl OR push_bit 0 MVEBU_DEC_WIN_ENABLE
      in mmio_write_32 B (MVEBU_DEC_WIN_CTRL_REG (dec_reg_base dw) win_id (win_offset dw)) ctrl h)"

definition set_io_addr_dec :: "'h bus \<Rightarrow> dram_win_map \<Rightarrow> dec_win_config \<Rightarrow> 'h \<Rightarrow> int \<times> 'h" where
  "set_io_addr_dec B win_map dw h =
     (let h = fold (\<lambda>id. mmio_write_32 B (MVEBU_DEC_WIN_CTRL_REG (dec_reg_base dw) id (win_offset dw)) 0)
                [0..<unat (max_dram_win dw)] h
      in if of_nat (dram_win_num win_map) > max_dram_win dw
         then (0, set_io_addr_dec_win B 0 0 MVEBU_MAX_ADDRSS_4GB dw h)
         else (0, fold (\<lambda>id. let win = dram_windows win_map ! id
                             in set_io_addr_dec_win B id (base_addr win) (win_size win) dw)
                    [0..<dram_win_num win_map] h))"

text \<open>
  The loop over the I/O units and the checks before it. The two pointers may be null. The \<^verbatim>\<open>INFO\<close> calls
  only print and are compiled out at the default log level.
\<close>

fun init_io_units :: "'h bus \<Rightarrow> dram_win_map \<Rightarrow> dec_win_config list \<Rightarrow> 'h \<Rightarrow> int \<times> 'h" where
  "init_io_units B wm [] h = (0, h)"
| "init_io_units B wm (dw # dws) h =
     (let (ret, h) = set_io_addr_dec B wm dw h in if ret \<noteq> 0 then (-1, h) else init_io_units B wm dws h)"

definition init_io_addr_dec ::
    "'h bus \<Rightarrow> dram_win_map option \<Rightarrow> dec_win_config list option \<Rightarrow> u32 \<Rightarrow> 'h \<Rightarrow> int \<times> 'h" where
  "init_io_addr_dec B dram_wins_map io_dec_config io_unit_num h =
     (if io_dec_config = None \<or> io_unit_num = 0 then (-1, h)
      else if io_unit_num > IO_UNIT_NUM_MAX then (-1, h)
      else case dram_wins_map of None \<Rightarrow> (-1, h)
      | Some wm \<Rightarrow> init_io_units B wm (take (unat io_unit_num) (the io_dec_config)) h)"

text \<open>The part of \<^verbatim>\<open>bl31_plat_arch_setup\<close> that sets up address decoding, which the resume path repeats.\<close>

definition a3700_windows_init :: "'h bus \<Rightarrow> 'h \<Rightarrow> int \<times> 'h" where
  "a3700_windows_init B h =
     (let h = cpu_wins_init B h;
          (wm, h) = dram_win_map_build B h;
          (ret, io_dec_map, dec_win_num) = marvell_get_io_dec_win_conf
      in if ret \<noteq> 0 then (ret, h)
         else init_io_addr_dec B (Some wm) (Some io_dec_map) dec_win_num h)"

end
