(* ===== verification/A3700_Decode.thy ===== *)
theory A3700_Decode
  imports A3700_Windows
begin

text \<open>
  What the decode window registers mean, and the laws of the routines that program them: each CPU window
  reads back as it was configured, and each I/O unit ends with the windows of the map it is given.
\<close>

subsection \<open>Windows in the registers\<close>

text \<open>
  The DRAM window that CPU decode window \<open>i\<close>, or decode window \<open>j\<close> of the I/O unit \<open>dw\<close>, stands for when
  the registers hold \<open>r\<close>: an enabled window whose target is the DRAM, in units of 64 KB.
\<close>

definition cpu_window :: "(u64 \<Rightarrow> u32) \<Rightarrow> nat \<Rightarrow> dram_win option" where
  "cpu_window r i =
     (if r (CPU_DEC_WIN_CTRL_REG i) AND 1 = 0 \<or> drop_bit 4 (r (CPU_DEC_WIN_CTRL_REG i) AND 0xf0) \<noteq> 0 then None
      else Some \<lparr> base_addr = ucast (r (CPU_DEC_WIN_BASE_REG i) AND 0xffff) * 0x10000,
                  win_size = (ucast (r (CPU_DEC_WIN_SIZE_REG i) AND 0xffff) + 1) * 0x10000 \<rparr>)"

definition io_window :: "(u64 \<Rightarrow> u32) \<Rightarrow> dec_win_config \<Rightarrow> nat \<Rightarrow> dram_win option" where
  "io_window r dw j =
     (let ctrl = r (MVEBU_DEC_WIN_CTRL_REG (dec_reg_base dw) j (win_offset dw));
          base = r (MVEBU_DEC_WIN_BASE_REG (dec_reg_base dw) j (win_offset dw))
      in if ctrl AND 1 = 0 \<or> drop_bit 4 (ctrl AND 0xf0) \<noteq> 0 then None
         else Some \<lparr> base_addr = ucast (drop_bit 16 base) * 0x10000, win_size = (ucast (drop_bit 16 ctrl) + 1) * 0x10000 \<rparr>)"

definition in_window :: "u64 \<Rightarrow> dram_win \<Rightarrow> bool" where
  "in_window a w \<longleftrightarrow> unat (base_addr w) \<le> unat a \<and> unat a < unat (base_addr w) + unat (win_size w)"

text \<open>The two kinds of addresses: those the CPU sends to the DRAM, and those an I/O unit does.\<close>

definition cpu_dram :: "(u64 \<Rightarrow> u32) \<Rightarrow> u64 \<Rightarrow> bool" where
  "cpu_dram r a \<longleftrightarrow> (\<exists>i < MV_CPU_WIN_NUM. \<exists>w. cpu_window r i = Some w \<and> in_window a w)"

definition io_dram :: "(u64 \<Rightarrow> u32) \<Rightarrow> dec_win_config \<Rightarrow> u64 \<Rightarrow> bool" where
  "io_dram r dw a \<longleftrightarrow> (\<exists>j < unat (max_dram_win dw). \<exists>w. io_window r dw j = Some w \<and> in_window a w)"

text \<open>The registers of the CPU windows, of one I/O unit, and all that the set-up touches.\<close>

definition cpu_win_regs :: "u64 list" where
  "cpu_win_regs = concat (map (\<lambda>i. [CPU_DEC_WIN_CTRL_REG i, CPU_DEC_WIN_SIZE_REG i, CPU_DEC_WIN_BASE_REG i,
     CPU_DEC_REMAP_LOW_REG i]) [0..<MV_CPU_WIN_NUM])"

definition io_win_regs :: "dec_win_config \<Rightarrow> u64 list" where
  "io_win_regs dw = concat (map (\<lambda>j. [MVEBU_DEC_WIN_CTRL_REG (dec_reg_base dw) j (win_offset dw),
     MVEBU_DEC_WIN_BASE_REG (dec_reg_base dw) j (win_offset dw)]) [0..<unat (max_dram_win dw)])"

definition dram_cs_regs :: "u64 list" where
  "dram_cs_regs = map (\<lambda>cs. DRAM_CH0_MMAP_LOW_REG 0 cs (ucast MVEBU_REGS_BASE)) [0..<DRAM_MAX_CS_NUM]"

definition decode_regs :: "u64 list" where
  "decode_regs = dram_cs_regs @ concat (map io_win_regs io_dec_win_conf) @ cpu_win_regs"

lemma decode_regs_increase: "successively (<) decode_regs"
  by code_simp

lemma decode_regs_distinct: "distinct decode_regs"
  using decode_regs_increase by (simp add: successively_conv_sorted_wrt strict_sorted_iff)

text \<open>A window in units of 64 KB below 4 GB.\<close>

definition win_ok :: "dram_win \<Rightarrow> bool" where
  "win_ok w \<longleftrightarrow> 65536 dvd unat (base_addr w) \<and> unat (base_addr w) < 2 ^ 32 \<and>
     65536 dvd unat (win_size w) \<and> 0 < unat (win_size w) \<and> unat (win_size w) \<le> 2 ^ 32"

lemma unit_window:
  fixes b s :: u32
  assumes "unat b < 65536" "unat s < 65536"
  shows "unat (ucast b * 0x10000 :: u64) = unat b * 65536" "unat ((ucast s + 1) * 0x10000 :: u64) = (unat s + 1) * 65536"
proof -
  have u: "unat (ucast b :: u64) = unat b" "unat (ucast s :: u64) = unat s"
    by (simp_all add: unat_ucast_up)
  have "unat (ucast s + 1 :: u64) = unat s + 1" using assms u by (subst unat_add_less) simp_all
  then show "unat ((ucast s + 1) * 0x10000 :: u64) = (unat s + 1) * 65536"
    using assms by (subst unat_word_ariths) simp
  show "unat (ucast b * 0x10000 :: u64) = unat b * 65536" using assms u by (subst unat_word_ariths) simp
qed

lemma unat_and_ffff: "unat (x AND 0xffff :: u32) < 65536"
  using unat_and_mask [of x 16] by (simp add: mask_eq_exp_minus_1)

lemma cpu_window_ok: "cpu_window r i = Some w \<Longrightarrow> win_ok w"
  using unit_window [OF unat_and_ffff [of "r (CPU_DEC_WIN_BASE_REG i)"] unat_and_ffff [of "r (CPU_DEC_WIN_SIZE_REG i)"]]
    unat_and_ffff [of "r (CPU_DEC_WIN_BASE_REG i)"] unat_and_ffff [of "r (CPU_DEC_WIN_SIZE_REG i)"]
  by (auto simp: cpu_window_def win_ok_def split: if_splits)


subsection \<open>CPU windows\<close>

lemma cpu_reg_in: "i < MV_CPU_WIN_NUM \<Longrightarrow> CPU_DEC_WIN_CTRL_REG i \<in> set cpu_win_regs \<and> CPU_DEC_WIN_SIZE_REG i \<in> set cpu_win_regs \<and>
    CPU_DEC_WIN_BASE_REG i \<in> set cpu_win_regs \<and> CPU_DEC_REMAP_LOW_REG i \<in> set cpu_win_regs"
  by (auto simp: cpu_win_regs_def)

text \<open>The four registers of a window are its own.\<close>

lemma cpu_regs_apart:
  "list_all (\<lambda>i. list_all (\<lambda>j. (CPU_DEC_WIN_CTRL_REG i = CPU_DEC_WIN_CTRL_REG j \<longleftrightarrow> i = j) \<and>
     (CPU_DEC_WIN_SIZE_REG i = CPU_DEC_WIN_SIZE_REG j \<longleftrightarrow> i = j) \<and> (CPU_DEC_WIN_BASE_REG i = CPU_DEC_WIN_BASE_REG j \<longleftrightarrow> i = j) \<and>
     CPU_DEC_WIN_CTRL_REG i \<noteq> CPU_DEC_WIN_SIZE_REG j \<and> CPU_DEC_WIN_CTRL_REG i \<noteq> CPU_DEC_WIN_BASE_REG j \<and>
     CPU_DEC_WIN_SIZE_REG i \<noteq> CPU_DEC_WIN_BASE_REG j \<and> CPU_DEC_WIN_CTRL_REG i \<noteq> CPU_DEC_REMAP_LOW_REG j \<and>
     CPU_DEC_WIN_SIZE_REG i \<noteq> CPU_DEC_REMAP_LOW_REG j \<and> CPU_DEC_WIN_BASE_REG i \<noteq> CPU_DEC_REMAP_LOW_REG j)
     [0..<MV_CPU_WIN_NUM]) [0..<MV_CPU_WIN_NUM]"
  by code_simp

lemma cpu_reg_eq:
  assumes "i < MV_CPU_WIN_NUM" "j < MV_CPU_WIN_NUM"
  shows "CPU_DEC_WIN_CTRL_REG i = CPU_DEC_WIN_CTRL_REG j \<longleftrightarrow> i = j" "CPU_DEC_WIN_SIZE_REG i = CPU_DEC_WIN_SIZE_REG j \<longleftrightarrow> i = j"
    "CPU_DEC_WIN_BASE_REG i = CPU_DEC_WIN_BASE_REG j \<longleftrightarrow> i = j" "CPU_DEC_WIN_CTRL_REG i \<noteq> CPU_DEC_WIN_SIZE_REG j"
    "CPU_DEC_WIN_CTRL_REG i \<noteq> CPU_DEC_WIN_BASE_REG j" "CPU_DEC_WIN_SIZE_REG i \<noteq> CPU_DEC_WIN_BASE_REG j"
    "CPU_DEC_WIN_CTRL_REG i \<noteq> CPU_DEC_REMAP_LOW_REG j" "CPU_DEC_WIN_SIZE_REG i \<noteq> CPU_DEC_REMAP_LOW_REG j"
    "CPU_DEC_WIN_BASE_REG i \<noteq> CPU_DEC_REMAP_LOW_REG j"
proof -
  have "i \<in> set [0..<MV_CPU_WIN_NUM]" "j \<in> set [0..<MV_CPU_WIN_NUM]" using assms by simp_all
  note all = cpu_regs_apart [unfolded list_all_iff, rule_format, OF this]
  show "CPU_DEC_WIN_CTRL_REG i = CPU_DEC_WIN_CTRL_REG j \<longleftrightarrow> i = j" "CPU_DEC_WIN_SIZE_REG i = CPU_DEC_WIN_SIZE_REG j \<longleftrightarrow> i = j"
    "CPU_DEC_WIN_BASE_REG i = CPU_DEC_WIN_BASE_REG j \<longleftrightarrow> i = j" "CPU_DEC_WIN_CTRL_REG i \<noteq> CPU_DEC_WIN_SIZE_REG j"
    "CPU_DEC_WIN_CTRL_REG i \<noteq> CPU_DEC_WIN_BASE_REG j" "CPU_DEC_WIN_SIZE_REG i \<noteq> CPU_DEC_WIN_BASE_REG j"
    "CPU_DEC_WIN_CTRL_REG i \<noteq> CPU_DEC_REMAP_LOW_REG j" "CPU_DEC_WIN_SIZE_REG i \<noteq> CPU_DEC_REMAP_LOW_REG j"
    "CPU_DEC_WIN_BASE_REG i \<noteq> CPU_DEC_REMAP_LOW_REG j" using all by blast+
qed

text \<open>The window that a configuration asks for.\<close>

definition cfg_window :: "cpu_win_configuration \<Rightarrow> dram_win option" where
  "cfg_window c = (if cw_enabled c = 0 \<or> cw_target c \<noteq> CPU_WIN_TARGET_DRAM then None
     else Some \<lparr> base_addr = cw_base_addr c, win_size = cw_size c \<rparr>)"

definition cfg_ok_win :: "cpu_win_configuration \<Rightarrow> bool" where
  "cfg_ok_win c \<longleftrightarrow> win_ok \<lparr> base_addr = cw_base_addr c, win_size = cw_size c \<rparr>"

lemma ctrl_bits:
  fixes c :: u32
  shows "(((c AND NOT 0xf0) OR push_bit 4 (cpu_win_target_num t)) OR 1) AND 1 \<noteq> 0"
    "drop_bit 4 ((((c AND NOT 0xf0) OR push_bit 4 (cpu_win_target_num t)) OR 1) AND 0xf0) = cpu_win_target_num t"
proof -
  have z: "(c AND NOT 0xf0) AND 0xf0 = 0" by (simp only: and.assoc) simp
  have "((((c AND NOT 0xf0) OR push_bit 4 (cpu_win_target_num t)) OR 1) AND 0xf0) = push_bit 4 (cpu_win_target_num t) AND 0xf0"
    by (simp only: bit.conj_disj_distrib2 z) simp
  then show "drop_bit 4 ((((c AND NOT 0xf0) OR push_bit 4 (cpu_win_target_num t)) OR 1) AND 0xf0) = cpu_win_target_num t"
    by (cases t) simp_all
  show "(((c AND NOT 0xf0) OR push_bit 4 (cpu_win_target_num t)) OR 1) AND 1 \<noteq> 0"
    by (simp only: bit.conj_disj_distrib2) (auto simp: and_one_eq or_eq_0_iff)
qed

lemma unat_low16: "unat (ucast (x :: u64) AND 0xffff :: u32) = unat x mod 65536"
proof -
  have "unat (ucast x AND mask 16 :: u32) = unat (ucast x :: u32) mod 2 ^ 16" by (rule unat_and_mask)
  then show ?thesis by (simp add: mask_eq_exp_minus_1 unat_ucast_mod mod_mod_cancel)
qed

lemma base_roundtrip:
  assumes "65536 dvd unat b" "unat b < 2 ^ 32"
  shows "ucast (ucast (b div 0x10000) AND 0xffff :: u32) * 0x10000 = (b :: u64)"
proof -
  let ?q = "unat b div 65536"
  have q: "unat b = ?q * 65536" "?q < 65536" using assms by auto
  have "unat (b div 0x10000) = ?q" by (simp add: unat_div)
  then have "unat (ucast (b div 0x10000) AND 0xffff :: u32) = ?q" using q by (simp add: unat_low16)
  then show ?thesis using unit_window(1) [of "ucast (b div 0x10000) AND 0xffff" 0] q by (simp add: word_unat_eq_iff)
qed

lemma size_roundtrip:
  assumes "65536 dvd unat s" "0 < unat s" "unat s \<le> 2 ^ 32"
  shows "(ucast (ucast (s div 0x10000 - 1) AND 0xffff :: u32) + 1) * 0x10000 = (s :: u64)"
proof -
  let ?q = "unat s div 65536"
  have q: "unat s = ?q * 65536" "0 < ?q" "?q \<le> 65536" using assms by auto
  have d: "unat (s div 0x10000) = ?q" by (simp add: unat_div)
  then have "unat (s div 0x10000 - 1) = ?q - 1" using q(2) by (simp add: unat_pred)
  then have "unat (ucast (s div 0x10000 - 1) AND 0xffff :: u32) = ?q - 1" using q by (simp add: unat_low16)
  then show ?thesis using unit_window(2) [of 0 "ucast (s div 0x10000 - 1) AND 0xffff"] q by (simp add: word_unat_eq_iff)
qed

lemma dram_target: "cpu_win_target_num t = 0 \<longleftrightarrow> t = CPU_WIN_TARGET_DRAM"
  by (cases t) simp_all

lemma disabled_ctrl: "(c AND NOT 1 :: u32) AND 1 = 0"
  by (simp only: and.assoc) simp

lemmas cpu_reg_apart = cpu_reg_eq cpu_reg_eq(4-9) [symmetric]

context storage_bus
begin

lemma cpu_win_set_window:
  assumes S: "set cpu_win_regs \<subseteq> S" and ij: "i < MV_CPU_WIN_NUM" "j < MV_CPU_WIN_NUM" and c: "cfg_ok_win c"
  shows "cpu_window (peek (cpu_win_set B i c h)) j = (if j = i then cfg_window c else cpu_window (peek h) j)"
proof -
  have I: "CPU_DEC_WIN_CTRL_REG i \<in> S" "CPU_DEC_WIN_SIZE_REG i \<in> S" "CPU_DEC_WIN_BASE_REG i \<in> S" "CPU_DEC_REMAP_LOW_REG i \<in> S"
    "CPU_DEC_WIN_CTRL_REG j \<in> S" "CPU_DEC_WIN_SIZE_REG j \<in> S" "CPU_DEC_WIN_BASE_REG j \<in> S"
    using S cpu_reg_in [OF ij(1)] cpu_reg_in [OF ij(2)] by auto
  note eqs = cpu_reg_apart [OF ij] cpu_reg_apart [OF ij(2,1)] and eqs' = cpu_reg_apart [OF ij(1) ij(1)]
  have w: "ucast (ucast (cw_base_addr c div 0x10000) AND 0xffff :: u32) * 0x10000 = cw_base_addr c"
    "(ucast (ucast (cw_size c div 0x10000 - 1) AND 0xffff :: u32) + 1) * 0x10000 = cw_size c"
    using c by (auto simp: cfg_ok_win_def win_ok_def simp del: distrib_right_numeral intro: base_roundtrip size_roundtrip)
  show ?thesis
  proof (cases "j = i")
    case True
    let ?c = "peek h (CPU_DEC_WIN_CTRL_REG i) AND NOT 1" and ?h = "cpu_win_set B i c h"
    have ctrl: "peek ?h (CPU_DEC_WIN_CTRL_REG i) =
        (if cw_enabled c = 0 then ?c else ((?c AND NOT 0xf0) OR push_bit 4 (cpu_win_target_num (cw_target c))) OR 1)"
      using I by (simp add: cpu_win_set_def Let_def eqs')
    show ?thesis
    proof (cases "cw_enabled c = 0")
      case True
      then have "peek ?h (CPU_DEC_WIN_CTRL_REG i) AND 1 = 0" using ctrl by (simp only: disabled_ctrl if_True simp_thms)
      then show ?thesis using \<open>j = i\<close> True by (simp add: cpu_window_def cfg_window_def)
    next
      case False
      then have bits: "peek ?h (CPU_DEC_WIN_CTRL_REG i) AND 1 \<noteq> 0"
        "drop_bit 4 (peek ?h (CPU_DEC_WIN_CTRL_REG i) AND 0xf0) = cpu_win_target_num (cw_target c)"
        using ctrl by (simp_all only: ctrl_bits if_False simp_thms)
      have regs: "peek ?h (CPU_DEC_WIN_BASE_REG i) = ucast (cw_base_addr c div 0x10000) AND 0xffff"
        "peek ?h (CPU_DEC_WIN_SIZE_REG i) = ucast (cw_size c div 0x10000 - 1) AND 0xffff"
        using I False by (simp_all add: cpu_win_set_def Let_def eqs')
      show ?thesis using False \<open>j = i\<close> unfolding cpu_window_def
        by (simp only: bits regs and.assoc and.idem w dram_target cfg_window_def) simp
    qed
  next
    case False
    then show ?thesis using I by (simp add: cpu_win_set_def cpu_window_def Let_def eqs)
  qed
qed

lemma dram_win_map_step_window:
  assumes "set cpu_win_regs \<subseteq> S" "i < MV_CPU_WIN_NUM"
  shows "dram_win_map_step B i (m, h) = ((case cpu_window (peek h) i of None \<Rightarrow> m
    | Some w \<Rightarrow> \<lparr> dram_win_num = dram_win_num m + 1, dram_windows = (dram_windows m)[dram_win_num m := w] \<rparr>), h)"
  using assms(1) cpu_reg_in [OF assms(2)]
  by (auto simp: dram_win_map_step_def cpu_window_def Let_def subset_iff)

end

text \<open>The windows of a map, the unused entries of the array zeroed.\<close>

definition windows_map :: "dram_win list \<Rightarrow> dram_win_map" where
  "windows_map ws = \<lparr> dram_win_num = length ws,
     dram_windows = ws @ replicate (DRAM_WIN_MAP_NUM_MAX - length ws) \<lparr> base_addr = 0, win_size = 0 \<rparr> \<rparr>"

definition cpu_windows :: "(u64 \<Rightarrow> u32) \<Rightarrow> dram_win list" where
  "cpu_windows r = List.map_filter (cpu_window r) [0..<MV_CPU_WIN_NUM]"

lemma windows_map_snoc:
  "length ws < DRAM_WIN_MAP_NUM_MAX \<Longrightarrow>
   \<lparr> dram_win_num = dram_win_num (windows_map ws) + 1,
     dram_windows = (dram_windows (windows_map ws))[dram_win_num (windows_map ws) := w] \<rparr> = windows_map (ws @ [w])"
  by (auto simp: windows_map_def list_update_append replicate_Suc [symmetric] Suc_diff_Suc simp del: replicate_Suc
      split: nat.splits simp flip: Suc_diff_Suc) (simp add: Suc_diff_Suc [symmetric])

lemma map_filter_snoc: "List.map_filter f (xs @ [x]) = List.map_filter f xs @ (case f x of None \<Rightarrow> [] | Some y \<Rightarrow> [y])"
  by (simp add: List.map_filter_def split: option.split)

lemma length_map_filter: "length (List.map_filter f xs) \<le> length xs"
  by (simp add: List.map_filter_def)

context storage_bus
begin

lemma dram_win_map_build_windows:
  assumes S: "set cpu_win_regs \<subseteq> S"
  shows "dram_win_map_build B h = (windows_map (cpu_windows (peek h)), h)"
proof -
  have "n \<le> MV_CPU_WIN_NUM \<Longrightarrow> fold (dram_win_map_step B) [0..<n] (windows_map [], h) =
      (windows_map (List.map_filter (cpu_window (peek h)) [0..<n]), h)" for n
  proof (induction n)
    case (Suc n)
    let ?ws = "List.map_filter (cpu_window (peek h)) [0..<n]"
    have l: "length ?ws < DRAM_WIN_MAP_NUM_MAX" using length_map_filter [of "cpu_window (peek h)" "[0..<n]"] Suc.prems by simp
    have "fold (dram_win_map_step B) [0..<Suc n] (windows_map [], h) = dram_win_map_step B n (windows_map ?ws, h)"
      using Suc by simp
    also have "\<dots> = (windows_map (?ws @ (case cpu_window (peek h) n of None \<Rightarrow> [] | Some w \<Rightarrow> [w])), h)"
      using Suc.prems by (simp add: dram_win_map_step_window [OF S] windows_map_snoc [OF l, simplified] split: option.split)
    finally show ?case by (simp add: map_filter_snoc)
  qed (simp add: List.map_filter_def)
  from this [of MV_CPU_WIN_NUM] show ?thesis
    by (simp add: dram_win_map_build_def windows_map_def cpu_windows_def)
qed

end

subsection \<open>Size of the DRAM\<close>

text \<open>
  The size in bytes that an area length code stands for, as the table in \<^verbatim>\<open>marvell_ddr_info.c\<close> lists it,
  and the size of the DRAM that a list of chip select registers describes: the areas up to the first
  disabled chip select.
\<close>

definition area_size :: "nat \<Rightarrow> nat option" where
  "area_size c = (if c \<le> 4 then Some (384 * 2 ^ 20 * 2 ^ c)
     else if 7 \<le> c \<and> c \<le> 26 then Some (8 * 2 ^ 20 * 2 ^ (c - 7)) else None)"

fun dram_bytes :: "u32 list \<Rightarrow> nat option" where
  "dram_bytes [] = Some 0"
| "dram_bytes (x # xs) =
     (if x AND 1 = 0 then Some 0
      else case area_size (unat x div 2 ^ 16 mod 32) of None \<Rightarrow> None
      | Some n \<Rightarrow> map_option ((+) n) (dram_bytes xs))"

lemma region_code: "unat (ucast (drop_bit 16 (x AND push_bit 16 0x1f)) :: u8) = unat (x :: u32) div 2 ^ 16 mod 32"
proof -
  have "drop_bit 16 (x AND push_bit 16 0x1f) = drop_bit 16 x AND mask 5"
    by (simp add: mask_eq_exp_minus_1)
  then show ?thesis
    by (simp add: unat_ucast_mod unat_and_mask unat_drop_bit_div mod_mod_cancel)
qed

lemma area_size_code:
  fixes c :: u8
  shows "DRAM_REGION_SIZE_EVEN c \<Longrightarrow> area_size (unat c) = Some (unat (GET_DRAM_REGION_SIZE_EVEN c))"
    and "DRAM_REGION_SIZE_ODD c \<Longrightarrow> area_size (unat c) = Some (unat (GET_DRAM_REGION_SIZE_ODD c))"
    and "\<not> DRAM_REGION_SIZE_EVEN c \<Longrightarrow> \<not> DRAM_REGION_SIZE_ODD c \<Longrightarrow> area_size (unat c) = None"
proof -
  show "area_size (unat c) = Some (unat (GET_DRAM_REGION_SIZE_EVEN c))" if e: "DRAM_REGION_SIZE_EVEN c"
  proof -
    have c: "7 \<le> unat c" "unat c \<le> 26" using e by (simp_all add: DRAM_REGION_SIZE_EVEN_def word_le_nat_alt)
    have "unat (GET_DRAM_REGION_SIZE_EVEN c) = 2 ^ (unat c + 16)"
      using c unat_push_bit_1 [where 'a = 64, of "unat c + 16"] by (simp add: GET_DRAM_REGION_SIZE_EVEN_def)
    moreover have "8 * 2 ^ 20 * 2 ^ (unat c - 7) = (2 :: nat) ^ (unat c + 16)"
      using c power_add [of "2 :: nat" 23 "unat c - 7"] by (simp add: add.commute)
    ultimately show ?thesis using c by (simp add: area_size_def)
  qed
  show "area_size (unat c) = Some (unat (GET_DRAM_REGION_SIZE_ODD c))" if e: "DRAM_REGION_SIZE_ODD c"
  proof -
    have c: "unat c \<le> 4" using e by (simp add: DRAM_REGION_SIZE_ODD_def word_le_nat_alt)
    then have "(2 :: nat) ^ unat c \<le> 2 ^ 4" by (intro power_increasing) simp_all
    then have "unat (GET_DRAM_REGION_SIZE_ODD c) = 0x18000000 * 2 ^ unat c"
      using c by (simp add: GET_DRAM_REGION_SIZE_ODD_def push_bit_eq_mult unat_word_ariths unat_2p)
    then show ?thesis using c by (simp add: area_size_def)
  qed
  show "area_size (unat c) = None" if "\<not> DRAM_REGION_SIZE_EVEN c" "\<not> DRAM_REGION_SIZE_ODD c"
    using that by (auto simp: DRAM_REGION_SIZE_EVEN_def DRAM_REGION_SIZE_ODD_def word_le_nat_alt area_size_def)
qed

lemma area_size_le: "area_size c = Some n \<Longrightarrow> n \<le> 2 ^ 42"
proof -
  assume a: "area_size c = Some n"
  show ?thesis
  proof (cases "c \<le> 4")
    case True
    then have "(2 :: nat) ^ c \<le> 2 ^ 4" by (intro power_increasing) simp_all
    then show ?thesis using a True by (simp add: area_size_def)
  next
    case False
    then have "7 \<le> c" "c \<le> 26" "n = 8 * 2 ^ 20 * 2 ^ (c - 7)" using a by (auto simp: area_size_def split: if_splits)
    then have "(2 :: nat) ^ (c - 7) \<le> 2 ^ 19" by (intro power_increasing) simp_all
    then show ?thesis using \<open>n = _\<close> by simp
  qed
qed

lemma dram_bytes_le: "dram_bytes xs = Some n \<Longrightarrow> n \<le> length xs * 2 ^ 42"
  by (induction xs arbitrary: n) (fastforce dest: area_size_le split: if_splits option.splits)+

context storage_bus
begin

lemma dram_size_cs_bytes:
  assumes "set (map (\<lambda>cs. DRAM_CH0_MMAP_LOW_REG iface cs base) css) \<subseteq> S"
    "unat m + length css * 2 ^ 42 < 2 ^ 64"
  shows "dram_size_cs B base iface css m h =
    ((case dram_bytes (map (\<lambda>cs. peek h (DRAM_CH0_MMAP_LOW_REG iface cs base)) css) of
        None \<Rightarrow> Inl 0 | Some n \<Rightarrow> Inr (m + of_nat n)), h)"
  using assms
proof (induction css arbitrary: m)
  case (Cons cs css)
  let ?x = "peek h (DRAM_CH0_MMAP_LOW_REG iface cs base)"
  define c where "c = (ucast (drop_bit 16 (?x AND push_bit 16 0x1f)) :: u8)"
  have x: "unat ?x div 2 ^ 16 mod 32 = unat c" unfolding c_def by (rule region_code [symmetric])
  have r: "DRAM_CS_ENABLED B iface cs base h = (?x AND 1, h)" "GET_DRAM_REGION_SIZE_CODE B iface cs base h = (c, h)"
    using Cons.prems by (simp_all add: c_def DRAM_CS_ENABLED_def GET_DRAM_REGION_SIZE_CODE_def)
  have step: "dram_size_cs B base iface css (m + w) h =
      ((case dram_bytes (map (\<lambda>cs. peek h (DRAM_CH0_MMAP_LOW_REG iface cs base)) css) of
        None \<Rightarrow> Inl 0 | Some n \<Rightarrow> Inr (m + w + of_nat n)), h)" if "area_size (unat c) = Some (unat w)" for w
  proof (rule Cons.IH)
    have "unat w \<le> 2 ^ 42" using area_size_le [OF that] .
    then show "unat (m + w) + length css * 2 ^ 42 < 2 ^ 64" using Cons.prems by (subst unat_add_less) auto
  qed (use Cons.prems in simp)
  show ?case
    using step area_size_code [of c]
    by (cases "DRAM_REGION_SIZE_EVEN c"; cases "DRAM_REGION_SIZE_ODD c")
      (simp_all add: r x [simplified] map_option_case add.assoc split: option.splits)
qed simp

end

end
