(* ===== verification/A3700_Io.thy ===== *)
theory A3700_Io
  imports A3700_Decode
begin

text \<open>
  The set-up of the decode windows as a whole: what \<^verbatim>\<open>cpu_wins_init\<close> leaves in the CPU windows, and what
  \<^verbatim>\<open>init_io_addr_dec\<close> leaves in the windows of each I/O unit.
\<close>

lemma map_filter_eq: "(\<And>x. x \<in> set xs \<Longrightarrow> f x = g x) \<Longrightarrow> List.map_filter f xs = List.map_filter g xs"
  by (induction xs) (auto simp: map_filter_simps split: option.split)

definition dram_size_of :: "(u64 \<Rightarrow> u32) \<Rightarrow> u64 \<Rightarrow> nat" where
  "dram_size_of r base =
     (case dram_bytes (map (\<lambda>cs. r (DRAM_CH0_MMAP_LOW_REG 0 cs base)) [0..<DRAM_MAX_CS_NUM]) of None \<Rightarrow> 0 | Some n \<Rightarrow> n)"

lemma dram_size_of_le: "dram_size_of r base \<le> 2 ^ 43"
  by (auto simp: dram_size_of_def dest!: dram_bytes_le split: option.split)

definition win_config_for :: "nat \<Rightarrow> cpu_win_config_num" where
  "win_config_for n = (if n \<le> 2 ^ 31 then CPU_WIN_CONFIG_DRAM_NOT_OVER_2GB else CPU_WIN_CONFIG_DRAM_4GB)"

lemma cfgs_ok: "j < MV_CPU_WIN_NUM \<Longrightarrow> cfg_ok_win (mv_cpu_wins c ! j)"
proof -
  have "list_all cfg_ok_win (mv_cpu_wins c)"
    by (cases c) (simp_all add: cfg_ok_win_def win_ok_def cpu_win_cfg_def)
  moreover have "length (mv_cpu_wins c) = MV_CPU_WIN_NUM" by (cases c) simp_all
  ultimately show "j < MV_CPU_WIN_NUM \<Longrightarrow> cfg_ok_win (mv_cpu_wins c ! j)" by (simp add: list_all_length)
qed

context storage_bus
begin

lemma mvebu_get_dram_size_of:
  assumes "set (map (\<lambda>cs. DRAM_CH0_MMAP_LOW_REG 0 cs base) [0..<DRAM_MAX_CS_NUM]) \<subseteq> S"
  shows "mvebu_get_dram_size B base h = (of_nat (dram_size_of (peek h) base), h)"
  using dram_size_cs_bytes [OF assms, of 0 h]
  by (simp add: mvebu_get_dram_size_def dram_size_of_def split: option.split)

lemma cpu_win_sets_window:
  assumes S: "set cpu_win_regs \<subseteq> S" and j: "j < MV_CPU_WIN_NUM" and ids: "\<forall>i \<in> set ids. i < MV_CPU_WIN_NUM"
  shows "cpu_window (peek (fold (\<lambda>i. cpu_win_set B i (mv_cpu_wins c ! i)) ids h)) j =
    (if j \<in> set ids then cfg_window (mv_cpu_wins c ! j) else cpu_window (peek h) j)"
  using ids
proof (induction ids arbitrary: h)
  case (Cons i ids)
  then have "i < MV_CPU_WIN_NUM" by simp
  then show ?case using Cons cpu_win_set_window [OF S _ j cfgs_ok, of i i c h] by (cases "j = i") simp_all
qed simp

lemma cpu_wins_init_window:
  assumes S: "set decode_regs \<subseteq> S" and j: "j < MV_CPU_WIN_NUM"
  shows "cpu_window (peek (cpu_wins_init B h)) j =
    (if j = 0 then cpu_window (peek h) 0
     else cfg_window (mv_cpu_wins (win_config_for (dram_size_of (peek h) (ucast MVEBU_REGS_BASE))) ! j))"
proof -
  let ?n = "dram_size_of (peek h) (ucast MVEBU_REGS_BASE)"
  have "mvebu_get_dram_size B (ucast MVEBU_REGS_BASE) h = (of_nat ?n, h)"
    using S by (intro mvebu_get_dram_size_of) (simp add: decode_regs_def dram_cs_regs_def)
  moreover have "unat (of_nat ?n :: u64) = ?n" using dram_size_of_le [of "peek h" "ucast MVEBU_REGS_BASE"] by (simp add: unat_of_nat)
  then have "(of_nat ?n :: u64) \<le> two_GB \<longleftrightarrow> ?n \<le> 2 ^ 31" by (simp add: word_le_nat_alt)
  moreover have "set cpu_win_regs \<subseteq> S" using S by (simp add: decode_regs_def)
  ultimately show ?thesis
    using j cpu_win_sets_window [of j "[1..<MV_CPU_WIN_NUM]"] by (simp add: cpu_wins_init_def win_config_for_def del: upt_Suc)
qed

end

subsection \<open>The windows of an I/O unit\<close>

abbreviation io_ctrl :: "dec_win_config \<Rightarrow> nat \<Rightarrow> u64" where
  "io_ctrl dw j \<equiv> MVEBU_DEC_WIN_CTRL_REG (dec_reg_base dw) j (win_offset dw)"

abbreviation io_base :: "dec_win_config \<Rightarrow> nat \<Rightarrow> u64" where
  "io_base dw j \<equiv> MVEBU_DEC_WIN_BASE_REG (dec_reg_base dw) j (win_offset dw)"

text \<open>A unit without remap registers, with at least one window, whose registers are apart.\<close>

definition io_unit_ok :: "dec_win_config \<Rightarrow> bool" where
  "io_unit_ok dw \<longleftrightarrow> max_remap dw = 0 \<and> win_attr dw < 256 \<and> 0 < max_dram_win dw \<and>
     list_all (\<lambda>i. list_all (\<lambda>j.
        (io_ctrl dw i = io_ctrl dw j \<longleftrightarrow> i = j) \<and> (io_base dw i = io_base dw j \<longleftrightarrow> i = j) \<and> io_ctrl dw i \<noteq> io_base dw j)
        [0..<unat (max_dram_win dw)]) [0..<unat (max_dram_win dw)]"

lemma io_units_ok: "list_all io_unit_ok io_dec_win_conf"
  by code_simp

lemma io_reg_in: "j < unat (max_dram_win dw) \<Longrightarrow> io_ctrl dw j \<in> set (io_win_regs dw) \<and> io_base dw j \<in> set (io_win_regs dw)"
  by (auto simp: io_win_regs_def)

lemma io_ctrl_bits:
  fixes x at :: u32
  assumes "at < 256" "x = push_bit 16 y"
  shows "((x OR push_bit 8 at) OR 1) AND 1 \<noteq> 0" "drop_bit 4 (((x OR push_bit 8 at) OR 1) AND 0xf0) = 0"
    "drop_bit 16 ((x OR push_bit 8 at) OR 1) = drop_bit 16 x"
proof -
  show "((x OR push_bit 8 at) OR 1) AND 1 \<noteq> 0"
    by (simp only: bit.conj_disj_distrib2) (auto simp: and_one_eq or_eq_0_iff)
  have f0: "(0xf0 :: u32) = push_bit 4 (mask 4)" by (simp add: mask_eq_exp_minus_1)
  have "push_bit 16 y AND 0xf0 = 0" "push_bit 8 at AND 0xf0 = 0"
    unfolding f0 by (auto intro!: bit_word_eqI simp: bit_simps)
  then show "drop_bit 4 (((x OR push_bit 8 at) OR 1) AND 0xf0) = 0"
    by (simp only: assms(2) bit.conj_disj_distrib2) simp
  have "unat (at AND mask 8) = unat at" using assms(1) unat_and_mask [of at 8] by (simp add: word_less_nat_alt)
  then have "take_bit 8 at = at" by (simp only: take_bit_eq_mask word_unat_eq_iff)
  then have "bit at k \<Longrightarrow> k < 8" for k by (metis bit_take_bit_iff)
  then have "drop_bit 16 (push_bit 8 at) = 0" by (fastforce intro!: bit_word_eqI simp: bit_simps)
  then show "drop_bit 16 ((x OR push_bit 8 at) OR 1) = drop_bit 16 x" by (simp add: drop_bit_or)
qed

lemma io_unit_okD:
  assumes "io_unit_ok dw"
  shows "max_remap dw = 0" "win_attr dw < 256" "0 < unat (max_dram_win dw)"
    and "i < unat (max_dram_win dw) \<Longrightarrow> j < unat (max_dram_win dw) \<Longrightarrow> io_ctrl dw i = io_ctrl dw j \<longleftrightarrow> i = j"
    and "i < unat (max_dram_win dw) \<Longrightarrow> j < unat (max_dram_win dw) \<Longrightarrow> io_base dw i = io_base dw j \<longleftrightarrow> i = j"
    and "i < unat (max_dram_win dw) \<Longrightarrow> j < unat (max_dram_win dw) \<Longrightarrow> io_ctrl dw i \<noteq> io_base dw j"
  using assms by (auto simp: io_unit_ok_def list_all_iff word_less_nat_alt)

lemma io_fields:
  assumes "win_ok w"
  shows "ucast (drop_bit 16 (ucast (push_bit 16 (base_addr w div 0x10000)) :: u32)) * 0x10000 = base_addr w"
    and "(ucast (drop_bit 16 (ucast (push_bit 16 (win_size w div 0x10000 - 1)) :: u32)) + 1) * 0x10000 = win_size w"
    and "(ucast (push_bit 16 (win_size w div 0x10000 - 1)) :: u32) = push_bit 16 (ucast (win_size w div 0x10000 - 1))"
proof -
  have p: "(ucast (push_bit 16 x) :: u32) = push_bit 16 (ucast x)" for x :: u64
    by (intro bit_word_eqI) (auto simp: bit_simps)
  have d: "drop_bit 16 (push_bit 16 (ucast x) :: u32) = ucast x AND 0xffff" for x :: u64
  proof -
    have m: "(0xffff :: u32) = mask 16" by (simp add: mask_eq_exp_minus_1)
    show ?thesis unfolding m by (auto intro!: bit_word_eqI simp: bit_simps)
  qed
  show "ucast (drop_bit 16 (ucast (push_bit 16 (base_addr w div 0x10000)) :: u32)) * 0x10000 = base_addr w"
    unfolding p d using assms by (intro base_roundtrip) (simp_all add: win_ok_def)
  show "(ucast (drop_bit 16 (ucast (push_bit 16 (win_size w div 0x10000 - 1)) :: u32)) + 1) * 0x10000 = win_size w"
    unfolding p d using assms by (intro size_roundtrip) (simp_all add: win_ok_def)
  show "(ucast (push_bit 16 (win_size w div 0x10000 - 1)) :: u32) = push_bit 16 (ucast (win_size w div 0x10000 - 1))"
    by (rule p)
qed

abbreviation set_windows :: "'h bus \<Rightarrow> dram_win list \<Rightarrow> dec_win_config \<Rightarrow> nat \<Rightarrow> 'h \<Rightarrow> 'h" where
  "set_windows B ws dw n \<equiv> fold (\<lambda>id. let win = dram_windows (windows_map ws) ! id
     in set_io_addr_dec_win B id (base_addr win) (win_size win) dw) [0..<n]"

context storage_bus
begin

lemma set_io_addr_dec_win_window:
  assumes dw: "io_unit_ok dw" and S: "set (io_win_regs dw) \<subseteq> S" and w: "win_ok w"
    and ij: "i < unat (max_dram_win dw)" "j < unat (max_dram_win dw)"
  shows "io_window (peek (set_io_addr_dec_win B i (base_addr w) (win_size w) dw h)) dw j =
    (if j = i then Some w else io_window (peek h) dw j)"
proof -
  have I: "io_ctrl dw i \<in> S" "io_ctrl dw j \<in> S" "io_base dw i \<in> S" "io_base dw j \<in> S"
    using S io_reg_in [OF ij(1)] io_reg_in [OF ij(2)] by auto
  note u = io_unit_okD [OF dw]
  note eqs = u(1) u(4-6) [OF ij] u(4-6) [OF ij(2,1)] u(6) [OF ij, symmetric] u(6) [OF ij(2,1), symmetric]
    u(6) [OF ij(1,1)] u(6) [OF ij(1,1), symmetric]
  let ?h = "set_io_addr_dec_win B i (base_addr w) (win_size w) dw h"
  let ?x = "ucast (push_bit 16 (win_size w div 0x10000 - 1)) :: u32"
  show ?thesis
  proof (cases "j = i")
    case True
    have r: "peek ?h (io_ctrl dw i) = (?x OR push_bit 8 (win_attr dw)) OR 1"
      "peek ?h (io_base dw i) = ucast (push_bit 16 (base_addr w div 0x10000))"
      using I by (simp_all add: set_io_addr_dec_win_def Let_def eqs)
    note b = io_ctrl_bits [OF u(2) io_fields(3) [OF w]]
    show ?thesis unfolding io_window_def Let_def
      by (simp only: True r b io_fields(1,2) [OF w] simp_thms if_False if_True) simp
  next
    case False
    then show ?thesis using I by (simp add: set_io_addr_dec_win_def io_window_def Let_def eqs)
  qed
qed

lemma set_io_addr_dec_win_other:
  assumes dw: "io_unit_ok dw" and S: "set (io_win_regs dw) \<subseteq> S" and i: "i < unat (max_dram_win dw)"
    and b: "b \<in> S" "b \<notin> set (io_win_regs dw)"
  shows "peek (set_io_addr_dec_win B i x y dw h) b = peek h b"
proof -
  have "b \<noteq> io_ctrl dw i" "b \<noteq> io_base dw i" "io_ctrl dw i \<in> S" "io_base dw i \<in> S"
    using S b io_reg_in [OF i] by auto
  then show ?thesis using b by (simp add: set_io_addr_dec_win_def Let_def io_unit_okD [OF dw])
qed

text \<open>Clearing the control registers disables every window of the unit.\<close>

lemma clear_ctrls:
  assumes "set (io_win_regs dw) \<subseteq> S" "b \<in> S" "n \<le> unat (max_dram_win dw)"
  shows "peek (fold (\<lambda>id. mmio_write_32 B (io_ctrl dw id) 0) [0..<n] h) b =
    (if b \<in> io_ctrl dw ` {0..<n} then 0 else peek h b)"
  using assms(3)
proof (induction n)
  case (Suc n)
  then have "io_ctrl dw n \<in> S" using io_reg_in [of n dw] assms(1) by auto
  then show ?case using Suc assms(2) by (auto simp: atLeastLessThanSuc)
qed simp

lemma disabled_window: "r (io_ctrl dw j) = 0 \<Longrightarrow> io_window r dw j = None"
  by (simp add: io_window_def)

lemma set_windows_step:
  "n < length ws \<Longrightarrow> set_windows B ws dw (Suc n) h =
     set_io_addr_dec_win B n (base_addr (ws ! n)) (win_size (ws ! n)) dw (set_windows B ws dw n h)"
  by (simp add: windows_map_def nth_append Let_def)

lemma set_windows_window:
  assumes dw: "io_unit_ok dw" and S: "set (io_win_regs dw) \<subseteq> S" and ws: "\<forall>w \<in> set ws. win_ok w"
    and j: "j < unat (max_dram_win dw)"
  shows "n \<le> length ws \<Longrightarrow> n \<le> unat (max_dram_win dw) \<Longrightarrow>
    io_window (peek (set_windows B ws dw n h)) dw j = (if j < n then Some (ws ! j) else io_window (peek h) dw j)"
proof (induction n)
  case (Suc n)
  then have "win_ok (ws ! n)" using ws by simp
  then show ?case unfolding set_windows_step [OF Suc_le_lessD [OF Suc.prems(1)]]
    using Suc j set_io_addr_dec_win_window [OF dw S, of "ws ! n" n j "set_windows B ws dw n h"] by auto
qed simp

lemma set_windows_other:
  assumes dw: "io_unit_ok dw" and S: "set (io_win_regs dw) \<subseteq> S" and b: "b \<in> S" "b \<notin> set (io_win_regs dw)"
  shows "n \<le> length ws \<Longrightarrow> n \<le> unat (max_dram_win dw) \<Longrightarrow> peek (set_windows B ws dw n h) b = peek h b"
proof (induction n)
  case (Suc n)
  then show ?case unfolding set_windows_step [OF Suc_le_lessD [OF Suc.prems(1)]]
    using set_io_addr_dec_win_other [OF dw S _ b, of n] by simp
qed simp

end

text \<open>The windows that a unit is left with: those of the map, or one of 4 GB when they are too many.\<close>

definition unit_windows :: "dec_win_config \<Rightarrow> dram_win list \<Rightarrow> dram_win list" where
  "unit_windows dw ws = (if length ws > unat (max_dram_win dw) then [\<lparr> base_addr = 0, win_size = 0x100000000 \<rparr>] else ws)"

context storage_bus
begin

lemma set_io_addr_dec_windows:
  assumes dw: "io_unit_ok dw" and S: "set (io_win_regs dw) \<subseteq> S" and ws: "\<forall>w \<in> set ws. win_ok w" "length ws \<le> MV_CPU_WIN_NUM"
  obtains h' where "set_io_addr_dec B (windows_map ws) dw h = (0, h')"
    "\<And>j. j < unat (max_dram_win dw) \<Longrightarrow>
       io_window (peek h') dw j = (if j < length (unit_windows dw ws) then Some (unit_windows dw ws ! j) else None)"
    "\<And>b. b \<in> S \<Longrightarrow> b \<notin> set (io_win_regs dw) \<Longrightarrow> peek h' b = peek h b"
proof -
  define h1 where "h1 = fold (\<lambda>id. mmio_write_32 B (io_ctrl dw id) 0) [0..<unat (max_dram_win dw)] h"
  have off: "io_window (peek h1) dw j = None" if "j < unat (max_dram_win dw)" for j
    using that S io_reg_in [OF that] unfolding h1_def by (intro disabled_window, subst clear_ctrls) auto
  have keep: "peek h1 b = peek h b" if "b \<in> S" "b \<notin> set (io_win_regs dw)" for b
    using that S unfolding h1_def by (subst clear_ctrls) (auto dest: io_reg_in)
  have num: "of_nat (dram_win_num (windows_map ws)) > max_dram_win dw \<longleftrightarrow> length ws > unat (max_dram_win dw)"
    using ws(2) by (simp add: windows_map_def word_less_nat_alt unat_of_nat)
  let ?w = "\<lparr> base_addr = 0, win_size = 0x100000000 \<rparr>"
  have w: "win_ok ?w" by (simp add: win_ok_def)
  show thesis
  proof (cases "length ws > unat (max_dram_win dw)")
    case True
    show thesis
    proof (rule that)
      show "set_io_addr_dec B (windows_map ws) dw h = (0, set_io_addr_dec_win B 0 (base_addr ?w) (win_size ?w) dw h1)"
        using True num by (simp add: set_io_addr_dec_def h1_def)
    qed (use True off keep set_io_addr_dec_win_window [OF dw S w] set_io_addr_dec_win_other [OF dw S] io_unit_okD(3) [OF dw]
        in \<open>auto simp: unit_windows_def\<close>)
  next
    case False
    show thesis
    proof (rule that)
      show "set_io_addr_dec B (windows_map ws) dw h = (0, set_windows B ws dw (length ws) h1)"
        using False num by (simp add: set_io_addr_dec_def h1_def) (simp add: windows_map_def)
    qed (use False off keep set_windows_window [OF dw S ws(1) _ order_refl] set_windows_other [OF dw S _ _ order_refl]
        in \<open>auto simp: unit_windows_def\<close>)
  qed
qed

lemma io_window_cong:
  "r (io_ctrl dw j) = r' (io_ctrl dw j) \<Longrightarrow> r (io_base dw j) = r' (io_base dw j) \<Longrightarrow> io_window r dw j = io_window r' dw j"
  by (simp add: io_window_def)

lemma cpu_window_cong:
  "r (CPU_DEC_WIN_CTRL_REG j) = r' (CPU_DEC_WIN_CTRL_REG j) \<Longrightarrow> r (CPU_DEC_WIN_BASE_REG j) = r' (CPU_DEC_WIN_BASE_REG j) \<Longrightarrow>
   r (CPU_DEC_WIN_SIZE_REG j) = r' (CPU_DEC_WIN_SIZE_REG j) \<Longrightarrow> cpu_window r j = cpu_window r' j"
  by (simp add: cpu_window_def)

lemma io_unit_num: "length io_dec_win_conf = 10"
  by (simp add: io_dec_win_conf_def)

lemma init_io_units_windows:
  assumes "list_all io_unit_ok dws" "distinct (concat (map io_win_regs dws))" "set (concat (map io_win_regs dws)) \<subseteq> S"
    and ws: "\<forall>w \<in> set ws. win_ok w" "length ws \<le> MV_CPU_WIN_NUM"
  shows "\<exists>h'. init_io_units B (windows_map ws) dws h = (0, h') \<and>
    (\<forall>dw \<in> set dws. \<forall>j < unat (max_dram_win dw).
       io_window (peek h') dw j = (if j < length (unit_windows dw ws) then Some (unit_windows dw ws ! j) else None)) \<and>
    (\<forall>b \<in> S - set (concat (map io_win_regs dws)). peek h' b = peek h b)"
  using assms(1-3)
proof (induction dws arbitrary: h)
  case (Cons dw dws)
  then have dw: "io_unit_ok dw" "set (io_win_regs dw) \<subseteq> S" by auto
  obtain h1 where h1: "set_io_addr_dec B (windows_map ws) dw h = (0, h1)"
    "\<And>j. j < unat (max_dram_win dw) \<Longrightarrow>
       io_window (peek h1) dw j = (if j < length (unit_windows dw ws) then Some (unit_windows dw ws ! j) else None)"
    "\<And>b. b \<in> S \<Longrightarrow> b \<notin> set (io_win_regs dw) \<Longrightarrow> peek h1 b = peek h b"
    using set_io_addr_dec_windows [OF dw ws, where h = h] by blast
  obtain h' where h': "init_io_units B (windows_map ws) dws h1 = (0, h')"
    "\<forall>dw \<in> set dws. \<forall>j < unat (max_dram_win dw).
       io_window (peek h') dw j = (if j < length (unit_windows dw ws) then Some (unit_windows dw ws ! j) else None)"
    "\<forall>b \<in> S - set (concat (map io_win_regs dws)). peek h' b = peek h1 b"
    using Cons.IH [of h1] Cons.prems by auto
  have "io_window (peek h') dw j = io_window (peek h1) dw j" if "j < unat (max_dram_win dw)" for j
    using h'(3) io_reg_in [OF that] dw(2) Cons.prems(2) by (intro io_window_cong) auto
  then show ?case using h1 h' by (intro exI [of _ h']) auto
qed simp

text \<open>Address decoding as a whole, from any state of the registers.\<close>

lemma a3700_windows_init_windows:
  assumes S: "set decode_regs \<subseteq> S" and i: "a3700_windows_init B h = (ret, h')"
  shows "ret = 0"
    and "j < MV_CPU_WIN_NUM \<Longrightarrow> cpu_window (peek h') j = cpu_window (peek (cpu_wins_init B h)) j"
    and "dw \<in> set io_dec_win_conf \<Longrightarrow> j < unat (max_dram_win dw) \<Longrightarrow>
      io_window (peek h') dw j = (let ws = unit_windows dw (cpu_windows (peek h')) in if j < length ws then Some (ws ! j) else None)"
proof -
  let ?h = "cpu_wins_init B h" and ?io = "concat (map io_win_regs io_dec_win_conf)"
  let ?ws = "cpu_windows (peek ?h)"
  have sub: "set cpu_win_regs \<subseteq> S" "set ?io \<subseteq> S" using S by (auto simp: decode_regs_def)
  have d: "distinct ?io" "set ?io \<inter> set cpu_win_regs = {}"
    using decode_regs_distinct by (auto simp: decode_regs_def)
  have ws: "\<forall>w \<in> set ?ws. win_ok w" "length ?ws \<le> MV_CPU_WIN_NUM"
    using length_map_filter [of "cpu_window (peek ?h)" "[0..<MV_CPU_WIN_NUM]"] cpu_window_ok
    by (auto simp: cpu_windows_def map_filter_def)
  have "a3700_windows_init B h = init_io_units B (windows_map ?ws) io_dec_win_conf ?h"
    by (simp add: a3700_windows_init_def marvell_get_io_dec_win_conf_def init_io_addr_dec_def
        dram_win_map_build_windows [OF sub(1)] io_unit_num Let_def)
  with i obtain h1 where r: "ret = 0" "h' = h1" and w: "\<forall>dw \<in> set io_dec_win_conf. \<forall>j < unat (max_dram_win dw).
       io_window (peek h1) dw j = (if j < length (unit_windows dw ?ws) then Some (unit_windows dw ?ws ! j) else None)"
    and keep: "\<forall>b \<in> S - set ?io. peek h1 b = peek ?h b"
    using init_io_units_windows [OF io_units_ok d(1) sub(2) ws, of ?h] by auto
  show "ret = 0" by fact
  show c: "cpu_window (peek h') j = cpu_window (peek ?h) j" if "j < MV_CPU_WIN_NUM" for j
    using keep cpu_reg_in [OF that] sub(1) d(2) r(2) by (intro cpu_window_cong) auto
  have "cpu_windows (peek h') = ?ws" using c by (auto simp: cpu_windows_def intro: map_filter_eq)
  then show "io_window (peek h') dw j = (let ws = unit_windows dw (cpu_windows (peek h')) in if j < length ws then Some (ws ! j) else None)"
    if "dw \<in> set io_dec_win_conf" "j < unat (max_dram_win dw)" using w that r(2) by (simp add: Let_def)
qed

end

end
