(* ===== verification/A3700_Theorems.thy ===== *)
theory A3700_Theorems
  imports A3700_Io
begin

text \<open>
  Properties of the address decoding set-up: the windows that are read back, what the I/O units reach, the errors, the
  size of the DRAM, and the states that the registers go through.
\<close>

subsection \<open>Lemmas\<close>

text \<open>The DRAM windows of the CPU after \<^verbatim>\<open>cpu_wins_init\<close>, from the registers before it.\<close>

definition configured_window :: "(u64 \<Rightarrow> u32) \<Rightarrow> nat \<Rightarrow> dram_win option" where
  "configured_window r j = (if j = 0 then cpu_window r 0
     else cfg_window (mv_cpu_wins (win_config_for (dram_size_of r (ucast MVEBU_REGS_BASE))) ! j))"

lemma cfg_window_4GB: "0 < j \<Longrightarrow> j < MV_CPU_WIN_NUM \<Longrightarrow> cfg_window (mv_cpu_wins c ! j) = Some w \<Longrightarrow>
    unat (base_addr w) + unat (win_size w) \<le> 2 ^ 32"
proof -
  assume j: "0 < j" "j < MV_CPU_WIN_NUM" and w: "cfg_window (mv_cpu_wins c ! j) = Some w"
  have "j \<in> set [1..<MV_CPU_WIN_NUM]" using j by auto
  moreover have "list_all (\<lambda>j. case cfg_window (mv_cpu_wins c ! j) of None \<Rightarrow> True
      | Some w \<Rightarrow> unat (base_addr w) + unat (win_size w) \<le> 2 ^ 32) [1..<MV_CPU_WIN_NUM]"
    by (cases c) (simp_all add: cfg_window_def cpu_win_cfg_def upt_rec)
  ultimately show ?thesis using w unfolding list_all_iff by force
qed

lemma cpu_windows_in: "w \<in> set (cpu_windows r) \<longleftrightarrow> (\<exists>j < MV_CPU_WIN_NUM. cpu_window r j = Some w)"
  by (auto simp: cpu_windows_def map_filter_def image_iff)

lemma in_windows: "(\<exists>w \<in> set ws. in_window a w) \<longleftrightarrow> (\<exists>j < length ws. in_window a (ws ! j))"
  by (metis in_set_conv_nth nth_mem)

lemma cpu_dram_windows: "cpu_dram r a \<longleftrightarrow> (\<exists>w \<in> set (cpu_windows r). in_window a w)"
  unfolding cpu_dram_def Bex_def cpu_windows_in by blast

lemma unit_windows_length: "0 < unat (max_dram_win dw) \<Longrightarrow> length (unit_windows dw ws) \<le> unat (max_dram_win dw)"
  by (simp add: unit_windows_def)

lemma io_dram_windows:
  assumes "0 < unat (max_dram_win dw)"
    and "\<And>j. j < unat (max_dram_win dw) \<Longrightarrow>
      io_window r dw j = (let ws = unit_windows dw ws in if j < length ws then Some (ws ! j) else None)"
  shows "io_dram r dw a \<longleftrightarrow> (\<exists>w \<in> set (unit_windows dw ws). in_window a w)"
proof -
  have "(\<exists>w. io_window r dw j = Some w \<and> in_window a w) \<longleftrightarrow>
      j < length (unit_windows dw ws) \<and> in_window a (unit_windows dw ws ! j)" if "j < unat (max_dram_win dw)" for j
    using assms(2) [OF that] by (simp add: Let_def)
  then show ?thesis using unit_windows_length [OF assms(1), of ws] unfolding io_dram_def in_windows by (meson order_less_le_trans)
qed


lemma logged_read: "mmio_read_32 (logged_bus B) a (h # l) = (let (r, h) = mmio_read_32 B a h in (r, h # l))"
  by (simp add: mmio_read_32_def logged_bus_def)

lemma logged_write: "mmio_write_32 (logged_bus B) a v (h # l) = mmio_write_32 B a v h # h # l"
  by (simp add: mmio_write_32_def logged_bus_def)

context storage_bus
begin

text \<open>A state between two stores of \<^verbatim>\<open>cpu_win_set\<close>: the window is disabled, and the registers of the others are as they were.\<close>

definition win_off where
  "win_off i h s \<longleftrightarrow> peek s (CPU_DEC_WIN_CTRL_REG i) AND 1 = 0 \<and>
     (\<forall>b \<in> S. b \<noteq> CPU_DEC_WIN_CTRL_REG i \<and> b \<noteq> CPU_DEC_WIN_SIZE_REG i \<and> b \<noteq> CPU_DEC_WIN_BASE_REG i \<and> b \<noteq> CPU_DEC_REMAP_LOW_REG i
        \<longrightarrow> peek s b = peek h b)"

lemma win_off_window:
  assumes S: "set cpu_win_regs \<subseteq> S" and ij: "i < MV_CPU_WIN_NUM" "j < MV_CPU_WIN_NUM" and s: "win_off i h s"
  shows "if j = i then cpu_window (peek s) i \<in> {cpu_window (peek h) i, None, w} else cpu_window (peek s) j = cpu_window (peek h) j"
proof -
  have "CPU_DEC_WIN_CTRL_REG j \<in> S" "CPU_DEC_WIN_SIZE_REG j \<in> S" "CPU_DEC_WIN_BASE_REG j \<in> S"
    using S cpu_reg_in [OF ij(2)] by auto
  then show ?thesis using s cpu_reg_apart [OF ij] cpu_reg_apart [OF ij(2,1)] unfolding win_off_def
    by (auto simp: cpu_window_def intro!: cpu_window_cong)
qed

lemma win_off_write:
  assumes "win_off i h s" "a \<in> {CPU_DEC_WIN_SIZE_REG i, CPU_DEC_WIN_BASE_REG i, CPU_DEC_REMAP_LOW_REG i}"
    and S: "set cpu_win_regs \<subseteq> S" and i: "i < MV_CPU_WIN_NUM"
  shows "win_off i h (mmio_write_32 B a v s)"
proof -
  have "CPU_DEC_WIN_CTRL_REG i \<in> S" "a \<in> S" "a \<noteq> CPU_DEC_WIN_CTRL_REG i"
    using S cpu_reg_in [OF i] assms(2) cpu_reg_apart [OF i i] by auto
  then show ?thesis using assms(1,2) by (auto simp: win_off_def)
qed

lemma cpu_win_set_states:
  assumes S: "set cpu_win_regs \<subseteq> S" and i: "i < MV_CPU_WIN_NUM"
  shows "\<forall>s \<in> set (cpu_win_set (logged_bus B) i c [h]). s = h \<or> s = cpu_win_set B i c h \<or> win_off i h s"
proof -
  let ?c = "peek h (CPU_DEC_WIN_CTRL_REG i) AND NOT 1"
  define h1 where "h1 = mmio_write_32 B (CPU_DEC_WIN_CTRL_REG i) ?c h"
  have I: "CPU_DEC_WIN_CTRL_REG i \<in> S" using S cpu_reg_in [OF i] by auto
  have "win_off i h h1" using I disabled_ctrl unfolding win_off_def h1_def by simp
  note off = this win_off_write [OF _ _ S i]
  show ?thesis
    using I off by (simp add: cpu_win_set_def logged_read logged_write Let_def h1_def [symmetric, simplified])
qed

end

subsection \<open>Properties\<close>

text \<open>
  C18: The map that \<open>dram_win_map_build\<close> reads back after \<open>cpu_wins_init\<close> is, in the order of the windows, window 0 as the boot ROM
  left it and the DRAM windows of the configuration table for the size of the DRAM; building it changes no register.
\<close>

theorem cpu_wins_map_roundtrip:
  assumes "storage_bus B peek S" "set decode_regs \<subseteq> S"
  shows "dram_win_map_build B (cpu_wins_init B h) =
    (windows_map (List.map_filter (configured_window (peek h)) [0..<MV_CPU_WIN_NUM]), cpu_wins_init B h)"
proof -
  have "set cpu_win_regs \<subseteq> S" using assms(2) by (simp add: decode_regs_def)
  moreover have "cpu_windows (peek (cpu_wins_init B h)) = List.map_filter (configured_window (peek h)) [0..<MV_CPU_WIN_NUM]"
    using storage_bus.cpu_wins_init_window [OF assms, of _ h]
    unfolding cpu_windows_def by (intro map_filter_eq) (simp add: configured_window_def)
  ultimately show ?thesis using storage_bus.dram_win_map_build_windows [OF assms(1)] by simp
qed

text \<open>Registers of a board with one chip select of 4 GB, and of a board of 1 GB with 512 MB visible in window 0.\<close>

definition ex_4GB :: "u64 \<Rightarrow> u32" where
  "ex_4GB = (\<lambda>a. 0)(0xd0000200 := 0x100001, 0xd000cf00 := 1, 0xd000cf04 := 0x7fff)"

definition ex_1GB :: "u64 \<Rightarrow> u32" where
  "ex_1GB = (\<lambda>a. 0)(0xd0000200 := 0xe0001, 0xd000cf00 := 1, 0xd000cf04 := 0x1fff)"

lemma ex_size: "dram_size_of ex_4GB (ucast MVEBU_REGS_BASE) = 2 ^ 32" "dram_size_of ex_1GB (ucast MVEBU_REGS_BASE) = 2 ^ 30"
  by (simp_all add: dram_size_of_def DRAM_CH0_MMAP_LOW_REG_def ex_4GB_def ex_1GB_def area_size_def upt_rec)

lemma ex_window: "cpu_window ex_4GB 0 = Some \<lparr> base_addr = 0, win_size = 0x80000000 \<rparr>"
  "cpu_window ex_1GB 0 = Some \<lparr> base_addr = 0, win_size = 0x20000000 \<rparr>"
  by (simp_all add: cpu_window_def CPU_DEC_WIN_CTRL_REG_def CPU_DEC_WIN_BASE_REG_def CPU_DEC_WIN_SIZE_REG_def ex_4GB_def ex_1GB_def)

theorem cpu_wins_map_roundtrip_witness:
  "dram_windows (fst (dram_win_map_build memory_bus (cpu_wins_init memory_bus ex_4GB))) =
     [\<lparr> base_addr = 0, win_size = 0x80000000 \<rparr>, \<lparr> base_addr = 0x80000000, win_size = 0x40000000 \<rparr>,
      \<lparr> base_addr = 0xc0000000, win_size = 0x10000000 \<rparr>, \<lparr> base_addr = 0xe0000000, win_size = 0x08000000 \<rparr>,
      \<lparr> base_addr = 0, win_size = 0 \<rparr>]"
proof -
  have "dram_windows (windows_map (List.map_filter (configured_window ex_4GB) [0..<MV_CPU_WIN_NUM])) =
     [\<lparr> base_addr = 0, win_size = 0x80000000 \<rparr>, \<lparr> base_addr = 0x80000000, win_size = 0x40000000 \<rparr>,
      \<lparr> base_addr = 0xc0000000, win_size = 0x10000000 \<rparr>, \<lparr> base_addr = 0xe0000000, win_size = 0x08000000 \<rparr>,
      \<lparr> base_addr = 0, win_size = 0 \<rparr>]"
    by (simp add: windows_map_def configured_window_def map_filter_simps ex_size [simplified] ex_window win_config_for_def cfg_window_def cpu_win_cfg_def upt_rec)
  then show ?thesis using cpu_wins_map_roundtrip [OF memory.storage_bus_axioms, of ex_4GB] by simp
qed

text \<open>
  C17: After the set-up of address decoding, every address that the CPU decodes to the DRAM is decoded to the DRAM by every
  I/O unit, whatever the registers held before, provided that window 0 ends below 4 GB. A unit with enough windows for the
  DRAM windows of the CPU decodes exactly the same addresses. The set-up returns 0.
\<close>

theorem io_units_reach_dram:
  assumes "storage_bus B peek S" "set decode_regs \<subseteq> S" "a3700_windows_init B h = (ret, h')"
    and "\<forall>w. cpu_window (peek h) 0 = Some w \<longrightarrow> unat (base_addr w) + unat (win_size w) \<le> 2 ^ 32"
  shows "ret = 0 \<and> (\<forall>dw \<in> set io_dec_win_conf. \<forall>a. (cpu_dram (peek h') a \<longrightarrow> io_dram (peek h') dw a) \<and>
    (length (cpu_windows (peek h')) \<le> unat (max_dram_win dw) \<longrightarrow> io_dram (peek h') dw a \<longrightarrow> cpu_dram (peek h') a))"
proof -
  note i = storage_bus.a3700_windows_init_windows [OF assms(1-3)]
  let ?ws = "cpu_windows (peek h')"
  have small: "unat (base_addr w) + unat (win_size w) \<le> 2 ^ 32" if w: "w \<in> set ?ws" for w
  proof -
    obtain j where j: "j < MV_CPU_WIN_NUM" "cpu_window (peek h') j = Some w" using w unfolding cpu_windows_in by blast
    then have "cpu_window (peek (cpu_wins_init B h)) j = Some w" using i(2) by simp
    then show ?thesis using storage_bus.cpu_wins_init_window [OF assms(1,2) j(1), of h] assms(4) cfg_window_4GB [OF _ j(1)]
      by (simp split: if_splits)
  qed
  have "(cpu_dram (peek h') a \<longrightarrow> io_dram (peek h') dw a) \<and>
      (length ?ws \<le> unat (max_dram_win dw) \<longrightarrow> io_dram (peek h') dw a \<longrightarrow> cpu_dram (peek h') a)"
    if dw: "dw \<in> set io_dec_win_conf" for dw a
  proof -
    have pos: "0 < unat (max_dram_win dw)" using io_units_ok dw by (auto simp: list_all_iff dest: io_unit_okD(3))
    have io: "io_dram (peek h') dw a \<longleftrightarrow> (\<exists>w \<in> set (unit_windows dw ?ws). in_window a w)"
      by (rule io_dram_windows [OF pos i(3) [OF dw]])
    have "in_window a \<lparr> base_addr = 0, win_size = 0x100000000 \<rparr>" if "w \<in> set ?ws" "in_window a w" for w
      using small [OF that(1)] that(2) by (simp add: in_window_def)
    then show ?thesis unfolding io cpu_dram_windows by (auto simp: unit_windows_def)
  qed
  then show ?thesis using i(1) by blast
qed

theorem io_units_reach_dram_witness:
  "\<exists>h'. a3700_windows_init memory_bus ex_1GB = (0, h') \<and> io_dram h' (hd io_dec_win_conf) 0x12345678"
proof -
  obtain ret h' where h': "a3700_windows_init memory_bus ex_1GB = (ret, h')" by fastforce
  note t = io_units_reach_dram [OF memory.storage_bus_axioms _ h']
  have "cpu_window h' 0 = Some \<lparr> base_addr = 0, win_size = 0x20000000 \<rparr>"
    using memory.a3700_windows_init_windows(2) [OF _ h', of 0] memory.cpu_wins_init_window [of 0 ex_1GB] ex_window by simp
  then have "cpu_dram h' 0x12345678" by (auto simp: cpu_dram_def in_window_def intro!: exI [of _ 0])
  moreover have "hd io_dec_win_conf \<in> set io_dec_win_conf" by (simp add: io_dec_win_conf_def)
  ultimately show ?thesis using t h' ex_window(2) by auto
qed


text \<open>
  C20: \<open>mvebu_get_dram_size\<close> returns the number of bytes of the areas that the chip select registers describe, up to the first disabled chip
  select, as the comment in front of the code lists the length codes; it is 0 when a code is reserved. The sum does not
  wrap around and the registers are only read.
\<close>

theorem dram_size_in_bytes:
  assumes "storage_bus B peek S" "set (map (\<lambda>cs. DRAM_CH0_MMAP_LOW_REG 0 cs base) [0..<DRAM_MAX_CS_NUM]) \<subseteq> S"
  shows "\<exists>sz. mvebu_get_dram_size B base h = (sz, h) \<and> unat sz = dram_size_of (peek h) base \<and> unat sz \<le> 2 ^ 43"
  using storage_bus.mvebu_get_dram_size_of [OF assms, of h] dram_size_of_le [of "peek h" base]
  by (simp add: unat_of_nat)

theorem dram_size_in_bytes_witness: "mvebu_get_dram_size memory_bus 0xd0000000 ex_4GB = (0x100000000, ex_4GB)"
  using dram_size_in_bytes [OF memory.storage_bus_axioms, of "0xd0000000" ex_4GB] ex_size
  by (auto simp: word_unat_eq_iff)



end
