(* ===== verification/Gic_Regs.thy ===== *)
theory Gic_Regs
  imports Mmio "HOL-Library.Monad_Syntax"
begin

text \<open>
  The register accessors of the GICv3 driver: \<^verbatim>\<open>gic_common.c\<close> and \<^verbatim>\<open>gic_common_private.h\<close> for the
  Distributor, \<^verbatim>\<open>gicv3_private.h\<close> and the accessors of \<^verbatim>\<open>gicv3_helpers.c\<close> for the Redistributors and
  the ITS. A loop that waits for a register is a partial function: \<open>None\<close> when the wait never ends.
\<close>

subsection \<open>Offsets and fields\<close>

abbreviation (input) MIN_SGI_ID :: u32 where "MIN_SGI_ID \<equiv> 0"
abbreviation (input) MIN_PPI_ID :: u32 where "MIN_PPI_ID \<equiv> 16"
abbreviation (input) MIN_SPI_ID :: u32 where "MIN_SPI_ID \<equiv> 32"
abbreviation (input) MAX_SPI_ID :: u32 where "MAX_SPI_ID \<equiv> 1019"
abbreviation (input) PENDING_G1S_INTID :: u32 where "PENDING_G1S_INTID \<equiv> 1020"
abbreviation (input) PENDING_G1NS_INTID :: u32 where "PENDING_G1NS_INTID \<equiv> 1021"
abbreviation (input) MIN_LPI_ID :: u32 where "MIN_LPI_ID \<equiv> 8192"
abbreviation (input) INTR_GROUP1S :: u32 where "INTR_GROUP1S \<equiv> 0"
abbreviation (input) INTR_GROUP0 :: u32 where "INTR_GROUP0 \<equiv> 1"
abbreviation (input) INTR_GROUP1NS :: u32 where "INTR_GROUP1NS \<equiv> 2"
abbreviation (input) GICD_CTLR :: u64 where "GICD_CTLR \<equiv> 0x0"
abbreviation (input) GICD_TYPER :: u64 where "GICD_TYPER \<equiv> 0x4"
abbreviation (input) GICD_IGROUPR :: u64 where "GICD_IGROUPR \<equiv> 0x80"
abbreviation (input) GICD_ISENABLER :: u64 where "GICD_ISENABLER \<equiv> 0x100"
abbreviation (input) GICD_ICENABLER :: u64 where "GICD_ICENABLER \<equiv> 0x180"
abbreviation (input) GICD_ISPENDR :: u64 where "GICD_ISPENDR \<equiv> 0x200"
abbreviation (input) GICD_ICPENDR :: u64 where "GICD_ICPENDR \<equiv> 0x280"
abbreviation (input) GICD_ISACTIVER :: u64 where "GICD_ISACTIVER \<equiv> 0x300"
abbreviation (input) GICD_ICACTIVER :: u64 where "GICD_ICACTIVER \<equiv> 0x380"
abbreviation (input) GICD_IPRIORITYR :: u64 where "GICD_IPRIORITYR \<equiv> 0x400"
abbreviation (input) GICD_ICFGR :: u64 where "GICD_ICFGR \<equiv> 0xc00"
abbreviation (input) GICD_IGRPMODR :: u64 where "GICD_IGRPMODR \<equiv> 0xd00"
abbreviation (input) GICD_NSACR :: u64 where "GICD_NSACR \<equiv> 0xe00"
abbreviation (input) GICD_IROUTER :: u64 where "GICD_IROUTER \<equiv> 0x6000"
abbreviation (input) GICD_PIDR2_GICV3 :: u64 where "GICD_PIDR2_GICV3 \<equiv> 0xffe8"
abbreviation (input) GICR_CTLR :: u64 where "GICR_CTLR \<equiv> 0x0"
abbreviation (input) GICR_TYPER :: u64 where "GICR_TYPER \<equiv> 0x08"
abbreviation (input) GICR_WAKER :: u64 where "GICR_WAKER \<equiv> 0x14"
abbreviation (input) GICR_PROPBASER :: u64 where "GICR_PROPBASER \<equiv> 0x70"
abbreviation (input) GICR_PENDBASER :: u64 where "GICR_PENDBASER \<equiv> 0x78"
abbreviation (input) GICR_IGROUPR0 :: u64 where "GICR_IGROUPR0 \<equiv> 0x10080"
abbreviation (input) GICR_ISENABLER0 :: u64 where "GICR_ISENABLER0 \<equiv> 0x10100"
abbreviation (input) GICR_ICENABLER0 :: u64 where "GICR_ICENABLER0 \<equiv> 0x10180"
abbreviation (input) GICR_ISPENDR0 :: u64 where "GICR_ISPENDR0 \<equiv> 0x10200"
abbreviation (input) GICR_ICPENDR0 :: u64 where "GICR_ICPENDR0 \<equiv> 0x10280"
abbreviation (input) GICR_ISACTIVER0 :: u64 where "GICR_ISACTIVER0 \<equiv> 0x10300"
abbreviation (input) GICR_IPRIORITYR :: u64 where "GICR_IPRIORITYR \<equiv> 0x10400"
abbreviation (input) GICR_ICFGR0 :: u64 where "GICR_ICFGR0 \<equiv> 0x10c00"
abbreviation (input) GICR_ICFGR1 :: u64 where "GICR_ICFGR1 \<equiv> 0x10c04"
abbreviation (input) GICR_IGRPMODR0 :: u64 where "GICR_IGRPMODR0 \<equiv> 0x10d00"
abbreviation (input) GICR_NSACR :: u64 where "GICR_NSACR \<equiv> 0x10e00"
abbreviation (input) GITS_CTLR :: u64 where "GITS_CTLR \<equiv> 0x0"
abbreviation (input) GITS_CBASER :: u64 where "GITS_CBASER \<equiv> 0x80"
abbreviation (input) GITS_CWRITER :: u64 where "GITS_CWRITER \<equiv> 0x88"
abbreviation (input) GITS_BASER :: u64 where "GITS_BASER \<equiv> 0x100"
abbreviation (input) GICD_CTLR_RWP_BIT :: u32 where "GICD_CTLR_RWP_BIT \<equiv> 0x80000000"
abbreviation (input) GICR_CTLR_UWP_BIT :: u64 where "GICR_CTLR_UWP_BIT \<equiv> 0x80000000"
abbreviation (input) GICR_CTLR_RWP_BIT :: u64 where "GICR_CTLR_RWP_BIT \<equiv> 0x8"
abbreviation (input) GITS_CTLR_ENABLED_BIT :: u32 where "GITS_CTLR_ENABLED_BIT \<equiv> 1"
abbreviation (input) GITS_CTLR_QUIESCENT_BIT :: u32 where "GITS_CTLR_QUIESCENT_BIT \<equiv> 0x80000000"
abbreviation (input) WAKER_PS_BIT :: u32 where "WAKER_PS_BIT \<equiv> 2"
abbreviation (input) WAKER_CA_BIT :: u32 where "WAKER_CA_BIT \<equiv> 4"
abbreviation (input) WAKER_SL_BIT :: u32 where "WAKER_SL_BIT \<equiv> 1"
abbreviation (input) WAKER_QSC_BIT :: u32 where "WAKER_QSC_BIT \<equiv> 0x80000000"
abbreviation (input) TYPER_LAST_BIT :: u64 where "TYPER_LAST_BIT \<equiv> 0x10"
abbreviation (input) GIC_PRI_MASK :: u32 where "GIC_PRI_MASK \<equiv> 0xff"
abbreviation (input) GIC_CFG_MASK :: u32 where "GIC_CFG_MASK \<equiv> 0x3"
abbreviation (input) CTLR_ENABLE_G0_BIT :: u32 where "CTLR_ENABLE_G0_BIT \<equiv> 1"
abbreviation (input) CTLR_ENABLE_G1NS_BIT :: u32 where "CTLR_ENABLE_G1NS_BIT \<equiv> 2"
abbreviation (input) CTLR_ENABLE_G1S_BIT :: u32 where "CTLR_ENABLE_G1S_BIT \<equiv> 4"
abbreviation (input) CTLR_ARE_S_BIT :: u32 where "CTLR_ARE_S_BIT \<equiv> 0x10"
abbreviation (input) CTLR_ARE_NS_BIT :: u32 where "CTLR_ARE_NS_BIT \<equiv> 0x20"
abbreviation (input) TYPER_IT_LINES_NO_MASK :: u32 where "TYPER_IT_LINES_NO_MASK \<equiv> 0x1f"
abbreviation (input) GICD_IPRIORITYR_DEF_VAL :: u32 where "GICD_IPRIORITYR_DEF_VAL \<equiv> 0x80808080"
abbreviation (input) GIC_HIGHEST_SEC_PRIORITY :: u32 where "GIC_HIGHEST_SEC_PRIORITY \<equiv> 0"

text \<open>The register of bank \<open>off\<close> that holds interrupt \<open>irq\<close>, \<open>2 ^ shift\<close> interrupts to a register, and the bit of \<open>irq\<close>.\<close>

definition bank_reg :: "u64 \<Rightarrow> u64 \<Rightarrow> nat \<Rightarrow> u32 \<Rightarrow> u64" where
  "bank_reg base off shift irq = base + off + ucast (push_bit 2 (drop_bit shift irq))"

definition bit_num :: "u32 \<Rightarrow> nat" where
  "bit_num irq = unat (irq AND 31)"

text \<open>A loop that reads a register until it satisfies \<open>p\<close>.\<close>

partial_function (option) wait_read32 :: "'h bus \<Rightarrow> u64 \<Rightarrow> (u32 \<Rightarrow> bool) \<Rightarrow> 'h \<Rightarrow> 'h option" where
  "wait_read32 B a p h = (let (r, h) = mmio_read_32 B a h in if p r then Some h else wait_read32 B a p h)"

partial_function (option) wait_read64 :: "'h bus \<Rightarrow> u64 \<Rightarrow> (u64 \<Rightarrow> bool) \<Rightarrow> 'h \<Rightarrow> 'h option" where
  "wait_read64 B a p h = (let (r, h) = mmio_read_64 B a h in if p r then Some h else wait_read64 B a p h)"

subsection \<open>Distributor, gic_common.c\<close>

definition gicd_read_ctlr :: "'h bus \<Rightarrow> u64 \<Rightarrow> 'h \<Rightarrow> u32 \<times> 'h" where
  "gicd_read_ctlr B base h = mmio_read_32 B (base + GICD_CTLR) h"

definition gicd_read_typer :: "'h bus \<Rightarrow> u64 \<Rightarrow> 'h \<Rightarrow> u32 \<times> 'h" where
  "gicd_read_typer B base h = mmio_read_32 B (base + GICD_TYPER) h"

definition gicd_write_ctlr :: "'h bus \<Rightarrow> u64 \<Rightarrow> u32 \<Rightarrow> 'h \<Rightarrow> 'h" where
  "gicd_write_ctlr B base val h = mmio_write_32 B (base + GICD_CTLR) val h"

definition gicd_read_igroupr :: "'h bus \<Rightarrow> u64 \<Rightarrow> u32 \<Rightarrow> 'h \<Rightarrow> u32 \<times> 'h" where
  "gicd_read_igroupr B base irq h = mmio_read_32 B (bank_reg base GICD_IGROUPR 5 irq) h"

definition gicd_write_igroupr :: "'h bus \<Rightarrow> u64 \<Rightarrow> u32 \<Rightarrow> u32 \<Rightarrow> 'h \<Rightarrow> 'h" where
  "gicd_write_igroupr B base irq val h = mmio_write_32 B (bank_reg base GICD_IGROUPR 5 irq) val h"

definition gicd_read_isenabler :: "'h bus \<Rightarrow> u64 \<Rightarrow> u32 \<Rightarrow> 'h \<Rightarrow> u32 \<times> 'h" where
  "gicd_read_isenabler B base irq h = mmio_read_32 B (bank_reg base GICD_ISENABLER 5 irq) h"

definition gicd_write_isenabler :: "'h bus \<Rightarrow> u64 \<Rightarrow> u32 \<Rightarrow> u32 \<Rightarrow> 'h \<Rightarrow> 'h" where
  "gicd_write_isenabler B base irq val h = mmio_write_32 B (bank_reg base GICD_ISENABLER 5 irq) val h"

definition gicd_read_icenabler :: "'h bus \<Rightarrow> u64 \<Rightarrow> u32 \<Rightarrow> 'h \<Rightarrow> u32 \<times> 'h" where
  "gicd_read_icenabler B base irq h = mmio_read_32 B (bank_reg base GICD_ICENABLER 5 irq) h"

definition gicd_write_icenabler :: "'h bus \<Rightarrow> u64 \<Rightarrow> u32 \<Rightarrow> u32 \<Rightarrow> 'h \<Rightarrow> 'h" where
  "gicd_write_icenabler B base irq val h = mmio_write_32 B (bank_reg base GICD_ICENABLER 5 irq) val h"

definition gicd_read_ispendr :: "'h bus \<Rightarrow> u64 \<Rightarrow> u32 \<Rightarrow> 'h \<Rightarrow> u32 \<times> 'h" where
  "gicd_read_ispendr B base irq h = mmio_read_32 B (bank_reg base GICD_ISPENDR 5 irq) h"

definition gicd_write_ispendr :: "'h bus \<Rightarrow> u64 \<Rightarrow> u32 \<Rightarrow> u32 \<Rightarrow> 'h \<Rightarrow> 'h" where
  "gicd_write_ispendr B base irq val h = mmio_write_32 B (bank_reg base GICD_ISPENDR 5 irq) val h"

definition gicd_read_icpendr :: "'h bus \<Rightarrow> u64 \<Rightarrow> u32 \<Rightarrow> 'h \<Rightarrow> u32 \<times> 'h" where
  "gicd_read_icpendr B base irq h = mmio_read_32 B (bank_reg base GICD_ICPENDR 5 irq) h"

definition gicd_write_icpendr :: "'h bus \<Rightarrow> u64 \<Rightarrow> u32 \<Rightarrow> u32 \<Rightarrow> 'h \<Rightarrow> 'h" where
  "gicd_write_icpendr B base irq val h = mmio_write_32 B (bank_reg base GICD_ICPENDR 5 irq) val h"

definition gicd_read_isactiver :: "'h bus \<Rightarrow> u64 \<Rightarrow> u32 \<Rightarrow> 'h \<Rightarrow> u32 \<times> 'h" where
  "gicd_read_isactiver B base irq h = mmio_read_32 B (bank_reg base GICD_ISACTIVER 5 irq) h"

definition gicd_write_isactiver :: "'h bus \<Rightarrow> u64 \<Rightarrow> u32 \<Rightarrow> u32 \<Rightarrow> 'h \<Rightarrow> 'h" where
  "gicd_write_isactiver B base irq val h = mmio_write_32 B (bank_reg base GICD_ISACTIVER 5 irq) val h"

definition gicd_read_icactiver :: "'h bus \<Rightarrow> u64 \<Rightarrow> u32 \<Rightarrow> 'h \<Rightarrow> u32 \<times> 'h" where
  "gicd_read_icactiver B base irq h = mmio_read_32 B (bank_reg base GICD_ICACTIVER 5 irq) h"

definition gicd_write_icactiver :: "'h bus \<Rightarrow> u64 \<Rightarrow> u32 \<Rightarrow> u32 \<Rightarrow> 'h \<Rightarrow> 'h" where
  "gicd_write_icactiver B base irq val h = mmio_write_32 B (bank_reg base GICD_ICACTIVER 5 irq) val h"

definition gicd_read_ipriorityr :: "'h bus \<Rightarrow> u64 \<Rightarrow> u32 \<Rightarrow> 'h \<Rightarrow> u32 \<times> 'h" where
  "gicd_read_ipriorityr B base irq h = mmio_read_32 B (bank_reg base GICD_IPRIORITYR 2 irq) h"

definition gicd_write_ipriorityr :: "'h bus \<Rightarrow> u64 \<Rightarrow> u32 \<Rightarrow> u32 \<Rightarrow> 'h \<Rightarrow> 'h" where
  "gicd_write_ipriorityr B base irq val h = mmio_write_32 B (bank_reg base GICD_IPRIORITYR 2 irq) val h"

definition gicd_read_icfgr :: "'h bus \<Rightarrow> u64 \<Rightarrow> u32 \<Rightarrow> 'h \<Rightarrow> u32 \<times> 'h" where
  "gicd_read_icfgr B base irq h = mmio_read_32 B (bank_reg base GICD_ICFGR 4 irq) h"

definition gicd_write_icfgr :: "'h bus \<Rightarrow> u64 \<Rightarrow> u32 \<Rightarrow> u32 \<Rightarrow> 'h \<Rightarrow> 'h" where
  "gicd_write_icfgr B base irq val h = mmio_write_32 B (bank_reg base GICD_ICFGR 4 irq) val h"

definition gicd_read_nsacr :: "'h bus \<Rightarrow> u64 \<Rightarrow> u32 \<Rightarrow> 'h \<Rightarrow> u32 \<times> 'h" where
  "gicd_read_nsacr B base irq h = mmio_read_32 B (bank_reg base GICD_NSACR 4 irq) h"

definition gicd_write_nsacr :: "'h bus \<Rightarrow> u64 \<Rightarrow> u32 \<Rightarrow> u32 \<Rightarrow> 'h \<Rightarrow> 'h" where
  "gicd_write_nsacr B base irq val h = mmio_write_32 B (bank_reg base GICD_NSACR 4 irq) val h"

definition gicd_get_igroupr :: "'h bus \<Rightarrow> u64 \<Rightarrow> u32 \<Rightarrow> 'h \<Rightarrow> u32 \<times> 'h" where
  "gicd_get_igroupr B base irq h = (let (reg_val, h) = gicd_read_igroupr B base irq h in (drop_bit (bit_num irq) reg_val AND 1, h))"

definition gicd_set_igroupr :: "'h bus \<Rightarrow> u64 \<Rightarrow> u32 \<Rightarrow> 'h \<Rightarrow> 'h" where
  "gicd_set_igroupr B base irq h = (let (reg_val, h) = gicd_read_igroupr B base irq h in gicd_write_igroupr B base irq (reg_val OR push_bit (bit_num irq) 1) h)"

definition gicd_clr_igroupr :: "'h bus \<Rightarrow> u64 \<Rightarrow> u32 \<Rightarrow> 'h \<Rightarrow> 'h" where
  "gicd_clr_igroupr B base irq h = (let (reg_val, h) = gicd_read_igroupr B base irq h in gicd_write_igroupr B base irq (reg_val AND NOT (push_bit (bit_num irq) 1)) h)"

definition gicd_set_isenabler :: "'h bus \<Rightarrow> u64 \<Rightarrow> u32 \<Rightarrow> 'h \<Rightarrow> 'h" where
  "gicd_set_isenabler B base irq h = gicd_write_isenabler B base irq (push_bit (bit_num irq) 1) h"

definition gicd_set_icenabler :: "'h bus \<Rightarrow> u64 \<Rightarrow> u32 \<Rightarrow> 'h \<Rightarrow> 'h" where
  "gicd_set_icenabler B base irq h = gicd_write_icenabler B base irq (push_bit (bit_num irq) 1) h"

definition gicd_set_ispendr :: "'h bus \<Rightarrow> u64 \<Rightarrow> u32 \<Rightarrow> 'h \<Rightarrow> 'h" where
  "gicd_set_ispendr B base irq h = gicd_write_ispendr B base irq (push_bit (bit_num irq) 1) h"

definition gicd_set_icpendr :: "'h bus \<Rightarrow> u64 \<Rightarrow> u32 \<Rightarrow> 'h \<Rightarrow> 'h" where
  "gicd_set_icpendr B base irq h = gicd_write_icpendr B base irq (push_bit (bit_num irq) 1) h"

definition gicd_get_isactiver :: "'h bus \<Rightarrow> u64 \<Rightarrow> u32 \<Rightarrow> 'h \<Rightarrow> u32 \<times> 'h" where
  "gicd_get_isactiver B base irq h = (let (reg_val, h) = gicd_read_isactiver B base irq h in (drop_bit (bit_num irq) reg_val AND 1, h))"

definition gicd_set_isactiver :: "'h bus \<Rightarrow> u64 \<Rightarrow> u32 \<Rightarrow> 'h \<Rightarrow> 'h" where
  "gicd_set_isactiver B base irq h = gicd_write_isactiver B base irq (push_bit (bit_num irq) 1) h"

definition gicd_set_icactiver :: "'h bus \<Rightarrow> u64 \<Rightarrow> u32 \<Rightarrow> 'h \<Rightarrow> 'h" where
  "gicd_set_icactiver B base irq h = gicd_write_icactiver B base irq (push_bit (bit_num irq) 1) h"

definition gicd_set_ipriorityr :: "'h bus \<Rightarrow> u64 \<Rightarrow> u32 \<Rightarrow> u32 \<Rightarrow> 'h \<Rightarrow> 'h" where
  "gicd_set_ipriorityr B base irq pri h = mmio_write_8 B (base + GICD_IPRIORITYR + ucast irq) (ucast (pri AND GIC_PRI_MASK)) h"

definition gicd_set_icfgr :: "'h bus \<Rightarrow> u64 \<Rightarrow> u32 \<Rightarrow> u32 \<Rightarrow> 'h \<Rightarrow> 'h" where
  "gicd_set_icfgr B base irq cfg h =
     (let bit_shift = 2 * unat (irq AND 15);
          (reg_val, h) = gicd_read_icfgr B base irq h;
          reg_val = reg_val AND NOT (push_bit bit_shift GIC_CFG_MASK);
          reg_val = reg_val OR push_bit bit_shift (cfg AND GIC_CFG_MASK)
      in gicd_write_icfgr B base irq reg_val h)"

subsection \<open>Distributor, GICv3\<close>

definition gicd_read_igrpmodr :: "'h bus \<Rightarrow> u64 \<Rightarrow> u32 \<Rightarrow> 'h \<Rightarrow> u32 \<times> 'h" where
  "gicd_read_igrpmodr B base irq h = mmio_read_32 B (bank_reg base GICD_IGRPMODR 5 irq) h"

definition gicd_write_igrpmodr :: "'h bus \<Rightarrow> u64 \<Rightarrow> u32 \<Rightarrow> u32 \<Rightarrow> 'h \<Rightarrow> 'h" where
  "gicd_write_igrpmodr B base irq val h = mmio_write_32 B (bank_reg base GICD_IGRPMODR 5 irq) val h"

definition gicd_get_igrpmodr :: "'h bus \<Rightarrow> u64 \<Rightarrow> u32 \<Rightarrow> 'h \<Rightarrow> u32 \<times> 'h" where
  "gicd_get_igrpmodr B base irq h = (let (reg_val, h) = gicd_read_igrpmodr B base irq h in (drop_bit (bit_num irq) reg_val AND 1, h))"

definition gicd_set_igrpmodr :: "'h bus \<Rightarrow> u64 \<Rightarrow> u32 \<Rightarrow> 'h \<Rightarrow> 'h" where
  "gicd_set_igrpmodr B base irq h = (let (reg_val, h) = gicd_read_igrpmodr B base irq h in gicd_write_igrpmodr B base irq (reg_val OR push_bit (bit_num irq) 1) h)"

definition gicd_clr_igrpmodr :: "'h bus \<Rightarrow> u64 \<Rightarrow> u32 \<Rightarrow> 'h \<Rightarrow> 'h" where
  "gicd_clr_igrpmodr B base irq h = (let (reg_val, h) = gicd_read_igrpmodr B base irq h in gicd_write_igrpmodr B base irq (reg_val AND NOT (push_bit (bit_num irq) 1)) h)"

definition gicd_wait_for_pending_write :: "'h bus \<Rightarrow> u64 \<Rightarrow> 'h \<Rightarrow> 'h option" where
  "gicd_wait_for_pending_write B base h = wait_read32 B (base + GICD_CTLR) (\<lambda>r. r AND GICD_CTLR_RWP_BIT = 0) h"

definition gicd_read_pidr2 :: "'h bus \<Rightarrow> u64 \<Rightarrow> 'h \<Rightarrow> u32 \<times> 'h" where
  "gicd_read_pidr2 B base h = mmio_read_32 B (base + GICD_PIDR2_GICV3) h"

definition gicd_read_irouter :: "'h bus \<Rightarrow> u64 \<Rightarrow> u32 \<Rightarrow> 'h \<Rightarrow> u64 \<times> 'h" where
  "gicd_read_irouter B base irq h = mmio_read_64 B (base + GICD_IROUTER + ucast (push_bit 3 irq)) h"

definition gicd_write_irouter :: "'h bus \<Rightarrow> u64 \<Rightarrow> u32 \<Rightarrow> u64 \<Rightarrow> 'h \<Rightarrow> 'h" where
  "gicd_write_irouter B base irq affinity h = mmio_write_64 B (base + GICD_IROUTER + ucast (push_bit 3 irq)) affinity h"

definition gicd_clr_ctlr :: "'h bus \<Rightarrow> u64 \<Rightarrow> u32 \<Rightarrow> bool \<Rightarrow> 'h \<Rightarrow> 'h option" where
  "gicd_clr_ctlr B base bitmap rwp h =
     (let (r, h) = gicd_read_ctlr B base h;
          h = gicd_write_ctlr B base (r AND NOT bitmap) h
      in if rwp then gicd_wait_for_pending_write B base h else Some h)"

definition gicd_set_ctlr :: "'h bus \<Rightarrow> u64 \<Rightarrow> u32 \<Rightarrow> bool \<Rightarrow> 'h \<Rightarrow> 'h option" where
  "gicd_set_ctlr B base bitmap rwp h =
     (let (r, h) = gicd_read_ctlr B base h;
          h = gicd_write_ctlr B base (r OR bitmap) h
      in if rwp then gicd_wait_for_pending_write B base h else Some h)"

text \<open>
  \<^verbatim>\<open>0xff << 24\<close> is an \<^verbatim>\<open>int\<close> with its sign bit set, so its complement is 0x00ffffff and the 64-bit mask
  keeps bits 23 to 0 alone.
\<close>

definition gicd_irouter_val_from_mpidr :: "u64 \<Rightarrow> u32 \<Rightarrow> u64" where
  "gicd_irouter_val_from_mpidr mpidr irm = (mpidr AND scast (NOT (push_bit 24 0xff :: 32 word))) OR ucast (push_bit 31 (irm AND 1))"

definition mpidr_from_gicr_typer :: "u64 \<Rightarrow> u64" where
  "mpidr_from_gicr_typer typer_val = push_bit 32 (drop_bit 56 typer_val AND 0xff) OR (drop_bit 32 typer_val AND 0xffffff)"

subsection \<open>Redistributors\<close>

definition gicr_read_ctlr :: "'h bus \<Rightarrow> u64 \<Rightarrow> 'h \<Rightarrow> u64 \<times> 'h" where
  "gicr_read_ctlr B base h = mmio_read_64 B (base + GICR_CTLR) h"

definition gicr_write_ctlr :: "'h bus \<Rightarrow> u64 \<Rightarrow> u64 \<Rightarrow> 'h \<Rightarrow> 'h" where
  "gicr_write_ctlr B base val h = mmio_write_64 B (base + GICR_CTLR) val h"

definition gicr_read_typer :: "'h bus \<Rightarrow> u64 \<Rightarrow> 'h \<Rightarrow> u64 \<times> 'h" where
  "gicr_read_typer B base h = mmio_read_64 B (base + GICR_TYPER) h"

definition gicr_read_waker :: "'h bus \<Rightarrow> u64 \<Rightarrow> 'h \<Rightarrow> u32 \<times> 'h" where
  "gicr_read_waker B base h = mmio_read_32 B (base + GICR_WAKER) h"

definition gicr_write_waker :: "'h bus \<Rightarrow> u64 \<Rightarrow> u32 \<Rightarrow> 'h \<Rightarrow> 'h" where
  "gicr_write_waker B base val h = mmio_write_32 B (base + GICR_WAKER) val h"

definition gicr_wait_for_pending_write :: "'h bus \<Rightarrow> u64 \<Rightarrow> 'h \<Rightarrow> 'h option" where
  "gicr_wait_for_pending_write B base h = wait_read64 B (base + GICR_CTLR) (\<lambda>r. r AND GICR_CTLR_RWP_BIT = 0) h"

definition gicr_wait_for_upstream_pending_write :: "'h bus \<Rightarrow> u64 \<Rightarrow> 'h \<Rightarrow> 'h option" where
  "gicr_wait_for_upstream_pending_write B base h = wait_read64 B (base + GICR_CTLR) (\<lambda>r. r AND GICR_CTLR_UWP_BIT = 0) h"

definition gicr_read_icenabler0 :: "'h bus \<Rightarrow> u64 \<Rightarrow> 'h \<Rightarrow> u32 \<times> 'h" where
  "gicr_read_icenabler0 B base h = mmio_read_32 B (base + GICR_ICENABLER0) h"

definition gicr_read_isenabler0 :: "'h bus \<Rightarrow> u64 \<Rightarrow> 'h \<Rightarrow> u32 \<times> 'h" where
  "gicr_read_isenabler0 B base h = mmio_read_32 B (base + GICR_ISENABLER0) h"

definition gicr_read_igroupr0 :: "'h bus \<Rightarrow> u64 \<Rightarrow> 'h \<Rightarrow> u32 \<times> 'h" where
  "gicr_read_igroupr0 B base h = mmio_read_32 B (base + GICR_IGROUPR0) h"

definition gicr_read_ispendr0 :: "'h bus \<Rightarrow> u64 \<Rightarrow> 'h \<Rightarrow> u32 \<times> 'h" where
  "gicr_read_ispendr0 B base h = mmio_read_32 B (base + GICR_ISPENDR0) h"

definition gicr_read_igrpmodr0 :: "'h bus \<Rightarrow> u64 \<Rightarrow> 'h \<Rightarrow> u32 \<times> 'h" where
  "gicr_read_igrpmodr0 B base h = mmio_read_32 B (base + GICR_IGRPMODR0) h"

definition gicr_read_nsacr :: "'h bus \<Rightarrow> u64 \<Rightarrow> 'h \<Rightarrow> u32 \<times> 'h" where
  "gicr_read_nsacr B base h = mmio_read_32 B (base + GICR_NSACR) h"

definition gicr_read_isactiver0 :: "'h bus \<Rightarrow> u64 \<Rightarrow> 'h \<Rightarrow> u32 \<times> 'h" where
  "gicr_read_isactiver0 B base h = mmio_read_32 B (base + GICR_ISACTIVER0) h"

definition gicr_read_icfgr0 :: "'h bus \<Rightarrow> u64 \<Rightarrow> 'h \<Rightarrow> u32 \<times> 'h" where
  "gicr_read_icfgr0 B base h = mmio_read_32 B (base + GICR_ICFGR0) h"

definition gicr_read_icfgr1 :: "'h bus \<Rightarrow> u64 \<Rightarrow> 'h \<Rightarrow> u32 \<times> 'h" where
  "gicr_read_icfgr1 B base h = mmio_read_32 B (base + GICR_ICFGR1) h"

definition gicr_write_icenabler0 :: "'h bus \<Rightarrow> u64 \<Rightarrow> u32 \<Rightarrow> 'h \<Rightarrow> 'h" where
  "gicr_write_icenabler0 B base val h = mmio_write_32 B (base + GICR_ICENABLER0) val h"

definition gicr_write_isenabler0 :: "'h bus \<Rightarrow> u64 \<Rightarrow> u32 \<Rightarrow> 'h \<Rightarrow> 'h" where
  "gicr_write_isenabler0 B base val h = mmio_write_32 B (base + GICR_ISENABLER0) val h"

definition gicr_write_icpendr0 :: "'h bus \<Rightarrow> u64 \<Rightarrow> u32 \<Rightarrow> 'h \<Rightarrow> 'h" where
  "gicr_write_icpendr0 B base val h = mmio_write_32 B (base + GICR_ICPENDR0) val h"

definition gicr_write_igroupr0 :: "'h bus \<Rightarrow> u64 \<Rightarrow> u32 \<Rightarrow> 'h \<Rightarrow> 'h" where
  "gicr_write_igroupr0 B base val h = mmio_write_32 B (base + GICR_IGROUPR0) val h"

definition gicr_write_ispendr0 :: "'h bus \<Rightarrow> u64 \<Rightarrow> u32 \<Rightarrow> 'h \<Rightarrow> 'h" where
  "gicr_write_ispendr0 B base val h = mmio_write_32 B (base + GICR_ISPENDR0) val h"

definition gicr_write_igrpmodr0 :: "'h bus \<Rightarrow> u64 \<Rightarrow> u32 \<Rightarrow> 'h \<Rightarrow> 'h" where
  "gicr_write_igrpmodr0 B base val h = mmio_write_32 B (base + GICR_IGRPMODR0) val h"

definition gicr_write_nsacr :: "'h bus \<Rightarrow> u64 \<Rightarrow> u32 \<Rightarrow> 'h \<Rightarrow> 'h" where
  "gicr_write_nsacr B base val h = mmio_write_32 B (base + GICR_NSACR) val h"

definition gicr_write_isactiver0 :: "'h bus \<Rightarrow> u64 \<Rightarrow> u32 \<Rightarrow> 'h \<Rightarrow> 'h" where
  "gicr_write_isactiver0 B base val h = mmio_write_32 B (base + GICR_ISACTIVER0) val h"

definition gicr_write_icfgr0 :: "'h bus \<Rightarrow> u64 \<Rightarrow> u32 \<Rightarrow> 'h \<Rightarrow> 'h" where
  "gicr_write_icfgr0 B base val h = mmio_write_32 B (base + GICR_ICFGR0) val h"

definition gicr_write_icfgr1 :: "'h bus \<Rightarrow> u64 \<Rightarrow> u32 \<Rightarrow> 'h \<Rightarrow> 'h" where
  "gicr_write_icfgr1 B base val h = mmio_write_32 B (base + GICR_ICFGR1) val h"

text \<open>These four access the low half of a 64-bit register.\<close>

definition gicr_read_propbaser :: "'h bus \<Rightarrow> u64 \<Rightarrow> 'h \<Rightarrow> u32 \<times> 'h" where
  "gicr_read_propbaser B base h = mmio_read_32 B (base + GICR_PROPBASER) h"

definition gicr_write_propbaser :: "'h bus \<Rightarrow> u64 \<Rightarrow> u32 \<Rightarrow> 'h \<Rightarrow> 'h" where
  "gicr_write_propbaser B base val h = mmio_write_32 B (base + GICR_PROPBASER) val h"

definition gicr_read_pendbaser :: "'h bus \<Rightarrow> u64 \<Rightarrow> 'h \<Rightarrow> u32 \<times> 'h" where
  "gicr_read_pendbaser B base h = mmio_read_32 B (base + GICR_PENDBASER) h"

definition gicr_write_pendbaser :: "'h bus \<Rightarrow> u64 \<Rightarrow> u32 \<Rightarrow> 'h \<Rightarrow> 'h" where
  "gicr_write_pendbaser B base val h = mmio_write_32 B (base + GICR_PENDBASER) val h"

definition gicr_read_ipriorityr :: "'h bus \<Rightarrow> u64 \<Rightarrow> u32 \<Rightarrow> 'h \<Rightarrow> u32 \<times> 'h" where
  "gicr_read_ipriorityr B base irq h = mmio_read_32 B (bank_reg base GICR_IPRIORITYR 2 irq) h"

definition gicr_write_ipriorityr :: "'h bus \<Rightarrow> u64 \<Rightarrow> u32 \<Rightarrow> u32 \<Rightarrow> 'h \<Rightarrow> 'h" where
  "gicr_write_ipriorityr B base irq val h = mmio_write_32 B (bank_reg base GICR_IPRIORITYR 2 irq) val h"

definition gicr_get_igroupr0 :: "'h bus \<Rightarrow> u64 \<Rightarrow> u32 \<Rightarrow> 'h \<Rightarrow> u32 \<times> 'h" where
  "gicr_get_igroupr0 B base irq h = (let (reg_val, h) = gicr_read_igroupr0 B base h in (drop_bit (bit_num irq) reg_val AND 1, h))"

definition gicr_set_igroupr0 :: "'h bus \<Rightarrow> u64 \<Rightarrow> u32 \<Rightarrow> 'h \<Rightarrow> 'h" where
  "gicr_set_igroupr0 B base irq h = (let (reg_val, h) = gicr_read_igroupr0 B base h in gicr_write_igroupr0 B base (reg_val OR push_bit (bit_num irq) 1) h)"

definition gicr_clr_igroupr0 :: "'h bus \<Rightarrow> u64 \<Rightarrow> u32 \<Rightarrow> 'h \<Rightarrow> 'h" where
  "gicr_clr_igroupr0 B base irq h = (let (reg_val, h) = gicr_read_igroupr0 B base h in gicr_write_igroupr0 B base (reg_val AND NOT (push_bit (bit_num irq) 1)) h)"

definition gicr_get_igrpmodr0 :: "'h bus \<Rightarrow> u64 \<Rightarrow> u32 \<Rightarrow> 'h \<Rightarrow> u32 \<times> 'h" where
  "gicr_get_igrpmodr0 B base irq h = (let (reg_val, h) = gicr_read_igrpmodr0 B base h in (drop_bit (bit_num irq) reg_val AND 1, h))"

definition gicr_set_igrpmodr0 :: "'h bus \<Rightarrow> u64 \<Rightarrow> u32 \<Rightarrow> 'h \<Rightarrow> 'h" where
  "gicr_set_igrpmodr0 B base irq h = (let (reg_val, h) = gicr_read_igrpmodr0 B base h in gicr_write_igrpmodr0 B base (reg_val OR push_bit (bit_num irq) 1) h)"

definition gicr_clr_igrpmodr0 :: "'h bus \<Rightarrow> u64 \<Rightarrow> u32 \<Rightarrow> 'h \<Rightarrow> 'h" where
  "gicr_clr_igrpmodr0 B base irq h = (let (reg_val, h) = gicr_read_igrpmodr0 B base h in gicr_write_igrpmodr0 B base (reg_val AND NOT (push_bit (bit_num irq) 1)) h)"

definition gicr_set_isenabler0 :: "'h bus \<Rightarrow> u64 \<Rightarrow> u32 \<Rightarrow> 'h \<Rightarrow> 'h" where
  "gicr_set_isenabler0 B base irq h = gicr_write_isenabler0 B base (push_bit (bit_num irq) 1) h"

definition gicr_set_icenabler0 :: "'h bus \<Rightarrow> u64 \<Rightarrow> u32 \<Rightarrow> 'h \<Rightarrow> 'h" where
  "gicr_set_icenabler0 B base irq h = gicr_write_icenabler0 B base (push_bit (bit_num irq) 1) h"

definition gicr_set_icpendr0 :: "'h bus \<Rightarrow> u64 \<Rightarrow> u32 \<Rightarrow> 'h \<Rightarrow> 'h" where
  "gicr_set_icpendr0 B base irq h = gicr_write_icpendr0 B base (push_bit (bit_num irq) 1) h"

definition gicr_set_ispendr0 :: "'h bus \<Rightarrow> u64 \<Rightarrow> u32 \<Rightarrow> 'h \<Rightarrow> 'h" where
  "gicr_set_ispendr0 B base irq h = gicr_write_ispendr0 B base (push_bit (bit_num irq) 1) h"

definition gicr_get_isactiver0 :: "'h bus \<Rightarrow> u64 \<Rightarrow> u32 \<Rightarrow> 'h \<Rightarrow> u32 \<times> 'h" where
  "gicr_get_isactiver0 B base irq h = (let (reg_val, h) = gicr_read_isactiver0 B base h in (drop_bit (bit_num irq) reg_val AND 1, h))"

definition gicr_set_ipriorityr :: "'h bus \<Rightarrow> u64 \<Rightarrow> u32 \<Rightarrow> u32 \<Rightarrow> 'h \<Rightarrow> 'h" where
  "gicr_set_ipriorityr B base irq pri h = mmio_write_8 B (base + GICR_IPRIORITYR + ucast irq) (ucast (pri AND GIC_PRI_MASK)) h"

definition gicr_set_icfgr0 :: "'h bus \<Rightarrow> u64 \<Rightarrow> u32 \<Rightarrow> u32 \<Rightarrow> 'h \<Rightarrow> 'h" where
  "gicr_set_icfgr0 B base irq cfg h =
     (let bit_shift = 2 * unat (irq AND 15);
          (reg_val, h) = gicr_read_icfgr0 B base h;
          reg_val = reg_val AND NOT (push_bit bit_shift GIC_CFG_MASK);
          reg_val = reg_val OR push_bit bit_shift (cfg AND GIC_CFG_MASK)
      in gicr_write_icfgr0 B base reg_val h)"

definition gicr_set_icfgr1 :: "'h bus \<Rightarrow> u64 \<Rightarrow> u32 \<Rightarrow> u32 \<Rightarrow> 'h \<Rightarrow> 'h" where
  "gicr_set_icfgr1 B base irq cfg h =
     (let bit_shift = 2 * unat (irq AND 15);
          (reg_val, h) = gicr_read_icfgr1 B base h;
          reg_val = reg_val AND NOT (push_bit bit_shift GIC_CFG_MASK);
          reg_val = reg_val OR push_bit bit_shift (cfg AND GIC_CFG_MASK)
      in gicr_write_icfgr1 B base reg_val h)"

subsection \<open>ITS\<close>

definition gits_read_ctlr :: "'h bus \<Rightarrow> u64 \<Rightarrow> 'h \<Rightarrow> u32 \<times> 'h" where
  "gits_read_ctlr B base h = mmio_read_32 B (base + GITS_CTLR) h"

definition gits_write_ctlr :: "'h bus \<Rightarrow> u64 \<Rightarrow> u32 \<Rightarrow> 'h \<Rightarrow> 'h" where
  "gits_write_ctlr B base val h = mmio_write_32 B (base + GITS_CTLR) val h"

definition gits_read_cbaser :: "'h bus \<Rightarrow> u64 \<Rightarrow> 'h \<Rightarrow> u64 \<times> 'h" where
  "gits_read_cbaser B base h = mmio_read_64 B (base + GITS_CBASER) h"

definition gits_read_cwriter :: "'h bus \<Rightarrow> u64 \<Rightarrow> 'h \<Rightarrow> u64 \<times> 'h" where
  "gits_read_cwriter B base h = mmio_read_64 B (base + GITS_CWRITER) h"

text \<open>The two writers store the low half of their 64-bit argument.\<close>

definition gits_write_cbaser :: "'h bus \<Rightarrow> u64 \<Rightarrow> u64 \<Rightarrow> 'h \<Rightarrow> 'h" where
  "gits_write_cbaser B base val h = mmio_write_32 B (base + GITS_CBASER) (ucast val) h"

definition gits_write_cwriter :: "'h bus \<Rightarrow> u64 \<Rightarrow> u64 \<Rightarrow> 'h \<Rightarrow> 'h" where
  "gits_write_cwriter B base val h = mmio_write_32 B (base + GITS_CWRITER) (ucast val) h"

definition gits_read_baser :: "'h bus \<Rightarrow> u64 \<Rightarrow> nat \<Rightarrow> 'h \<Rightarrow> u64 \<times> 'h" where
  "gits_read_baser B base its_table_id h = mmio_read_64 B (base + GITS_BASER + 8 * of_nat its_table_id) h"

definition gits_write_baser :: "'h bus \<Rightarrow> u64 \<Rightarrow> nat \<Rightarrow> u64 \<Rightarrow> 'h \<Rightarrow> 'h" where
  "gits_write_baser B base its_table_id val h = mmio_write_64 B (base + GITS_BASER + 8 * of_nat its_table_id) val h"

definition gits_wait_for_quiescent_bit :: "'h bus \<Rightarrow> u64 \<Rightarrow> 'h \<Rightarrow> 'h option" where
  "gits_wait_for_quiescent_bit B base h = wait_read32 B (base + GITS_CTLR) (\<lambda>r. r AND GITS_CTLR_QUIESCENT_BIT \<noteq> 0) h"

end
