(* ===== verification/Gicv3.thy ===== *)
theory Gicv3
  imports Gic_Regs
begin

text \<open>
  The GICv3 driver: \<^verbatim>\<open>gicv3_main.c\<close>, the helpers of \<^verbatim>\<open>gicv3_helpers.c\<close> that configure interrupts, and the
  hooks of \<^verbatim>\<open>gic500.c\<close> and \<^verbatim>\<open>arm_gicv3_common.c\<close>. A call is a function on the state of the driver, the
  hardware and the CPU interface of the caller; it gives \<open>None\<close> when it does not come back (a wait
  that never ends, a lock that is never released, a null driver data pointer, an access outside an array or a panic). The build
  disables assertions.
\<close>

subsection \<open>Data\<close>

record interrupt_prop =
  intr_num :: u32
  intr_pri :: u32
  intr_grp :: u32
  intr_cfg :: u32

record gicv3_driver_data =
  gicd_base :: u64
  gicr_base :: u64
  g0_interrupt_array :: "u32 list option"
  g1s_interrupt_array :: "u32 list option"
  interrupt_props :: "interrupt_prop list option"
  rdistif_num :: nat
  mpidr_to_core_pos :: "(u64 \<Rightarrow> nat) option"

record gicv3_redist_ctx =
  gicr_propbaser :: u64
  gicr_pendbaser :: u64
  gicr_ctlr :: u32
  gicr_igroupr0 :: u32
  gicr_isenabler0 :: u32
  gicr_ispendr0 :: u32
  gicr_isactiver0 :: u32
  gicr_ipriorityr :: "u32 list"
  gicr_icfgr0 :: u32
  gicr_icfgr1 :: u32
  gicr_igrpmodr0 :: u32
  gicr_nsacr :: u32

record gicv3_dist_ctx =
  gicd_irouter :: "u64 list"
  gicd_ctlr :: u32
  gicd_igroupr :: "u32 list"
  gicd_isenabler :: "u32 list"
  gicd_ispendr :: "u32 list"
  gicd_isactiver :: "u32 list"
  gicd_ipriorityr :: "u32 list"
  gicd_icfgr :: "u32 list"
  gicd_igrpmodr :: "u32 list"
  gicd_nsacr :: "u32 list"

record gicv3_its_ctx =
  gits_cbaser :: u64
  gits_cwriter :: u64
  gits_baser :: "u64 list"
  gits_ctlr :: u32

abbreviation TOTAL_SPI_INTR_NUM :: nat where "TOTAL_SPI_INTR_NUM \<equiv> 988"
abbreviation TOTAL_PCPU_INTR_NUM :: nat where "TOTAL_PCPU_INTR_NUM \<equiv> 32"

definition GICD_NUM_REGS :: "nat \<Rightarrow> nat" where
  "GICD_NUM_REGS shift = (TOTAL_SPI_INTR_NUM + 2 ^ shift - 1) div 2 ^ shift"

definition GICR_NUM_REGS :: "nat \<Rightarrow> nat" where
  "GICR_NUM_REGS shift = (TOTAL_PCPU_INTR_NUM + 2 ^ shift - 1) div 2 ^ shift"

text \<open>The lengths of the arrays of a Distributor context.\<close>

definition dist_ctx_sized :: "gicv3_dist_ctx \<Rightarrow> bool" where
  "dist_ctx_sized c \<longleftrightarrow> length (gicd_irouter c) = TOTAL_SPI_INTR_NUM \<and>
     length (gicd_igroupr c) = GICD_NUM_REGS 5 \<and> length (gicd_isenabler c) = GICD_NUM_REGS 5 \<and>
     length (gicd_ispendr c) = GICD_NUM_REGS 5 \<and> length (gicd_isactiver c) = GICD_NUM_REGS 5 \<and>
     length (gicd_ipriorityr c) = GICD_NUM_REGS 2 \<and> length (gicd_icfgr c) = GICD_NUM_REGS 4 \<and>
     length (gicd_igrpmodr c) = GICD_NUM_REGS 5 \<and> length (gicd_nsacr c) = GICD_NUM_REGS 4"

text \<open>
  The system registers of the CPU interface; \<^verbatim>\<open>ICC_SRE_EL1\<close> has a Secure and a Non-secure instance, which
  \<^verbatim>\<open>SCR_EL3.NS\<close> selects. Writes to \<^verbatim>\<open>ICC_SGI0R_EL1\<close> are kept in order.
\<close>

record icc_regs =
  icc_scr_el3 :: u64
  icc_sre_el3 :: u64
  icc_sre_el2 :: u64
  icc_sre_el1_s :: u64
  icc_sre_el1_ns :: u64
  icc_pmr_el1 :: u64
  icc_igrpen0_el1 :: u64
  icc_igrpen1_el3 :: u64
  icc_hppir0_el1 :: u64
  icc_hppir1_el1 :: u64
  icc_rpr_el1 :: u64
  icc_sgi0r_el1 :: "u64 list"
  icc_mpidr_el1 :: u64

record 'h gicv3 =
  hw :: 'h
  gicv3_driver_data :: "gicv3_driver_data option"
  rdistif_base_addrs :: "u64 list"
  gicv2_compat :: u32
  gic_lock :: bool
  icc :: icc_regs

definition on_hw :: "('h \<Rightarrow> 'h option) \<Rightarrow> 'h gicv3 \<Rightarrow> 'h gicv3 option" where
  "on_hw f g = map_option (\<lambda>h. g\<lparr>hw := h\<rparr>) (f (hw g))"

definition rdist_base :: "'h gicv3 \<Rightarrow> nat \<Rightarrow> u64 option" where
  "rdist_base g proc_num =
     (if proc_num < length (rdistif_base_addrs g) then Some (rdistif_base_addrs g ! proc_num) else None)"

definition icc_write_sre_el1 :: "u64 \<Rightarrow> icc_regs \<Rightarrow> icc_regs" where
  "icc_write_sre_el1 v c = (if icc_scr_el3 c AND 1 = 0 then c\<lparr>icc_sre_el1_s := v\<rparr> else c\<lparr>icc_sre_el1_ns := v\<rparr>)"

subsection \<open>Loops over interrupts\<close>

text \<open>The values of a loop variable that starts at \<open>lo\<close> and advances by \<open>step\<close> below \<open>hi\<close>.\<close>

definition irq_range :: "nat \<Rightarrow> nat \<Rightarrow> nat \<Rightarrow> u32 list" where
  "irq_range lo hi step = map (\<lambda>k. of_nat (lo + step * k)) [0..<(hi - lo + step - 1) div step]"

definition num_ints_of :: "u32 \<Rightarrow> nat" where
  "num_ints_of typer = unat (push_bit 5 ((typer AND TYPER_IT_LINES_NO_MASK) + 1))"

fun save_regs :: "(u32 \<Rightarrow> 'h \<Rightarrow> 'a \<times> 'h) \<Rightarrow> u32 \<Rightarrow> nat \<Rightarrow> u32 list \<Rightarrow> 'a list \<Rightarrow> 'h \<Rightarrow> ('a list \<times> 'h) option" where
  "save_regs rd lo shift [] arr h = Some (arr, h)"
| "save_regs rd lo shift (i # is) arr h =
     (let k = unat (drop_bit shift (i - lo)); (v, h) = rd i h
      in if k < length arr then save_regs rd lo shift is (arr[k := v]) h else None)"

fun restore_regs :: "(u32 \<Rightarrow> 'a \<Rightarrow> 'h \<Rightarrow> 'h) \<Rightarrow> u32 \<Rightarrow> nat \<Rightarrow> u32 list \<Rightarrow> 'a list \<Rightarrow> 'h \<Rightarrow> 'h option" where
  "restore_regs wr lo shift [] arr h = Some h"
| "restore_regs wr lo shift (i # is) arr h =
     (let k = unat (drop_bit shift (i - lo))
      in if k < length arr then restore_regs wr lo shift is arr (wr i (arr ! k) h) else None)"

definition SAVE_GICD_REGS :: "(u32 \<Rightarrow> 'h \<Rightarrow> 'a \<times> 'h) \<Rightarrow> nat \<Rightarrow> nat \<Rightarrow> 'a list \<Rightarrow> 'h \<Rightarrow> ('a list \<times> 'h) option" where
  "SAVE_GICD_REGS rd num_ints shift arr h = save_regs rd MIN_SPI_ID shift (irq_range 32 num_ints (2 ^ shift)) arr h"

definition RESTORE_GICD_REGS :: "(u32 \<Rightarrow> 'a \<Rightarrow> 'h \<Rightarrow> 'h) \<Rightarrow> nat \<Rightarrow> nat \<Rightarrow> 'a list \<Rightarrow> 'h \<Rightarrow> 'h option" where
  "RESTORE_GICD_REGS wr num_ints shift arr h = restore_regs wr MIN_SPI_ID shift (irq_range 32 num_ints (2 ^ shift)) arr h"

subsection \<open>Helpers\<close>

definition gicv3_rdistif_mark_core_awake :: "'h bus \<Rightarrow> u64 \<Rightarrow> 'h \<Rightarrow> 'h option" where
  "gicv3_rdistif_mark_core_awake B base h =
     (let (w, h) = gicr_read_waker B base h;
          h = gicr_write_waker B base (w AND NOT WAKER_PS_BIT) h
      in wait_read32 B (base + GICR_WAKER) (\<lambda>r. r AND WAKER_CA_BIT = 0) h)"

definition gicv3_rdistif_mark_core_asleep :: "'h bus \<Rightarrow> u64 \<Rightarrow> 'h \<Rightarrow> 'h option" where
  "gicv3_rdistif_mark_core_asleep B base h =
     (let (w, h) = gicr_read_waker B base h;
          h = gicr_write_waker B base (w OR WAKER_PS_BIT) h
      in wait_read32 B (base + GICR_WAKER) (\<lambda>r. r AND WAKER_CA_BIT \<noteq> 0) h)"

partial_function (option) gicv3_rdistif_base_addrs_probe ::
    "'h bus \<Rightarrow> (u64 \<Rightarrow> nat) option \<Rightarrow> u64 list \<Rightarrow> u64 \<Rightarrow> 'h \<Rightarrow> (u64 list \<times> 'h) option" where
  "gicv3_rdistif_base_addrs_probe B mpidr_to_pos addrs rdistif_base h =
     (let (typer_val, h) = gicr_read_typer B rdistif_base h;
          proc_num = (case mpidr_to_pos of
              Some f \<Rightarrow> f (mpidr_from_gicr_typer typer_val)
            | None \<Rightarrow> unat (drop_bit 8 typer_val AND 0xffff))
      in if proc_num < length addrs
         then let addrs = addrs[proc_num := rdistif_base]; rdistif_base = rdistif_base + push_bit 17 1
              in if typer_val AND TYPER_LAST_BIT = 0
                 then gicv3_rdistif_base_addrs_probe B mpidr_to_pos addrs rdistif_base h
                 else Some (addrs, h)
         else None)"

definition gicv3_spis_configure_defaults :: "'h bus \<Rightarrow> u64 \<Rightarrow> 'h \<Rightarrow> 'h" where
  "gicv3_spis_configure_defaults B base h =
     (let (typer, h) = gicd_read_typer B base h;
          num_ints = num_ints_of typer;
          h = fold (\<lambda>index. gicd_write_igroupr B base index (NOT 0)) (irq_range 32 num_ints 32) h;
          h = fold (\<lambda>index. gicd_write_ipriorityr B base index GICD_IPRIORITYR_DEF_VAL) (irq_range 32 num_ints 4) h
      in fold (\<lambda>index. gicd_write_icfgr B base index 0) (irq_range 32 num_ints 16) h)"

definition secure_spi_configure :: "'h bus \<Rightarrow> u64 \<Rightarrow> u64 \<Rightarrow> u32 \<Rightarrow> u32 \<Rightarrow> 'h \<Rightarrow> 'h" where
  "secure_spi_configure B base mpidr int_grp irq_num h =
     (if irq_num \<ge> MIN_SPI_ID
      then let h = gicd_clr_igroupr B base irq_num h;
               h = (if int_grp = INTR_GROUP1S then gicd_set_igrpmodr B base irq_num h else gicd_clr_igrpmodr B base irq_num h);
               h = gicd_set_ipriorityr B base irq_num GIC_HIGHEST_SEC_PRIORITY h;
               h = gicd_write_irouter B base irq_num (gicd_irouter_val_from_mpidr mpidr 0) h
           in gicd_set_isenabler B base irq_num h
      else h)"

definition gicv3_secure_spis_configure :: "'h bus \<Rightarrow> u64 \<Rightarrow> u64 \<Rightarrow> u32 list \<Rightarrow> u32 \<Rightarrow> 'h \<Rightarrow> 'h" where
  "gicv3_secure_spis_configure B base mpidr sec_intr_list int_grp h =
     fold (secure_spi_configure B base mpidr int_grp) sec_intr_list h"

definition secure_spi_prop :: "'h bus \<Rightarrow> u64 \<Rightarrow> u64 \<Rightarrow> interrupt_prop \<Rightarrow> u32 \<times> 'h \<Rightarrow> u32 \<times> 'h" where
  "secure_spi_prop B base mpidr p s = (case s of (ctlr_enable, h) \<Rightarrow>
     (if intr_num p < MIN_SPI_ID then (ctlr_enable, h)
      else let h = gicd_clr_igroupr B base (intr_num p) h;
               (ctlr_enable, h) = (if intr_grp p = INTR_GROUP1S
                 then (ctlr_enable OR CTLR_ENABLE_G1S_BIT, gicd_set_igrpmodr B base (intr_num p) h)
                 else (ctlr_enable OR CTLR_ENABLE_G0_BIT, gicd_clr_igrpmodr B base (intr_num p) h));
               h = gicd_set_icfgr B base (intr_num p) (intr_cfg p) h;
               h = gicd_set_ipriorityr B base (intr_num p) (intr_pri p) h;
               h = gicd_write_irouter B base (intr_num p) (gicd_irouter_val_from_mpidr mpidr 0) h
           in (ctlr_enable, gicd_set_isenabler B base (intr_num p) h)))"

definition gicv3_secure_spis_configure_props :: "'h bus \<Rightarrow> u64 \<Rightarrow> u64 \<Rightarrow> interrupt_prop list \<Rightarrow> 'h \<Rightarrow> u32 \<times> 'h" where
  "gicv3_secure_spis_configure_props B base mpidr props h = fold (secure_spi_prop B base mpidr) props (0, h)"

definition gicv3_ppi_sgi_configure_defaults :: "'h bus \<Rightarrow> u64 \<Rightarrow> 'h \<Rightarrow> 'h option" where
  "gicv3_ppi_sgi_configure_defaults B base h = do {
     let h = gicr_write_icenabler0 B base (NOT 0) h;
     h \<leftarrow> gicr_wait_for_pending_write B base h;
     let h = gicr_write_igroupr0 B base (NOT 0) h;
     let h = fold (\<lambda>index. gicr_write_ipriorityr B base index GICD_IPRIORITYR_DEF_VAL) (irq_range 0 32 4) h;
     Some (gicr_write_icfgr1 B base 0 h)
   }"

definition secure_ppi_sgi_configure :: "'h bus \<Rightarrow> u64 \<Rightarrow> u32 \<Rightarrow> u32 \<Rightarrow> 'h \<Rightarrow> 'h" where
  "secure_ppi_sgi_configure B base int_grp irq_num h =
     (if irq_num < MIN_SPI_ID
      then let h = gicr_clr_igroupr0 B base irq_num h;
               h = (if int_grp = INTR_GROUP1S then gicr_set_igrpmodr0 B base irq_num h else gicr_clr_igrpmodr0 B base irq_num h);
               h = gicr_set_ipriorityr B base irq_num GIC_HIGHEST_SEC_PRIORITY h
           in gicr_set_isenabler0 B base irq_num h
      else h)"

definition gicv3_secure_ppi_sgi_configure :: "'h bus \<Rightarrow> u64 \<Rightarrow> u32 list \<Rightarrow> u32 \<Rightarrow> 'h \<Rightarrow> 'h" where
  "gicv3_secure_ppi_sgi_configure B base sec_intr_list int_grp h =
     fold (secure_ppi_sgi_configure B base int_grp) sec_intr_list h"

definition secure_ppi_sgi_prop :: "'h bus \<Rightarrow> u64 \<Rightarrow> interrupt_prop \<Rightarrow> u32 \<times> 'h \<Rightarrow> u32 \<times> 'h" where
  "secure_ppi_sgi_prop B base p s = (case s of (ctlr_enable, h) \<Rightarrow>
     (if intr_num p \<ge> MIN_SPI_ID then (ctlr_enable, h)
      else let h = gicr_clr_igroupr0 B base (intr_num p) h;
               (ctlr_enable, h) = (if intr_grp p = INTR_GROUP1S
                 then (ctlr_enable OR CTLR_ENABLE_G1S_BIT, gicr_set_igrpmodr0 B base (intr_num p) h)
                 else (ctlr_enable OR CTLR_ENABLE_G0_BIT, gicr_clr_igrpmodr0 B base (intr_num p) h));
               h = gicr_set_ipriorityr B base (intr_num p) (intr_pri p) h;
               h = (if intr_num p \<ge> MIN_PPI_ID \<and> intr_num p < MIN_SPI_ID
                    then gicr_set_icfgr1 B base (intr_num p) (intr_cfg p) h else h)
           in (ctlr_enable, gicr_set_isenabler0 B base (intr_num p) h)))"

definition gicv3_secure_ppi_sgi_configure_props :: "'h bus \<Rightarrow> u64 \<Rightarrow> interrupt_prop list \<Rightarrow> 'h \<Rightarrow> u32 \<times> 'h" where
  "gicv3_secure_ppi_sgi_configure_props B base props h = fold (secure_ppi_sgi_prop B base) props (0, h)"

subsection \<open>GIC-500\<close>

definition arm_gicv3_distif_pre_save :: "'h bus \<Rightarrow> nat \<Rightarrow> 'h gicv3 \<Rightarrow> 'h gicv3 option" where
  "arm_gicv3_distif_pre_save B proc_num g = do {
     base \<leftarrow> rdist_base g proc_num;
     on_hw (\<lambda>h. let (w, h) = gicr_read_waker B base h;
                    h = gicr_write_waker B base (w OR WAKER_SL_BIT) h
                in wait_read32 B (base + GICR_WAKER) (\<lambda>r. r AND WAKER_QSC_BIT \<noteq> 0) h) g
   }"

definition arm_gicv3_distif_post_restore :: "'h bus \<Rightarrow> nat \<Rightarrow> 'h gicv3 \<Rightarrow> 'h gicv3 option" where
  "arm_gicv3_distif_post_restore B proc_num g = do {
     base \<leftarrow> rdist_base g proc_num;
     on_hw (\<lambda>h. let (w, h) = gicr_read_waker B base h
                in if w AND WAKER_SL_BIT = 0 then Some h
                   else let (w, h) = gicr_read_waker B base h;
                            h = gicr_write_waker B base (w AND NOT WAKER_SL_BIT) h
                        in wait_read32 B (base + GICR_WAKER) (\<lambda>r. r AND WAKER_QSC_BIT = 0) h) g
   }"

definition gicv3_distif_pre_save :: "'h bus \<Rightarrow> nat \<Rightarrow> 'h gicv3 \<Rightarrow> 'h gicv3 option" where
  "gicv3_distif_pre_save B proc_num g = arm_gicv3_distif_pre_save B proc_num g"

definition gicv3_distif_post_restore :: "'h bus \<Rightarrow> nat \<Rightarrow> 'h gicv3 \<Rightarrow> 'h gicv3 option" where
  "gicv3_distif_post_restore B proc_num g = arm_gicv3_distif_post_restore B proc_num g"

subsection \<open>Initialisation\<close>

definition gicv3_driver_init :: "'h bus \<Rightarrow> gicv3_driver_data \<Rightarrow> 'h gicv3 \<Rightarrow> 'h gicv3 option" where
  "gicv3_driver_init B data g = do {
     let (pidr2, h) = gicd_read_pidr2 B (gicd_base data) (hw g);
     let (ctlr, h) = gicd_read_ctlr B (gicd_base data) h;
     let compat = (if drop_bit 4 ctlr AND 1 = 0 then 1 else 0);
     (addrs, h) \<leftarrow> gicv3_rdistif_base_addrs_probe B (mpidr_to_core_pos data) (rdistif_base_addrs g) (gicr_base data) h;
     Some (g\<lparr>hw := h, gicv2_compat := compat, rdistif_base_addrs := addrs, gicv3_driver_data := Some data\<rparr>)
   }"

definition gicv3_distif_init :: "'h bus \<Rightarrow> 'h gicv3 \<Rightarrow> 'h gicv3 option" where
  "gicv3_distif_init B g = do {
     data \<leftarrow> gicv3_driver_data g;
     let base = gicd_base data;
     let mpidr = icc_mpidr_el1 (icc g);
     h \<leftarrow> gicd_clr_ctlr B base ((CTLR_ENABLE_G0_BIT OR CTLR_ENABLE_G1S_BIT) OR CTLR_ENABLE_G1NS_BIT) True (hw g);
     h \<leftarrow> gicd_set_ctlr B base (CTLR_ARE_S_BIT OR CTLR_ARE_NS_BIT) True h;
     let h = gicv3_spis_configure_defaults B base h;
     let (bitmap, h) = (case interrupt_props data of
         Some props \<Rightarrow> gicv3_secure_spis_configure_props B base mpidr props h
       | None \<Rightarrow>
           (let (bitmap, h) = (case g1s_interrupt_array data of None \<Rightarrow> (0, h)
                | Some arr \<Rightarrow> (CTLR_ENABLE_G1S_BIT, gicv3_secure_spis_configure B base mpidr arr INTR_GROUP1S h))
            in case g0_interrupt_array data of None \<Rightarrow> (bitmap, h)
                | Some arr \<Rightarrow> (bitmap OR CTLR_ENABLE_G0_BIT, gicv3_secure_spis_configure B base mpidr arr INTR_GROUP0 h)));
     h \<leftarrow> gicd_set_ctlr B base bitmap True h;
     Some (g\<lparr>hw := h\<rparr>)
   }"

definition gicv3_rdistif_off :: "nat \<Rightarrow> 'h gicv3 \<Rightarrow> 'h gicv3" where
  "gicv3_rdistif_off proc_num g = g"

definition gicv3_rdistif_on :: "nat \<Rightarrow> 'h gicv3 \<Rightarrow> 'h gicv3" where
  "gicv3_rdistif_on proc_num g = g"

definition gicv3_rdistif_init :: "'h bus \<Rightarrow> nat \<Rightarrow> 'h gicv3 \<Rightarrow> 'h gicv3 option" where
  "gicv3_rdistif_init B proc_num g = do {
     data \<leftarrow> gicv3_driver_data g;
     let (ctlr, h) = gicd_read_ctlr B (gicd_base data) (hw g);
     let g = gicv3_rdistif_on proc_num (g\<lparr>hw := h\<rparr>);
     base \<leftarrow> rdist_base g proc_num;
     h \<leftarrow> gicv3_ppi_sgi_configure_defaults B base (hw g);
     let (bitmap, h) = (case interrupt_props data of
         Some props \<Rightarrow> gicv3_secure_ppi_sgi_configure_props B base props h
       | None \<Rightarrow>
           (let (bitmap, h) = (case g1s_interrupt_array data of None \<Rightarrow> (0, h)
                | Some arr \<Rightarrow> (CTLR_ENABLE_G1S_BIT, gicv3_secure_ppi_sgi_configure B base arr INTR_GROUP1S h))
            in case g0_interrupt_array data of None \<Rightarrow> (bitmap, h)
                | Some arr \<Rightarrow> (bitmap OR CTLR_ENABLE_G0_BIT, gicv3_secure_ppi_sgi_configure B base arr INTR_GROUP0 h)));
     h \<leftarrow> (if ctlr AND bitmap \<noteq> bitmap then gicd_set_ctlr B (gicd_base data) bitmap True h else Some h);
     Some (g\<lparr>hw := h\<rparr>)
   }"

subsection \<open>CPU interface\<close>

text \<open>The part of \<^verbatim>\<open>gicv3_cpuif_enable\<close> on system registers; \<open>scr_el3\<close> is a 32-bit variable.\<close>

definition cpuif_enable_icc :: "icc_regs \<Rightarrow> icc_regs" where
  "cpuif_enable_icc c =
     (let sre = (0x4 OR 0x2) OR (0x8 OR 0x1) :: u64;
          c = c\<lparr>icc_sre_el3 := icc_sre_el3 c OR sre\<rparr>;
          scr_el3 = ucast (icc_scr_el3 c) :: u32;
          c = c\<lparr>icc_scr_el3 := ucast (scr_el3 OR 1)\<rparr>;
          c = c\<lparr>icc_sre_el2 := icc_sre_el2 c OR sre\<rparr>;
          c = icc_write_sre_el1 1 c;
          c = c\<lparr>icc_scr_el3 := ucast (scr_el3 AND NOT 1)\<rparr>;
          c = c\<lparr>icc_pmr_el1 := 0xff\<rparr>;
          c = c\<lparr>icc_igrpen0_el1 := 1\<rparr>;
          c = c\<lparr>icc_igrpen1_el3 := icc_igrpen1_el3 c OR 2\<rparr>
      in icc_write_sre_el1 1 c)"

definition gicv3_cpuif_enable :: "'h bus \<Rightarrow> nat \<Rightarrow> 'h gicv3 \<Rightarrow> 'h gicv3 option" where
  "gicv3_cpuif_enable B proc_num g = do {
     base \<leftarrow> rdist_base g proc_num;
     g \<leftarrow> on_hw (gicv3_rdistif_mark_core_awake B base) g;
     Some (g\<lparr>icc := cpuif_enable_icc (icc g)\<rparr>)
   }"

definition cpuif_disable_icc :: "icc_regs \<Rightarrow> icc_regs" where
  "cpuif_disable_icc c =
     (let c = c\<lparr>icc_sre_el3 := icc_sre_el3 c OR (0x4 OR 0x2)\<rparr>;
          c = c\<lparr>icc_igrpen0_el1 := icc_igrpen0_el1 c AND NOT 1\<rparr>
      in c\<lparr>icc_igrpen1_el3 := icc_igrpen1_el3 c AND NOT (1 OR 2)\<rparr>)"

definition gicv3_cpuif_disable :: "'h bus \<Rightarrow> nat \<Rightarrow> 'h gicv3 \<Rightarrow> 'h gicv3 option" where
  "gicv3_cpuif_disable B proc_num g = do {
     let g = g\<lparr>icc := cpuif_disable_icc (icc g)\<rparr>;
     base \<leftarrow> rdist_base g proc_num;
     on_hw (gicv3_rdistif_mark_core_asleep B base) g
   }"

definition gicv3_get_pending_interrupt_id :: "'h gicv3 \<Rightarrow> u32" where
  "gicv3_get_pending_interrupt_id g =
     (let irq = ucast (icc_hppir0_el1 (icc g)) AND 0xffffff
      in if irq = PENDING_G1S_INTID \<or> irq = PENDING_G1NS_INTID then ucast (icc_hppir1_el1 (icc g)) AND 0xffffff else irq)"

definition gicv3_get_pending_interrupt_type :: "'h gicv3 \<Rightarrow> u32" where
  "gicv3_get_pending_interrupt_type g = ucast (icc_hppir0_el1 (icc g)) AND 0xffffff"

definition gicv3_get_running_priority :: "'h gicv3 \<Rightarrow> u32" where
  "gicv3_get_running_priority g = ucast (icc_rpr_el1 (icc g))"

definition gicv3_set_pmr :: "u32 \<Rightarrow> 'h gicv3 \<Rightarrow> u32 \<times> 'h gicv3" where
  "gicv3_set_pmr msk g = (ucast (icc_pmr_el1 (icc g)), g\<lparr>icc := (icc g)\<lparr>icc_pmr_el1 := ucast msk\<rparr>\<rparr>)"

subsection \<open>Single interrupts\<close>

definition gicv3_get_interrupt_type :: "'h bus \<Rightarrow> u32 \<Rightarrow> nat \<Rightarrow> 'h gicv3 \<Rightarrow> (u32 \<times> 'h gicv3) option" where
  "gicv3_get_interrupt_type B irq proc_num g =
     (if irq \<ge> MIN_LPI_ID then Some (INTR_GROUP1NS, g)
      else do {
        (igroup, grpmodr, h) \<leftarrow>
          (if irq < MIN_SPI_ID
           then do {
             base \<leftarrow> rdist_base g proc_num;
             let (igroup, h) = gicr_get_igroupr0 B base irq (hw g);
             let (grpmodr, h) = gicr_get_igrpmodr0 B base irq h;
             Some (igroup, grpmodr, h)
           }
           else do {
             data \<leftarrow> gicv3_driver_data g;
             let (igroup, h) = gicd_get_igroupr B (gicd_base data) irq (hw g);
             let (grpmodr, h) = gicd_get_igrpmodr B (gicd_base data) irq h;
             Some (igroup, grpmodr, h)
           });
        Some (if igroup \<noteq> 0 then INTR_GROUP1NS else if grpmodr \<noteq> 0 then INTR_GROUP1S else INTR_GROUP0, g\<lparr>hw := h\<rparr>)
      })"

definition gicv3_get_interrupt_active :: "'h bus \<Rightarrow> u32 \<Rightarrow> nat \<Rightarrow> 'h gicv3 \<Rightarrow> (u32 \<times> 'h gicv3) option" where
  "gicv3_get_interrupt_active B irq proc_num g =
     (if irq < MIN_SPI_ID
      then map_option (\<lambda>base. let (v, h) = gicr_get_isactiver0 B base irq (hw g) in (v, g\<lparr>hw := h\<rparr>)) (rdist_base g proc_num)
      else map_option (\<lambda>data. let (v, h) = gicd_get_isactiver B (gicd_base data) irq (hw g) in (v, g\<lparr>hw := h\<rparr>))
             (gicv3_driver_data g))"

text \<open>An access that goes to the Redistributor of a CPU for an SGI or PPI, and to the Distributor otherwise.\<close>

definition by_irq ::
    "(u64 \<Rightarrow> 'h \<Rightarrow> 'h option) \<Rightarrow> (u64 \<Rightarrow> 'h \<Rightarrow> 'h option) \<Rightarrow> u32 \<Rightarrow> nat \<Rightarrow> 'h gicv3 \<Rightarrow> 'h gicv3 option" where
  "by_irq rdist dist irq proc_num g =
     (if irq < MIN_SPI_ID then do { base \<leftarrow> rdist_base g proc_num; on_hw (rdist base) g }
      else do { data \<leftarrow> gicv3_driver_data g; on_hw (dist (gicd_base data)) g })"

definition gicv3_enable_interrupt :: "'h bus \<Rightarrow> u32 \<Rightarrow> nat \<Rightarrow> 'h gicv3 \<Rightarrow> 'h gicv3 option" where
  "gicv3_enable_interrupt B irq =
     by_irq (\<lambda>base h. Some (gicr_set_isenabler0 B base irq h)) (\<lambda>base h. Some (gicd_set_isenabler B base irq h)) irq"

definition gicv3_disable_interrupt :: "'h bus \<Rightarrow> u32 \<Rightarrow> nat \<Rightarrow> 'h gicv3 \<Rightarrow> 'h gicv3 option" where
  "gicv3_disable_interrupt B irq =
     by_irq (\<lambda>base h. gicr_wait_for_pending_write B base (gicr_set_icenabler0 B base irq h))
            (\<lambda>base h. gicd_wait_for_pending_write B base (gicd_set_icenabler B base irq h)) irq"

definition gicv3_set_interrupt_priority :: "'h bus \<Rightarrow> u32 \<Rightarrow> u32 \<Rightarrow> nat \<Rightarrow> 'h gicv3 \<Rightarrow> 'h gicv3 option" where
  "gicv3_set_interrupt_priority B irq priority =
     by_irq (\<lambda>base h. Some (gicr_set_ipriorityr B base irq priority h)) (\<lambda>base h. Some (gicd_set_ipriorityr B base irq priority h)) irq"

definition gicv3_clear_interrupt_pending :: "'h bus \<Rightarrow> u32 \<Rightarrow> nat \<Rightarrow> 'h gicv3 \<Rightarrow> 'h gicv3 option" where
  "gicv3_clear_interrupt_pending B irq =
     by_irq (\<lambda>base h. Some (gicr_set_icpendr0 B base irq h)) (\<lambda>base h. Some (gicd_set_icpendr B base irq h)) irq"

definition gicv3_set_interrupt_pending :: "'h bus \<Rightarrow> u32 \<Rightarrow> nat \<Rightarrow> 'h gicv3 \<Rightarrow> 'h gicv3 option" where
  "gicv3_set_interrupt_pending B irq =
     by_irq (\<lambda>base h. Some (gicr_set_ispendr0 B base irq h)) (\<lambda>base h. Some (gicd_set_ispendr B base irq h)) irq"

definition spin_lock_gic :: "'h gicv3 \<Rightarrow> 'h gicv3 option" where
  "spin_lock_gic g = (if gic_lock g then None else Some (g\<lparr>gic_lock := True\<rparr>))"

definition spin_unlock_gic :: "'h gicv3 \<Rightarrow> 'h gicv3" where
  "spin_unlock_gic g = g\<lparr>gic_lock := False\<rparr>"

text \<open>The bits for a group; any other value leaves the initial zeros, which is Group 0.\<close>

definition group_bits :: "u32 \<Rightarrow> bool \<times> bool" where
  "group_bits typ = (if typ = INTR_GROUP1S then (False, True) else if typ = INTR_GROUP0 then (False, False)
     else if typ = INTR_GROUP1NS then (True, False) else (False, False))"

definition gicv3_set_interrupt_type :: "'h bus \<Rightarrow> u32 \<Rightarrow> nat \<Rightarrow> u32 \<Rightarrow> 'h gicv3 \<Rightarrow> 'h gicv3 option" where
  "gicv3_set_interrupt_type B irq proc_num typ g =
     (let (igroup, grpmod) = group_bits typ
      in if irq < MIN_SPI_ID
         then do {
           base \<leftarrow> rdist_base g proc_num;
           on_hw (\<lambda>h. let h = (if igroup then gicr_set_igroupr0 B base irq h else gicr_clr_igroupr0 B base irq h)
                      in Some (if grpmod then gicr_set_igrpmodr0 B base irq h else gicr_clr_igrpmodr0 B base irq h)) g
         }
         else do {
           g \<leftarrow> spin_lock_gic g;
           data \<leftarrow> gicv3_driver_data g;
           g \<leftarrow> on_hw (\<lambda>h. let h = (if igroup then gicd_set_igroupr B (gicd_base data) irq h else gicd_clr_igroupr B (gicd_base data) irq h)
                      in Some (if grpmod then gicd_set_igrpmodr B (gicd_base data) irq h else gicd_clr_igrpmodr B (gicd_base data) irq h)) g;
           Some (spin_unlock_gic g)
         })"

definition GICV3_SGIR_VALUE :: "u64 \<Rightarrow> u64 \<Rightarrow> u64 \<Rightarrow> u64 \<Rightarrow> u64 \<Rightarrow> u64 \<Rightarrow> u64" where
  "GICV3_SGIR_VALUE aff3 aff2 aff1 intid irm tgt =
     push_bit 48 (aff3 AND 0xf) OR (push_bit 40 (irm AND 1) OR (push_bit 32 (aff2 AND 0xf) OR
     (push_bit 24 (intid AND 0xf) OR (push_bit 16 (aff1 AND 0xf) OR (tgt AND 0xffff)))))"

definition gicv3_raise_secure_g0_sgi :: "u64 \<Rightarrow> u64 \<Rightarrow> 'h gicv3 \<Rightarrow> 'h gicv3" where
  "gicv3_raise_secure_g0_sgi sgi_num target g =
     (let aff0 = target AND 0xff;
          aff1 = drop_bit 8 target AND 0xff;
          aff2 = drop_bit 16 target AND 0xff;
          aff3 = drop_bit 32 target AND 0xff;
          tgt = push_bit (unat aff0) 1;
          sgi_val = GICV3_SGIR_VALUE aff3 aff2 aff1 sgi_num 0 tgt
      in g\<lparr>icc := (icc g)\<lparr>icc_sgi0r_el1 := icc_sgi0r_el1 (icc g) @ [sgi_val]\<rparr>\<rparr>)"

definition gicv3_set_spi_routing :: "'h bus \<Rightarrow> u32 \<Rightarrow> u32 \<Rightarrow> u64 \<Rightarrow> 'h gicv3 \<Rightarrow> 'h gicv3 option" where
  "gicv3_set_spi_routing B irq irm mpidr g = do {
     data \<leftarrow> gicv3_driver_data g;
     let h = gicd_write_irouter B (gicd_base data) irq (gicd_irouter_val_from_mpidr mpidr irm) (hw g);
     if irm = 1
     then let (router, h) = gicd_read_irouter B (gicd_base data) irq h
          in if drop_bit 31 router AND 1 = 0 then None else Some (g\<lparr>hw := h\<rparr>)
     else Some (g\<lparr>hw := h\<rparr>)
   }"

subsection \<open>Save and restore\<close>

definition gicv3_its_save_disable :: "'h bus \<Rightarrow> u64 \<Rightarrow> 'h \<Rightarrow> (gicv3_its_ctx \<times> 'h) option" where
  "gicv3_its_save_disable B base h = do {
     let (ctlr, h) = gits_read_ctlr B base h;
     let h = gits_write_ctlr B base (ctlr AND NOT GITS_CTLR_ENABLED_BIT) h;
     h \<leftarrow> gits_wait_for_quiescent_bit B base h;
     let (cbaser, h) = gits_read_cbaser B base h;
     let (cwriter, h) = gits_read_cwriter B base h;
     let (basers, h) = fold (\<lambda>i (bs, h). let (b, h) = gits_read_baser B base i h in (bs @ [b], h)) [0..<8] ([], h);
     Some (\<lparr> gits_cbaser = cbaser, gits_cwriter = cwriter, gits_baser = basers, gits_ctlr = ctlr \<rparr>, h)
   }"

definition gicv3_its_restore :: "'h bus \<Rightarrow> u64 \<Rightarrow> gicv3_its_ctx \<Rightarrow> 'h \<Rightarrow> 'h" where
  "gicv3_its_restore B base its_ctx h =
     (let h = gits_write_cbaser B base (gits_cbaser its_ctx) h;
          h = gits_write_cwriter B base (gits_cwriter its_ctx) h;
          h = fold (\<lambda>i. gits_write_baser B base i (gits_baser its_ctx ! i)) [0..<8] h
      in gits_write_ctlr B base (gits_ctlr its_ctx AND NOT GITS_CTLR_ENABLED_BIT) h)"

definition gicv3_rdistif_save :: "'h bus \<Rightarrow> nat \<Rightarrow> gicv3_redist_ctx \<Rightarrow> 'h gicv3 \<Rightarrow> (gicv3_redist_ctx \<times> 'h gicv3) option" where
  "gicv3_rdistif_save B proc_num ctx g = do {
     base \<leftarrow> rdist_base g proc_num;
     h \<leftarrow> gicr_wait_for_pending_write B base (hw g);
     let (ctlr, h) = gicr_read_ctlr B base h;
     let (propbaser, h) = gicr_read_propbaser B base h;
     let (pendbaser, h) = gicr_read_pendbaser B base h;
     let (igroupr0, h) = gicr_read_igroupr0 B base h;
     let (isenabler0, h) = gicr_read_isenabler0 B base h;
     let (ispendr0, h) = gicr_read_ispendr0 B base h;
     let (isactiver0, h) = gicr_read_isactiver0 B base h;
     let (icfgr0, h) = gicr_read_icfgr0 B base h;
     let (icfgr1, h) = gicr_read_icfgr1 B base h;
     let (igrpmodr0, h) = gicr_read_igrpmodr0 B base h;
     let (nsacr, h) = gicr_read_nsacr B base h;
     (ipriorityr, h) \<leftarrow> save_regs (gicr_read_ipriorityr B base) MIN_SGI_ID 2 (irq_range 0 32 4) (gicr_ipriorityr ctx) h;
     g \<leftarrow> gicv3_distif_pre_save B proc_num (g\<lparr>hw := h\<rparr>);
     Some (\<lparr> gicr_propbaser = ucast propbaser, gicr_pendbaser = ucast pendbaser, gicr_ctlr = ucast ctlr,
             gicr_igroupr0 = igroupr0, gicr_isenabler0 = isenabler0, gicr_ispendr0 = ispendr0,
             gicr_isactiver0 = isactiver0, gicr_ipriorityr = ipriorityr, gicr_icfgr0 = icfgr0, gicr_icfgr1 = icfgr1,
             gicr_igrpmodr0 = igrpmodr0, gicr_nsacr = nsacr \<rparr>, g)
   }"

definition gicv3_rdistif_init_restore :: "'h bus \<Rightarrow> nat \<Rightarrow> gicv3_redist_ctx \<Rightarrow> 'h gicv3 \<Rightarrow> 'h gicv3 option" where
  "gicv3_rdistif_init_restore B proc_num ctx g = do {
     base \<leftarrow> rdist_base g proc_num;
     g \<leftarrow> gicv3_distif_post_restore B proc_num (gicv3_rdistif_on proc_num g);
     let h = gicr_write_icenabler0 B base (NOT 0) (hw g);
     h \<leftarrow> gicr_wait_for_pending_write B base h;
     let h = gicr_write_ctlr B base (ucast (gicr_ctlr ctx AND NOT 1)) h;
     let h = gicr_write_propbaser B base (ucast (gicr_propbaser ctx)) h;
     let h = gicr_write_pendbaser B base (ucast (gicr_pendbaser ctx)) h;
     let h = gicr_write_igroupr0 B base (gicr_igroupr0 ctx) h;
     h \<leftarrow> restore_regs (gicr_write_ipriorityr B base) MIN_SGI_ID 2 (irq_range 0 32 4) (gicr_ipriorityr ctx) h;
     let h = gicr_write_icfgr0 B base (gicr_icfgr0 ctx) h;
     let h = gicr_write_icfgr1 B base (gicr_icfgr1 ctx) h;
     let h = gicr_write_igrpmodr0 B base (gicr_igrpmodr0 ctx) h;
     let h = gicr_write_nsacr B base (gicr_nsacr ctx) h;
     let h = gicr_write_ispendr0 B base (gicr_ispendr0 ctx) h;
     let h = gicr_write_isactiver0 B base (gicr_isactiver0 ctx) h;
     h \<leftarrow> gicr_wait_for_upstream_pending_write B base h;
     let h = gicr_write_isenabler0 B base (gicr_isenabler0 ctx) h;
     let h = gicr_write_ctlr B base (ucast (gicr_ctlr ctx)) h;
     h \<leftarrow> gicr_wait_for_pending_write B base h;
     Some (g\<lparr>hw := h\<rparr>)
   }"

definition gicv3_distif_save :: "'h bus \<Rightarrow> gicv3_dist_ctx \<Rightarrow> 'h gicv3 \<Rightarrow> (gicv3_dist_ctx \<times> 'h gicv3) option" where
  "gicv3_distif_save B ctx g = do {
     data \<leftarrow> gicv3_driver_data g;
     let base = gicd_base data;
     let (typer, h) = gicd_read_typer B base (hw g);
     let num_ints = num_ints_of typer;
     h \<leftarrow> gicd_wait_for_pending_write B base h;
     let (ctlr, h) = gicd_read_ctlr B base h;
     (igroupr, h) \<leftarrow> SAVE_GICD_REGS (gicd_read_igroupr B base) num_ints 5 (gicd_igroupr ctx) h;
     (isenabler, h) \<leftarrow> SAVE_GICD_REGS (gicd_read_isenabler B base) num_ints 5 (gicd_isenabler ctx) h;
     (ispendr, h) \<leftarrow> SAVE_GICD_REGS (gicd_read_ispendr B base) num_ints 5 (gicd_ispendr ctx) h;
     (isactiver, h) \<leftarrow> SAVE_GICD_REGS (gicd_read_isactiver B base) num_ints 5 (gicd_isactiver ctx) h;
     (ipriorityr, h) \<leftarrow> SAVE_GICD_REGS (gicd_read_ipriorityr B base) num_ints 2 (gicd_ipriorityr ctx) h;
     (icfgr, h) \<leftarrow> SAVE_GICD_REGS (gicd_read_icfgr B base) num_ints 4 (gicd_icfgr ctx) h;
     (igrpmodr, h) \<leftarrow> SAVE_GICD_REGS (gicd_read_igrpmodr B base) num_ints 5 (gicd_igrpmodr ctx) h;
     (nsacr, h) \<leftarrow> SAVE_GICD_REGS (gicd_read_nsacr B base) num_ints 4 (gicd_nsacr ctx) h;
     (irouter, h) \<leftarrow> SAVE_GICD_REGS (gicd_read_irouter B base) num_ints 0 (gicd_irouter ctx) h;
     Some (\<lparr> gicd_irouter = irouter, gicd_ctlr = ctlr, gicd_igroupr = igroupr, gicd_isenabler = isenabler,
             gicd_ispendr = ispendr, gicd_isactiver = isactiver, gicd_ipriorityr = ipriorityr, gicd_icfgr = icfgr,
             gicd_igrpmodr = igrpmodr, gicd_nsacr = nsacr \<rparr>, g\<lparr>hw := h\<rparr>)
   }"

definition gicv3_distif_init_restore :: "'h bus \<Rightarrow> gicv3_dist_ctx \<Rightarrow> 'h gicv3 \<Rightarrow> 'h gicv3 option" where
  "gicv3_distif_init_restore B ctx g = do {
     data \<leftarrow> gicv3_driver_data g;
     let base = gicd_base data;
     h \<leftarrow> gicd_clr_ctlr B base ((CTLR_ENABLE_G0_BIT OR CTLR_ENABLE_G1S_BIT) OR CTLR_ENABLE_G1NS_BIT) True (hw g);
     h \<leftarrow> gicd_set_ctlr B base (CTLR_ARE_S_BIT OR CTLR_ARE_NS_BIT) True h;
     let (typer, h) = gicd_read_typer B base h;
     let num_ints = num_ints_of typer;
     h \<leftarrow> RESTORE_GICD_REGS (gicd_write_igroupr B base) num_ints 5 (gicd_igroupr ctx) h;
     h \<leftarrow> RESTORE_GICD_REGS (gicd_write_ipriorityr B base) num_ints 2 (gicd_ipriorityr ctx) h;
     h \<leftarrow> RESTORE_GICD_REGS (gicd_write_icfgr B base) num_ints 4 (gicd_icfgr ctx) h;
     h \<leftarrow> RESTORE_GICD_REGS (gicd_write_igrpmodr B base) num_ints 5 (gicd_igrpmodr ctx) h;
     h \<leftarrow> RESTORE_GICD_REGS (gicd_write_nsacr B base) num_ints 4 (gicd_nsacr ctx) h;
     h \<leftarrow> RESTORE_GICD_REGS (gicd_write_irouter B base) num_ints 0 (gicd_irouter ctx) h;
     h \<leftarrow> RESTORE_GICD_REGS (gicd_write_isenabler B base) num_ints 5 (gicd_isenabler ctx) h;
     h \<leftarrow> RESTORE_GICD_REGS (gicd_write_ispendr B base) num_ints 5 (gicd_ispendr ctx) h;
     h \<leftarrow> RESTORE_GICD_REGS (gicd_write_isactiver B base) num_ints 5 (gicd_isactiver ctx) h;
     let h = gicd_write_ctlr B base (gicd_ctlr ctx) h;
     h \<leftarrow> gicd_wait_for_pending_write B base h;
     Some (g\<lparr>hw := h\<rparr>)
   }"

end
