(* ===== verification/Gic_Dist.thy ===== *)
theory Gic_Dist
  imports Gicv3
begin

text \<open>
  The Distributor as the driver sees it: the contract of its registers, and what saving, restoring and
  configuring them does. The hardware is a parameter; each locale states documented behaviour of the
  registers, by bank and register number rather than by address.
\<close>

subsection \<open>Contracts of the registers\<close>

datatype gicd_bank = Igroupr | Isenabler | Ispendr | Isactiver | Ipriorityr | Icfgr | Igrpmodr | Nsacr

fun bank_off :: "gicd_bank \<Rightarrow> u64" where
  "bank_off Igroupr = GICD_IGROUPR"
| "bank_off Isenabler = GICD_ISENABLER"
| "bank_off Ispendr = GICD_ISPENDR"
| "bank_off Isactiver = GICD_ISACTIVER"
| "bank_off Ipriorityr = GICD_IPRIORITYR"
| "bank_off Icfgr = GICD_ICFGR"
| "bank_off Igrpmodr = GICD_IGRPMODR"
| "bank_off Nsacr = GICD_NSACR"

fun bank_shift :: "gicd_bank \<Rightarrow> nat" where
  "bank_shift Ipriorityr = 2"
| "bank_shift Icfgr = 4"
| "bank_shift Nsacr = 4"
| "bank_shift _ = 5"

definition sets_bits :: "gicd_bank \<Rightarrow> bool" where
  "sets_bits b \<longleftrightarrow> b = Isenabler \<or> b = Ispendr \<or> b = Isactiver"

text \<open>Register \<open>n\<close> of a bank, and whether it holds SPIs of a Distributor with \<open>num\<close> interrupts.\<close>

definition gicd_reg :: "u64 \<Rightarrow> gicd_bank \<Rightarrow> nat \<Rightarrow> u64" where
  "gicd_reg base b n = base + bank_off b + of_nat (4 * n)"

definition spi_reg :: "nat \<Rightarrow> gicd_bank \<Rightarrow> nat \<Rightarrow> bool" where
  "spi_reg num b n \<longleftrightarrow> 32 \<le> n * 2 ^ bank_shift b \<and> n * 2 ^ bank_shift b < num"

text \<open>
  \<open>gicd_regs\<close>: \<open>V h b n\<close> is what register \<open>n\<close> of bank \<open>b\<close> holds, \<open>R h i\<close> the routing of interrupt \<open>i\<close>, \<open>C h\<close>
  the control register without its RWP bit, which reads as one until the pending writes, counted by \<open>pend\<close>, are done.
  A write to one register leaves the others alone.
\<close>

locale gicd_regs =
  fixes B :: "'h bus" and base :: u64 and typer :: u32
    and V :: "'h \<Rightarrow> gicd_bank \<Rightarrow> nat \<Rightarrow> u32" and R :: "'h \<Rightarrow> nat \<Rightarrow> u64" and C :: "'h \<Rightarrow> u32" and pend :: "'h \<Rightarrow> nat"
  assumes typer: "bus_read32 B (base + GICD_TYPER) h = (typer, h)"
    and read_bank: "spi_reg (num_ints_of typer) b n \<Longrightarrow> bus_read32 B (gicd_reg base b n) h = (V h b n, h)"
    and read_router: "32 \<le> i \<Longrightarrow> i < num_ints_of typer \<Longrightarrow> bus_read64 B (base + GICD_IROUTER + of_nat (8 * i)) h = (R h i, h)"
    and bank_frame: "spi_reg (num_ints_of typer) b n \<Longrightarrow> (b', n') \<noteq> (b, n) \<Longrightarrow> V (bus_write32 B (gicd_reg base b n) v h) b' n' = V h b' n'"
    and bank_router: "spi_reg (num_ints_of typer) b n \<Longrightarrow> R (bus_write32 B (gicd_reg base b n) v h) = R h"
    and bank_ctlr: "spi_reg (num_ints_of typer) b n \<Longrightarrow> C (bus_write32 B (gicd_reg base b n) v h) = C h"
    and router_frame: "32 \<le> i \<Longrightarrow> i < num_ints_of typer \<Longrightarrow> j \<noteq> i \<Longrightarrow> R (bus_write64 B (base + GICD_IROUTER + of_nat (8 * i)) v' h) j = R h j"
    and router_bank: "32 \<le> i \<Longrightarrow> i < num_ints_of typer \<Longrightarrow> V (bus_write64 B (base + GICD_IROUTER + of_nat (8 * i)) v' h) = V h"
    and router_ctlr: "32 \<le> i \<Longrightarrow> i < num_ints_of typer \<Longrightarrow> C (bus_write64 B (base + GICD_IROUTER + of_nat (8 * i)) v' h) = C h"
    and ctlr_bank: "V (bus_write32 B (base + GICD_CTLR) v h) = V h" "R (bus_write32 B (base + GICD_CTLR) v h) = R h"
    and read_ctlr: "bus_read32 B (base + GICD_CTLR) h = (r, h') \<Longrightarrow>
      r AND NOT GICD_CTLR_RWP_BIT = C h \<and> V h' = V h \<and> R h' = R h \<and> C h' = C h \<and>
      (if r AND GICD_CTLR_RWP_BIT = 0 then h' = h else pend h' < pend h)"

text \<open>
  \<open>gicd_writeback\<close>: a value that a register was read as can be written back to it; in a bank that sets bits, to
  a register that is clear.
\<close>

locale gicd_writeback = gicd_regs +
  assumes writeback: "spi_reg (num_ints_of typer) b n \<Longrightarrow> (sets_bits b \<Longrightarrow> V h b n = 0) \<Longrightarrow>
      V (bus_write32 B (gicd_reg base b n) (V h0 b n) h) b n = V h0 b n"
    and router_writeback: "32 \<le> i \<Longrightarrow> i < num_ints_of typer \<Longrightarrow> R (bus_write64 B (base + GICD_IROUTER + of_nat (8 * i)) (R h0 i) h) i = R h0 i"
    and ctlr_writeback: "C (bus_write32 B (base + GICD_CTLR) (C h0) h) = C h0"

subsection \<open>Loops over a bank\<close>

lemma num_ints_le: "num_ints_of t \<le> 1024" "32 dvd num_ints_of t" "32 \<le> num_ints_of t"
proof -
  have a: "unat (t AND 0x1f) < 32" using unat_and_mask [of t 5] by (simp add: mask_eq_exp_minus_1)
  then have "unat ((t AND 0x1f) + 1) = unat (t AND 0x1f) + 1" by (subst unat_add_less) simp_all
  then have "num_ints_of t = 32 * (unat (t AND 0x1f) + 1)"
    using a by (simp add: num_ints_of_def push_bit_eq_mult unat_word_ariths)
  then show "num_ints_of t \<le> 1024" "32 dvd num_ints_of t" "32 \<le> num_ints_of t" using a by simp_all
qed

lemma irq_index:
  assumes "lo + 2 ^ shift * k < 2 ^ 32"
  shows "unat (drop_bit shift (of_nat (lo + 2 ^ shift * k) - of_nat lo :: u32)) = k"
proof -
  have "(of_nat (lo + 2 ^ shift * k) - of_nat lo :: u32) = of_nat (2 ^ shift * k)" by simp
  moreover have "unat (of_nat (2 ^ shift * k) :: u32) = 2 ^ shift * k" using assms by (simp add: unat_of_nat del: of_nat_mult)
  ultimately show ?thesis by (simp add: unat_drop_bit_div)
qed

lemma save_regs_range:
  assumes "lo + 2 ^ shift * n < 2 ^ 32" "\<And>k. k0 \<le> k \<Longrightarrow> k < n \<Longrightarrow> rd (of_nat (lo + 2 ^ shift * k)) h = (f k, h)"
  shows "k0 \<le> n \<Longrightarrow> n \<le> length arr \<Longrightarrow> save_regs rd (of_nat lo) shift (map (\<lambda>k. of_nat (lo + 2 ^ shift * k)) [k0..<n]) arr h =
    Some (take k0 arr @ map f [k0..<n] @ drop n arr, h)"
  using assms
proof (induction "n - k0" arbitrary: k0 arr)
  case (Suc d)
  then have k: "k0 < n" by simp
  have "2 ^ shift * k0 \<le> 2 ^ shift * n" using k by simp
  then have i: "lo + 2 ^ shift * k0 < 2 ^ 32" using Suc.prems(3) by linarith
  have "save_regs rd (of_nat lo) shift (map (\<lambda>k. of_nat (lo + 2 ^ shift * k)) [Suc k0..<n]) (arr[k0 := f k0]) h =
      Some (take (Suc k0) (arr[k0 := f k0]) @ map f [Suc k0..<n] @ drop n (arr[k0 := f k0]), h)"
    using Suc k by (intro Suc.hyps(1)) auto
  then show ?case
    using k Suc.prems(2,4) irq_index [OF i]
    by (simp add: upt_conv_Cons take_Suc_conv_app_nth drop_update_swap del: of_nat_add of_nat_mult)
qed simp

lemma save_regs_overrun:
  assumes "lo + 2 ^ shift * n < 2 ^ 32" "\<And>k. k0 \<le> k \<Longrightarrow> k < n \<Longrightarrow> rd (of_nat (lo + 2 ^ shift * k)) h = (f k, h)"
  shows "k0 \<le> length arr \<Longrightarrow> length arr < n \<Longrightarrow>
    save_regs rd (of_nat lo) shift (map (\<lambda>k. of_nat (lo + 2 ^ shift * k)) [k0..<n]) arr h = None"
  using assms
proof (induction "n - k0" arbitrary: k0 arr)
  case (Suc d)
  then have k: "k0 < n" by simp
  have "2 ^ shift * k0 \<le> 2 ^ shift * n" using k by simp
  then have i: "lo + 2 ^ shift * k0 < 2 ^ 32" using Suc.prems(3) by linarith
  have "k0 < length arr \<Longrightarrow>
      save_regs rd (of_nat lo) shift (map (\<lambda>k. of_nat (lo + 2 ^ shift * k)) [Suc k0..<n]) (arr[k0 := f k0]) h = None"
    using Suc k by (intro Suc.hyps(1)) auto
  then show ?case
    using k Suc.prems(4) irq_index [OF i] by (simp add: upt_conv_Cons del: of_nat_add of_nat_mult)
qed simp

text \<open>The registers of a bank that hold SPIs: the first of them, and how many.\<close>

definition first_reg :: "gicd_bank \<Rightarrow> nat" where
  "first_reg b = 32 div 2 ^ bank_shift b"

definition spi_regs :: "nat \<Rightarrow> gicd_bank \<Rightarrow> nat" where
  "spi_regs num b = (num - 32) div 2 ^ bank_shift b"

lemma bank_shift_cases: "bank_shift b = 2 \<or> bank_shift b = 4 \<or> bank_shift b = 5"
  by (cases b) simp_all

lemma spi_range:
  assumes "32 dvd num" "32 \<le> num"
  shows "irq_range 32 num (2 ^ bank_shift b) = map (\<lambda>k. of_nat (32 + 2 ^ bank_shift b * k)) [0..<spi_regs num b]"
proof -
  obtain q where "num = 32 * q" "1 \<le> q" using assms by (auto elim!: dvdE)
  then obtain p where "num - 32 = 32 * p" by (cases q) auto
  then have "(num - 32 + 2 ^ bank_shift b - 1) div 2 ^ bank_shift b = (num - 32) div 2 ^ bank_shift b"
    using bank_shift_cases [of b] by auto
  then show ?thesis by (simp add: irq_range_def spi_regs_def)
qed

lemma spi_reg_iff:
  assumes "32 dvd num" "32 \<le> num"
  shows "spi_reg num b m \<longleftrightarrow> first_reg b \<le> m \<and> m < first_reg b + spi_regs num b"
proof -
  obtain q where "num = 32 * q" "1 \<le> q" using assms by (auto elim!: dvdE)
  then obtain p where p: "num = 32 + 32 * p" by (cases q) auto
  then show ?thesis
    using bank_shift_cases [of b] by (auto simp: spi_reg_def first_reg_def spi_regs_def)
qed

lemma bank_reg_spi:
  assumes "2 ^ bank_shift b * k < 1024"
  shows "bank_reg base (bank_off b) (bank_shift b) (of_nat (32 + 2 ^ bank_shift b * k)) = gicd_reg base b (first_reg b + k)"
proof -
  let ?i = "32 + 2 ^ bank_shift b * k"
  have "unat (of_nat ?i :: u32) = ?i" using assms by (simp add: unat_of_nat del: of_nat_add of_nat_mult)
  then have "unat (drop_bit (bank_shift b) (of_nat ?i :: u32)) = first_reg b + k"
    using bank_shift_cases [of b] by (auto simp: unat_drop_bit_div first_reg_def simp del: of_nat_add of_nat_mult)
  moreover have "first_reg b + k < 1056" using assms bank_shift_cases [of b] by (auto simp: first_reg_def)
  ultimately have "unat (ucast (push_bit 2 (drop_bit (bank_shift b) (of_nat ?i :: u32))) :: u64) = 4 * (first_reg b + k)"
    by (simp add: unat_ucast_up push_bit_eq_mult unat_word_ariths del: of_nat_add of_nat_mult)
  then have "ucast (push_bit 2 (drop_bit (bank_shift b) (of_nat ?i :: u32))) = (of_nat (4 * (first_reg b + k)) :: u64)"
    by (metis of_nat_unat ucast_id)
  then show ?thesis by (simp only: bank_reg_def gicd_reg_def)
qed

lemma and_not_id: "x AND m = 0 \<Longrightarrow> x AND NOT m = (x :: 'a :: len word)"
  by (auto simp: bit_eq_iff bit_simps)

lemmas gicd_reads = gicd_read_igroupr_def [abs_def] gicd_read_isenabler_def [abs_def] gicd_read_ispendr_def [abs_def]
  gicd_read_isactiver_def [abs_def] gicd_read_ipriorityr_def [abs_def] gicd_read_icfgr_def [abs_def]
  gicd_read_igrpmodr_def [abs_def] gicd_read_nsacr_def [abs_def]

lemmas gicd_writes = gicd_write_igroupr_def [abs_def] gicd_write_isenabler_def [abs_def] gicd_write_ispendr_def [abs_def]
  gicd_write_isactiver_def [abs_def] gicd_write_ipriorityr_def [abs_def] gicd_write_icfgr_def [abs_def]
  gicd_write_igrpmodr_def [abs_def] gicd_write_nsacr_def [abs_def]

lemma spi_regs_bound: "num \<le> 1024 \<Longrightarrow> k < spi_regs num b \<Longrightarrow> 2 ^ bank_shift b * k < 1024"
  using bank_shift_cases [of b] by (auto simp: spi_regs_def)

lemma router_addr: "i < 1024 \<Longrightarrow> (ucast (push_bit 3 (of_nat i :: u32)) :: u64) = of_nat (8 * i)"
proof -
  assume i: "i < 1024"
  then have "unat (of_nat i :: u32) = i" by (simp add: unat_of_nat)
  then have "unat (ucast (push_bit 3 (of_nat i :: u32)) :: u64) = 8 * i"
    using i by (simp add: unat_ucast_up push_bit_eq_mult unat_word_ariths)
  then show ?thesis by (metis of_nat_unat ucast_id)
qed

context gicd_regs
begin

abbreviation num :: nat where "num \<equiv> num_ints_of typer"

lemmas num_facts = num_ints_le [of typer]

lemma wait_ctlr:
  "\<exists>h'. gicd_wait_for_pending_write B base h = Some h' \<and> V h' = V h \<and> R h' = R h \<and> C h' = C h \<and>
     bus_read32 B (base + GICD_CTLR) h' = (C h, h')"
proof (induction "pend h" arbitrary: h rule: less_induct)
  case less
  obtain r h1 where rd: "bus_read32 B (base + GICD_CTLR) h = (r, h1)" by fastforce
  note c = read_ctlr [OF rd]
  show ?case
  proof (cases "r AND GICD_CTLR_RWP_BIT = 0")
    case True
    then have "h1 = h" "r = C h" using c and_not_id [OF True] by auto
    then show ?thesis using rd True
      by (simp add: gicd_wait_for_pending_write_def wait_read32.simps mmio_read_32_def)
  next
    case False
    then have "pend h1 < pend h" using c by simp
    moreover have "gicd_wait_for_pending_write B base h = gicd_wait_for_pending_write B base h1"
      unfolding gicd_wait_for_pending_write_def using rd False
      by (subst wait_read32.simps) (simp add: mmio_read_32_def)
    ultimately show ?thesis using less c by metis
  qed
qed

lemma save_bank:
  assumes "spi_regs num b \<le> length arr"
  shows "SAVE_GICD_REGS (\<lambda>i. mmio_read_32 B (bank_reg base (bank_off b) (bank_shift b) i)) num (bank_shift b) arr h =
    Some (map (\<lambda>k. V h b (first_reg b + k)) [0..<spi_regs num b] @ drop (spi_regs num b) arr, h)"
proof -
  have "mmio_read_32 B (bank_reg base (bank_off b) (bank_shift b) (of_nat (32 + 2 ^ bank_shift b * k))) h =
      (V h b (first_reg b + k), h)" if "k < spi_regs num b" for k
    unfolding bank_reg_spi [OF spi_regs_bound [OF num_facts(1) that]] mmio_read_32_def
    using that by (intro read_bank) (simp add: spi_reg_iff [OF num_facts(2,3)])
  moreover have "32 + 2 ^ bank_shift b * spi_regs num b < 2 ^ 32"
    using num_facts bank_shift_cases [of b] by (auto simp: spi_regs_def)
  ultimately show ?thesis
    using save_regs_range [of 32 "bank_shift b" "spi_regs num b" 0
        "\<lambda>i. mmio_read_32 B (bank_reg base (bank_off b) (bank_shift b) i)" h "\<lambda>k. V h b (first_reg b + k)" arr] assms
    by (simp add: SAVE_GICD_REGS_def spi_range [OF num_facts(2,3)] del: of_nat_add of_nat_mult)
qed

lemma read_routers: "i < num - 32 \<Longrightarrow> gicd_read_irouter B base (of_nat (32 + i)) h = (R h (32 + i), h)"
  using num_facts read_router [of "32 + i" h]
  by (simp add: gicd_read_irouter_def mmio_read_64_def router_addr del: of_nat_add of_nat_mult)

lemma save_routers:
  assumes "num - 32 \<le> length arr"
  shows "SAVE_GICD_REGS (gicd_read_irouter B base) num 0 arr h =
    Some (map (\<lambda>k. R h (32 + k)) [0..<num - 32] @ drop (num - 32) arr, h)"
  using save_regs_range [of 32 0 "num - 32" 0 "gicd_read_irouter B base" h "\<lambda>k. R h (32 + k)" arr] read_routers num_facts assms
  by (simp add: SAVE_GICD_REGS_def irq_range_def del: of_nat_add of_nat_mult)

lemma save_routers_overrun:
  assumes "length arr < num - 32"
  shows "SAVE_GICD_REGS (gicd_read_irouter B base) num 0 arr h = None"
  using save_regs_overrun [of 32 0 "num - 32" 0 "gicd_read_irouter B base" h "\<lambda>k. R h (32 + k)" arr] read_routers num_facts assms
  by (simp add: SAVE_GICD_REGS_def irq_range_def del: of_nat_add of_nat_mult)

end

subsection \<open>Saving\<close>

fun ctx_bank :: "gicv3_dist_ctx \<Rightarrow> gicd_bank \<Rightarrow> u32 list" where
  "ctx_bank c Igroupr = gicd_igroupr c"
| "ctx_bank c Isenabler = gicd_isenabler c"
| "ctx_bank c Ispendr = gicd_ispendr c"
| "ctx_bank c Isactiver = gicd_isactiver c"
| "ctx_bank c Ipriorityr = gicd_ipriorityr c"
| "ctx_bank c Icfgr = gicd_icfgr c"
| "ctx_bank c Igrpmodr = gicd_igrpmodr c"
| "ctx_bank c Nsacr = gicd_nsacr c"

text \<open>A context that holds the registers \<open>V\<close>, the routing \<open>R\<close> and the control register \<open>C\<close> of \<open>num\<close> interrupts.\<close>

definition saved :: "nat \<Rightarrow> (gicd_bank \<Rightarrow> nat \<Rightarrow> u32) \<Rightarrow> (nat \<Rightarrow> u64) \<Rightarrow> u32 \<Rightarrow> gicv3_dist_ctx \<Rightarrow> bool" where
  "saved num V R C c \<longleftrightarrow>
     (\<forall>b. spi_regs num b \<le> length (ctx_bank c b) \<and> (\<forall>k < spi_regs num b. ctx_bank c b ! k = V b (first_reg b + k))) \<and>
     num - 32 \<le> length (gicd_irouter c) \<and> (\<forall>k < num - 32. gicd_irouter c ! k = R (32 + k)) \<and> gicd_ctlr c = C"

lemma sized_banks:
  assumes "dist_ctx_sized c" "num \<le> 992"
  shows "spi_regs num b \<le> length (ctx_bank c b)" "num - 32 \<le> length (gicd_irouter c)"
  using assms by (cases b; auto simp: dist_ctx_sized_def spi_regs_def GICD_NUM_REGS_def)+

context gicd_regs
begin

lemmas save_banks = save_bank [of Igroupr, simplified] save_bank [of Isenabler, simplified] save_bank [of Ispendr, simplified]
  save_bank [of Isactiver, simplified] save_bank [of Ipriorityr, simplified] save_bank [of Icfgr, simplified]
  save_bank [of Igrpmodr, simplified] save_bank [of Nsacr, simplified]

lemma distif_save_saved:
  assumes data: "gicv3_driver_data g = Some d" "gicd_base d = base" and c: "dist_ctx_sized c" "num \<le> 992"
  obtains c' h' where "gicv3_distif_save B c g = Some (c', g\<lparr>hw := h'\<rparr>)"
    "saved num (V (hw g)) (R (hw g)) (C (hw g)) c'" "V h' = V (hw g)" "R h' = R (hw g)" "C h' = C (hw g)"
proof -
  obtain h1 where w: "gicd_wait_for_pending_write B base (hw g) = Some h1" "V h1 = V (hw g)" "R h1 = R (hw g)"
    "C h1 = C (hw g)" "bus_read32 B (base + GICD_CTLR) h1 = (C (hw g), h1)"
    using wait_ctlr [of "hw g"] by auto
  note len = sized_banks [OF c]
  note lens = len(1) [of Igroupr] len(1) [of Isenabler] len(1) [of Ispendr] len(1) [of Isactiver] len(1) [of Ipriorityr]
    len(1) [of Icfgr] len(1) [of Igrpmodr] len(1) [of Nsacr] len(2)
  have t: "gicd_read_typer B base (hw g) = (typer, hw g)" by (simp add: gicd_read_typer_def mmio_read_32_def typer)
  have ct: "gicd_read_ctlr B base h1 = (C (hw g), h1)" using w(5) by (simp add: gicd_read_ctlr_def mmio_read_32_def)
  let ?bank = "\<lambda>b. map (\<lambda>k. V h1 b (first_reg b + k)) [0..<spi_regs num b] @ drop (spi_regs num b) (ctx_bank c b)"
  let ?c = "\<lparr> gicd_irouter = map (\<lambda>k. R h1 (32 + k)) [0..<num - 32] @ drop (num - 32) (gicd_irouter c), gicd_ctlr = C (hw g),
    gicd_igroupr = ?bank Igroupr, gicd_isenabler = ?bank Isenabler, gicd_ispendr = ?bank Ispendr,
    gicd_isactiver = ?bank Isactiver, gicd_ipriorityr = ?bank Ipriorityr, gicd_icfgr = ?bank Icfgr,
    gicd_igrpmodr = ?bank Igrpmodr, gicd_nsacr = ?bank Nsacr \<rparr>"
  have "gicv3_distif_save B c g = Some (?c, g\<lparr>hw := h1\<rparr>)"
    using data lens by (simp add: gicv3_distif_save_def t w(1) ct gicd_reads save_banks save_routers Let_def)
  moreover have "ctx_bank ?c b = ?bank b" for b by (cases b) simp_all
  then have "saved num (V (hw g)) (R (hw g)) (C (hw g)) ?c"
    using len w(2,3) by (auto simp: saved_def nth_append)
  ultimately show thesis using that w(2-4) by blast
qed

end

subsection \<open>Restoring\<close>

context gicd_writeback
begin

lemma restore_from:
  assumes n: "n = spi_regs num b" "n \<le> length arr" and arr: "\<And>k. k < n \<Longrightarrow> arr ! k = V h0 b (first_reg b + k)"
  shows "k0 \<le> n \<Longrightarrow> (sets_bits b \<Longrightarrow> \<forall>k < n. V h b (first_reg b + k) = 0 \<or> k < k0) \<Longrightarrow>
    \<exists>h'. restore_regs (\<lambda>i. mmio_write_32 B (bank_reg base (bank_off b) (bank_shift b) i)) (of_nat 32) (bank_shift b)
        (map (\<lambda>k. of_nat (32 + 2 ^ bank_shift b * k)) [k0..<n]) arr h = Some h' \<and>
      (\<forall>b' m. V h' b' m = (if b' = b \<and> first_reg b + k0 \<le> m \<and> m < first_reg b + n then V h0 b m else V h b' m)) \<and>
      R h' = R h \<and> C h' = C h"
proof (induction "n - k0" arbitrary: k0 h)
  case (Suc d)
  then have k: "k0 < n" by simp
  then have bnd: "2 ^ bank_shift b * k0 < 1024" using spi_regs_bound [OF num_facts(1)] n(1) by simp
  have reg: "spi_reg num b (first_reg b + k0)" using k n(1) by (simp add: spi_reg_iff [OF num_facts(2,3)])
  let ?h = "bus_write32 B (gicd_reg base b (first_reg b + k0)) (arr ! k0) h"
  have here: "V ?h b (first_reg b + k0) = V h0 b (first_reg b + k0)"
    using Suc.prems(2) k unfolding arr [OF k] by (intro writeback reg) auto
  have there: "V ?h b' m = V h b' m" if "(b', m) \<noteq> (b, first_reg b + k0)" for b' m
    using bank_frame [OF reg that] .
  obtain h' where h': "restore_regs (\<lambda>i. mmio_write_32 B (bank_reg base (bank_off b) (bank_shift b) i)) (of_nat 32) (bank_shift b)
        (map (\<lambda>k. of_nat (32 + 2 ^ bank_shift b * k)) [Suc k0..<n]) arr ?h = Some h'"
      "\<forall>b' m. V h' b' m = (if b' = b \<and> first_reg b + Suc k0 \<le> m \<and> m < first_reg b + n then V h0 b m else V ?h b' m)"
      "R h' = R ?h" "C h' = C ?h"
    using Suc.hyps(1) [of "Suc k0" ?h] Suc.hyps(2) Suc.prems k there by (fastforce simp: less_Suc_eq)
  have "unat (drop_bit (bank_shift b) (of_nat (32 + 2 ^ bank_shift b * k0) - of_nat 32 :: u32)) = k0"
    using bnd by (intro irq_index) simp
  then have "restore_regs (\<lambda>i. mmio_write_32 B (bank_reg base (bank_off b) (bank_shift b) i)) (of_nat 32) (bank_shift b)
        (map (\<lambda>k. of_nat (32 + 2 ^ bank_shift b * k)) [k0..<n]) arr h = Some h'"
    using h'(1) k n(2) by (simp add: upt_conv_Cons bank_reg_spi [OF bnd] mmio_write_32_def del: of_nat_add of_nat_mult)
  moreover have "V h' b' m = (if b' = b \<and> first_reg b + k0 \<le> m \<and> m < first_reg b + n then V h0 b m else V h b' m)" for b' m
    using h'(2) here there [of b' m] k by (cases "m = first_reg b + k0") auto
  ultimately show ?case using h'(3,4) bank_router [OF reg] bank_ctlr [OF reg] by auto
qed auto

lemma restore_bank:
  assumes "spi_regs num b \<le> length arr" "\<forall>k < spi_regs num b. arr ! k = V h0 b (first_reg b + k)"
    and "sets_bits b \<Longrightarrow> \<forall>m. spi_reg num b m \<longrightarrow> V h b m = 0"
  shows "\<exists>h'. RESTORE_GICD_REGS (\<lambda>i. mmio_write_32 B (bank_reg base (bank_off b) (bank_shift b) i)) num (bank_shift b) arr h = Some h' \<and>
    (\<forall>b' m. V h' b' m = (if b' = b \<and> spi_reg num b m then V h0 b m else V h b' m)) \<and> R h' = R h \<and> C h' = C h"
  using restore_from [OF refl assms(1), of h0 0 h] assms(2,3)
  by (auto simp: RESTORE_GICD_REGS_def spi_range [OF num_facts(2,3)] spi_reg_iff [OF num_facts(2,3)] simp del: of_nat_add of_nat_mult)

lemma restore_routers_from:
  assumes n: "n = num - 32" "n \<le> length arr" and arr: "\<And>k. k < n \<Longrightarrow> arr ! k = R h0 (32 + k)"
  shows "k0 \<le> n \<Longrightarrow>
    \<exists>h'. restore_regs (gicd_write_irouter B base) (of_nat 32) 0 (map (\<lambda>k. of_nat (32 + 2 ^ 0 * k)) [k0..<n]) arr h = Some h' \<and>
      (\<forall>i. R h' i = (if 32 + k0 \<le> i \<and> i < 32 + n then R h0 i else R h i)) \<and> V h' = V h \<and> C h' = C h"
proof (induction "n - k0" arbitrary: k0 h)
  case (Suc d)
  then have k: "k0 < n" by simp
  then have bnd: "32 + k0 < num" "32 + k0 < 1024" using n(1) num_facts by simp_all
  let ?h = "bus_write64 B (base + GICD_IROUTER + of_nat (8 * (32 + k0))) (arr ! k0) h"
  have here: "R ?h (32 + k0) = R h0 (32 + k0)" unfolding arr [OF k] using bnd by (intro router_writeback) simp_all
  have there: "R ?h i = R h i" if "i \<noteq> 32 + k0" for i using router_frame [OF _ bnd(1) that] by simp
  obtain h' where h': "restore_regs (gicd_write_irouter B base) (of_nat 32) 0 (map (\<lambda>k. of_nat (32 + 2 ^ 0 * k)) [Suc k0..<n]) arr ?h = Some h'"
      "\<forall>i. R h' i = (if 32 + Suc k0 \<le> i \<and> i < 32 + n then R h0 i else R ?h i)" "V h' = V ?h" "C h' = C ?h"
    using Suc.hyps(1) [of "Suc k0" ?h] Suc.hyps(2) k by fastforce
  have "unat (drop_bit 0 (of_nat (32 + 2 ^ 0 * k0) - of_nat 32 :: u32)) = k0"
    using bnd by (intro irq_index) simp
  then have "restore_regs (gicd_write_irouter B base) (of_nat 32) 0 (map (\<lambda>k. of_nat (32 + 2 ^ 0 * k)) [k0..<n]) arr h = Some h'"
    using h'(1) k n(2) router_addr [OF bnd(2)]
    by (simp add: upt_conv_Cons gicd_write_irouter_def mmio_write_64_def del: of_nat_add of_nat_mult)
  moreover have "R h' i = (if 32 + k0 \<le> i \<and> i < 32 + n then R h0 i else R h i)" for i
    using h'(2) here there [of i] k by (cases "i = 32 + k0") auto
  ultimately show ?case using h'(3,4) router_bank [OF _ bnd(1)] router_ctlr [OF _ bnd(1)] by auto
qed auto

lemma restore_routers:
  assumes "num - 32 \<le> length arr" "\<forall>k < num - 32. arr ! k = R h0 (32 + k)"
  shows "\<exists>h'. RESTORE_GICD_REGS (gicd_write_irouter B base) num 0 arr h = Some h' \<and>
    (\<forall>i. R h' i = (if 32 \<le> i \<and> i < num then R h0 i else R h i)) \<and> V h' = V h \<and> C h' = C h"
  using restore_routers_from [OF refl assms(1), of h0 0 h] assms(2) num_facts(3)
  by (auto simp: RESTORE_GICD_REGS_def irq_range_def simp del: of_nat_add of_nat_mult)

end

context gicd_regs
begin

lemma ctlr_update:
  "\<exists>h'. gicd_clr_ctlr B base m True h = Some h' \<and> V h' = V h \<and> R h' = R h"
  "\<exists>h'. gicd_set_ctlr B base m True h = Some h' \<and> V h' = V h \<and> R h' = R h"
proof -
  obtain r h1 where rd: "bus_read32 B (base + GICD_CTLR) h = (r, h1)" by fastforce
  have w: "\<exists>h'. gicd_wait_for_pending_write B base (bus_write32 B (base + GICD_CTLR) v h1) = Some h' \<and> V h' = V h \<and> R h' = R h" for v
    using wait_ctlr [of "bus_write32 B (base + GICD_CTLR) v h1"] read_ctlr [OF rd] ctlr_bank by auto
  show "\<exists>h'. gicd_clr_ctlr B base m True h = Some h' \<and> V h' = V h \<and> R h' = R h"
    "\<exists>h'. gicd_set_ctlr B base m True h = Some h' \<and> V h' = V h \<and> R h' = R h"
    using w [of "r AND NOT m"] w [of "r OR m"] rd
    by (simp_all add: gicd_clr_ctlr_def gicd_set_ctlr_def gicd_read_ctlr_def gicd_write_ctlr_def mmio_read_32_def mmio_write_32_def)
qed

end

context gicd_writeback
begin

text \<open>One bank after another: \<open>restored c bs h h'\<close> says that \<open>h'\<close> has the saved values in the banks \<open>bs\<close> and those of \<open>h\<close> elsewhere.\<close>

definition restored where
  "restored h0 bs h h' \<longleftrightarrow> (\<forall>b m. V h' b m = (if b \<in> set bs \<and> spi_reg num b m then V h0 b m else V h b m))"

lemma restore_next:
  assumes c: "saved num (V h0) (R h0) (C h0) c" and r: "restored h0 bs h h1" and b: "b \<notin> set bs"
    and z: "\<forall>b m. sets_bits b \<and> spi_reg num b m \<longrightarrow> V h b m = 0"
  shows "\<exists>h2. RESTORE_GICD_REGS (\<lambda>i. mmio_write_32 B (bank_reg base (bank_off b) (bank_shift b) i)) num (bank_shift b) (ctx_bank c b) h1 = Some h2 \<and>
    restored h0 (b # bs) h h2 \<and> R h2 = R h1"
proof -
  have "\<forall>m. spi_reg num b m \<longrightarrow> V h1 b m = 0" if "sets_bits b" using z r b that by (simp add: restored_def)
  then show ?thesis
    using restore_bank [of b "ctx_bank c b" h0 h1] c r by (auto simp: saved_def restored_def)
qed

lemmas restore_nexts =
  restore_next [of _ _ _ _ _ Igroupr, simplified] restore_next [of _ _ _ _ _ Isenabler, simplified]
  restore_next [of _ _ _ _ _ Ispendr, simplified] restore_next [of _ _ _ _ _ Isactiver, simplified]
  restore_next [of _ _ _ _ _ Ipriorityr, simplified] restore_next [of _ _ _ _ _ Icfgr, simplified]
  restore_next [of _ _ _ _ _ Igrpmodr, simplified] restore_next [of _ _ _ _ _ Nsacr, simplified]

lemma restore_config:
  assumes c: "saved num (V h0) (R h0) (C h0) c" and z: "\<forall>b m. sets_bits b \<and> spi_reg num b m \<longrightarrow> V h b m = 0"
    and r0: "restored h0 [] h h1"
  shows "\<exists>a1 a2 a3 a4 a5. RESTORE_GICD_REGS (gicd_write_igroupr B base) num 5 (gicd_igroupr c) h1 = Some a1 \<and>
    RESTORE_GICD_REGS (gicd_write_ipriorityr B base) num 2 (gicd_ipriorityr c) a1 = Some a2 \<and>
    RESTORE_GICD_REGS (gicd_write_icfgr B base) num 4 (gicd_icfgr c) a2 = Some a3 \<and>
    RESTORE_GICD_REGS (gicd_write_igrpmodr B base) num 5 (gicd_igrpmodr c) a3 = Some a4 \<and>
    RESTORE_GICD_REGS (gicd_write_nsacr B base) num 4 (gicd_nsacr c) a4 = Some a5 \<and>
    restored h0 [Nsacr, Igrpmodr, Icfgr, Ipriorityr, Igroupr] h a5"
proof -
  note next_bank = restore_nexts [OF c _ _ z]
  obtain a1 where a1: "RESTORE_GICD_REGS (gicd_write_igroupr B base) num 5 (gicd_igroupr c) h1 = Some a1" "restored h0 [Igroupr] h a1"
    using next_bank(1) [OF r0] by (auto simp: gicd_writes)
  obtain a2 where a2: "RESTORE_GICD_REGS (gicd_write_ipriorityr B base) num 2 (gicd_ipriorityr c) a1 = Some a2" "restored h0 [Ipriorityr, Igroupr] h a2"
    using next_bank(5) [OF a1(2)] by (auto simp: gicd_writes)
  obtain a3 where a3: "RESTORE_GICD_REGS (gicd_write_icfgr B base) num 4 (gicd_icfgr c) a2 = Some a3" "restored h0 [Icfgr, Ipriorityr, Igroupr] h a3"
    using next_bank(6) [OF a2(2)] by (auto simp: gicd_writes)
  obtain a4 where a4: "RESTORE_GICD_REGS (gicd_write_igrpmodr B base) num 5 (gicd_igrpmodr c) a3 = Some a4" "restored h0 [Igrpmodr, Icfgr, Ipriorityr, Igroupr] h a4"
    using next_bank(7) [OF a3(2)] by (auto simp: gicd_writes)
  from next_bank(8) [OF a4(2)] show ?thesis using a1 a2 a3 a4 by (auto simp: gicd_writes)
qed

lemma restore_state:
  assumes c: "saved num (V h0) (R h0) (C h0) c" and z: "\<forall>b m. sets_bits b \<and> spi_reg num b m \<longrightarrow> V h b m = 0"
    and r6: "restored h0 [Nsacr, Igrpmodr, Icfgr, Ipriorityr, Igroupr] h a6"
  shows "\<exists>a7 a8 a9. RESTORE_GICD_REGS (gicd_write_isenabler B base) num 5 (gicd_isenabler c) a6 = Some a7 \<and>
    RESTORE_GICD_REGS (gicd_write_ispendr B base) num 5 (gicd_ispendr c) a7 = Some a8 \<and>
    RESTORE_GICD_REGS (gicd_write_isactiver B base) num 5 (gicd_isactiver c) a8 = Some a9 \<and>
    (\<forall>b m. spi_reg num b m \<longrightarrow> V a9 b m = V h0 b m) \<and> R a9 = R a6"
proof -
  note next_bank = restore_nexts [OF c _ _ z]
  obtain a7 where a7: "RESTORE_GICD_REGS (gicd_write_isenabler B base) num 5 (gicd_isenabler c) a6 = Some a7"
    "restored h0 [Isenabler, Nsacr, Igrpmodr, Icfgr, Ipriorityr, Igroupr] h a7" "R a7 = R a6"
    using next_bank(2) [OF r6] by (auto simp: gicd_writes)
  obtain a8 where a8: "RESTORE_GICD_REGS (gicd_write_ispendr B base) num 5 (gicd_ispendr c) a7 = Some a8"
    "restored h0 [Ispendr, Isenabler, Nsacr, Igrpmodr, Icfgr, Ipriorityr, Igroupr] h a8" "R a8 = R a7"
    using next_bank(3) [OF a7(2)] by (auto simp: gicd_writes)
  obtain a9 where a9: "RESTORE_GICD_REGS (gicd_write_isactiver B base) num 5 (gicd_isactiver c) a8 = Some a9"
    "restored h0 [Isactiver, Ispendr, Isenabler, Nsacr, Igrpmodr, Icfgr, Ipriorityr, Igroupr] h a9" "R a9 = R a8"
    using next_bank(4) [OF a8(2)] by (auto simp: gicd_writes)
  have "V a9 b m = V h0 b m" if "spi_reg num b m" for b m
    using a9(2) that by (cases b) (simp_all add: restored_def)
  then show ?thesis using a7 a8 a9 by auto
qed

lemma distif_restore_saved:
  assumes data: "gicv3_driver_data g = Some d" "gicd_base d = base" and c: "saved num (V h0) (R h0) (C h0) c"
    and z: "\<forall>b m. sets_bits b \<and> spi_reg num b m \<longrightarrow> V (hw g) b m = 0"
  shows "\<exists>h'. gicv3_distif_init_restore B c g = Some (g\<lparr>hw := h'\<rparr>) \<and> (\<forall>b m. spi_reg num b m \<longrightarrow> V h' b m = V h0 b m) \<and>
    (\<forall>i. 32 \<le> i \<and> i < num \<longrightarrow> R h' i = R h0 i) \<and> C h' = C h0"
proof -
  obtain h1 where h1: "gicd_clr_ctlr B base 7 True (hw g) = Some h1" "V h1 = V (hw g)" using ctlr_update(1) by blast
  obtain h2 where h2: "gicd_set_ctlr B base 0x30 True h1 = Some h2" "V h2 = V h1" using ctlr_update(2) by blast
  have t: "gicd_read_typer B base h2 = (typer, h2)" by (simp add: gicd_read_typer_def mmio_read_32_def typer)
  have r0: "restored h0 [] (hw g) h2" using h1 h2 by (simp add: restored_def)
  obtain a1 a2 a3 a4 a5 where as: "RESTORE_GICD_REGS (gicd_write_igroupr B base) num 5 (gicd_igroupr c) h2 = Some a1"
    "RESTORE_GICD_REGS (gicd_write_ipriorityr B base) num 2 (gicd_ipriorityr c) a1 = Some a2"
    "RESTORE_GICD_REGS (gicd_write_icfgr B base) num 4 (gicd_icfgr c) a2 = Some a3"
    "RESTORE_GICD_REGS (gicd_write_igrpmodr B base) num 5 (gicd_igrpmodr c) a3 = Some a4"
    "RESTORE_GICD_REGS (gicd_write_nsacr B base) num 4 (gicd_nsacr c) a4 = Some a5"
    and a5: "restored h0 [Nsacr, Igrpmodr, Icfgr, Ipriorityr, Igroupr] (hw g) a5"
    using restore_config [OF c z r0] by blast
  obtain a6 where a6: "RESTORE_GICD_REGS (gicd_write_irouter B base) num 0 (gicd_irouter c) a5 = Some a6"
    "\<forall>i. 32 \<le> i \<and> i < num \<longrightarrow> R a6 i = R h0 i" "V a6 = V a5"
    using restore_routers [of "gicd_irouter c" h0 a5] c by (auto simp: saved_def)
  have r6: "restored h0 [Nsacr, Igrpmodr, Icfgr, Ipriorityr, Igroupr] (hw g) a6" using a5 a6(3) by (simp add: restored_def)
  obtain a7 a8 a9 where bs: "RESTORE_GICD_REGS (gicd_write_isenabler B base) num 5 (gicd_isenabler c) a6 = Some a7"
    "RESTORE_GICD_REGS (gicd_write_ispendr B base) num 5 (gicd_ispendr c) a7 = Some a8"
    "RESTORE_GICD_REGS (gicd_write_isactiver B base) num 5 (gicd_isactiver c) a8 = Some a9"
    and a9: "\<forall>b m. spi_reg num b m \<longrightarrow> V a9 b m = V h0 b m" "R a9 = R a6"
    using restore_state [OF c z r6] by blast
  let ?w = "bus_write32 B (base + GICD_CTLR) (C h0) a9"
  obtain h' where h': "gicd_wait_for_pending_write B base ?w = Some h'" "V h' = V ?w" "R h' = R ?w" "C h' = C ?w"
    using wait_ctlr [of ?w] by auto
  have "gicd_ctlr c = C h0" using c by (simp add: saved_def)
  then have "gicv3_distif_init_restore B c g = Some (g\<lparr>hw := h'\<rparr>)"
    using h1 h2 h' data by (simp add: gicv3_distif_init_restore_def t as a6 bs gicd_write_ctlr_def mmio_write_32_def Let_def)
  then show ?thesis using h' a6(2) a9 ctlr_bank ctlr_writeback by auto
qed

end

end
