(* ===== verification/Gic_Spi.thy ===== *)
theory Gic_Spi
  imports Gic_Dist
begin

text \<open>
  The Distributor bit by bit: the contract of registers that hold every bit written to them, a model of
  the Distributor that satisfies it, and the refinement of the driver's register operations to updates of the state of one
  shared peripheral interrupt (SPI).
\<close>

subsection \<open>Exact registers\<close>

definition set_reg :: "(gicd_bank \<Rightarrow> nat \<Rightarrow> u32) \<Rightarrow> gicd_bank \<Rightarrow> nat \<Rightarrow> u32 \<Rightarrow> gicd_bank \<Rightarrow> nat \<Rightarrow> u32" where
  "set_reg V b n v = V(b := (V b)(n := v))"

definition set_byte :: "nat \<Rightarrow> u8 \<Rightarrow> u32 \<Rightarrow> u32" where
  "set_byte k v x = (x AND NOT (push_bit (8 * k) 0xff)) OR push_bit (8 * k) (ucast v)"

text \<open>
  \<open>gicd_exact\<close>: a write replaces the register, or sets or clears the bits written; a byte written to the
  priority of an interrupt replaces that byte.
\<close>

locale gicd_exact =
  fixes B :: "'h bus" and base :: u64 and typer :: u32
    and V :: "'h \<Rightarrow> gicd_bank \<Rightarrow> nat \<Rightarrow> u32" and R :: "'h \<Rightarrow> nat \<Rightarrow> u64" and C :: "'h \<Rightarrow> u32" and pend :: "'h \<Rightarrow> nat"
  assumes read_typer: "bus_read32 B (base + GICD_TYPER) h = (typer, h)"
    and read_reg: "spi_reg (num_ints_of typer) b n \<Longrightarrow> bus_read32 B (gicd_reg base b n) h = (V h b n, h)"
    and read_route: "32 \<le> i \<Longrightarrow> i < num_ints_of typer \<Longrightarrow> bus_read64 B (base + GICD_IROUTER + of_nat (8 * i)) h = (R h i, h)"
    and write_reg: "spi_reg (num_ints_of typer) b n \<Longrightarrow> h' = bus_write32 B (gicd_reg base b n) v h \<Longrightarrow>
      V h' = set_reg (V h) b n (if sets_bits b then V h b n OR v else v) \<and> R h' = R h \<and> C h' = C h"
    and write_clear: "spi_reg (num_ints_of typer) Isenabler n \<Longrightarrow> h' = bus_write32 B (base + GICD_ICENABLER + of_nat (4 * n)) v h \<Longrightarrow>
      V h' = set_reg (V h) Isenabler n (V h Isenabler n AND NOT v) \<and> R h' = R h \<and> C h' = C h"
    and write_priority: "32 \<le> i \<Longrightarrow> i < num_ints_of typer \<Longrightarrow> h' = bus_write8 B (base + GICD_IPRIORITYR + of_nat i) p h \<Longrightarrow>
      V h' = set_reg (V h) Ipriorityr (i div 4) (set_byte (i mod 4) p (V h Ipriorityr (i div 4))) \<and> R h' = R h \<and> C h' = C h"
    and write_route: "32 \<le> i \<Longrightarrow> i < num_ints_of typer \<Longrightarrow> h' = bus_write64 B (base + GICD_IROUTER + of_nat (8 * i)) r h \<Longrightarrow>
      V h' = V h \<and> R h' = (R h)(i := r) \<and> C h' = C h"
    and write_control: "h' = bus_write32 B (base + GICD_CTLR) v h \<Longrightarrow>
      V h' = V h \<and> R h' = R h \<and> C h' = v AND NOT GICD_CTLR_RWP_BIT"
    and read_control: "bus_read32 B (base + GICD_CTLR) h = (v, h') \<Longrightarrow>
      v AND NOT GICD_CTLR_RWP_BIT = C h \<and> V h' = V h \<and> R h' = R h \<and> C h' = C h \<and>
      (if v AND GICD_CTLR_RWP_BIT = 0 then h' = h else pend h' < pend h)"


sublocale gicd_exact \<subseteq> gicd_writeback
proof (unfold_locales, goal_cases)
  case 1 show ?case by (rule read_typer)
next
  case 2 then show ?case by (rule read_reg)
next
  case 3 then show ?case by (rule read_route)
next
  case (4 b n b' n' v h) then show ?case using write_reg [OF 4(1) refl, of v h] by (auto simp: set_reg_def)
next
  case (5 b n v h) then show ?case using write_reg [OF _ refl] by simp
next
  case (6 b n v h) then show ?case using write_reg [OF _ refl] by simp
next
  case 7 then show ?case using write_route [OF _ _ refl] by simp
next
  case 8 then show ?case using write_route [OF _ _ refl] by simp
next
  case 9 then show ?case using write_route [OF _ _ refl] by simp
next
  case 10 then show ?case using write_control [OF refl] by simp
next
  case 11 then show ?case using write_control [OF refl] by simp
next
  case 12 then show ?case by (rule read_control)
next
  case (13 b n h h0) then show ?case using write_reg [OF 13(1) refl, of "V h0 b n" h] by (simp add: set_reg_def)
next
  case 14 then show ?case using write_route [OF _ _ refl] by simp
next
  case (15 h0 h)
  obtain v h' where "bus_read32 B (base + GICD_CTLR) h0 = (v, h')" by fastforce
  then have "v AND NOT GICD_CTLR_RWP_BIT = C h0" using read_control by blast
  then have "C h0 AND NOT GICD_CTLR_RWP_BIT = C h0" by (metis and.assoc and.idem)
  then show ?case using write_control [OF refl, of "C h0" h] by simp
qed

subsection \<open>A Distributor\<close>

text \<open>
  A Distributor as the GICv3 architecture describes the registers that the driver uses: a write to the
  control register keeps RWP set for the next two reads.
\<close>

record dist_hw =
  dist_regs :: "gicd_bank \<Rightarrow> nat \<Rightarrow> u32"
  dist_routes :: "nat \<Rightarrow> u64"
  dist_ctlr :: u32
  dist_pend :: nat

definition dist_decode :: "nat \<Rightarrow> (gicd_bank \<times> nat) option" where
  "dist_decode a =
     (if 0x80 \<le> a \<and> a < 0x100 then Some (Igroupr, (a - 0x80) div 4)
      else if 0x100 \<le> a \<and> a < 0x180 then Some (Isenabler, (a - 0x100) div 4)
      else if 0x200 \<le> a \<and> a < 0x280 then Some (Ispendr, (a - 0x200) div 4)
      else if 0x300 \<le> a \<and> a < 0x380 then Some (Isactiver, (a - 0x300) div 4)
      else if 0x400 \<le> a \<and> a < 0x800 then Some (Ipriorityr, (a - 0x400) div 4)
      else if 0xc00 \<le> a \<and> a < 0xd00 then Some (Icfgr, (a - 0xc00) div 4)
      else if 0xd00 \<le> a \<and> a < 0xd80 then Some (Igrpmodr, (a - 0xd00) div 4)
      else if 0xe00 \<le> a \<and> a < 0xf00 then Some (Nsacr, (a - 0xe00) div 4)
      else None)"

definition dist_read32 :: "u32 \<Rightarrow> nat \<Rightarrow> dist_hw \<Rightarrow> u32 \<times> dist_hw" where
  "dist_read32 typer a h =
     (if a = 0 then if dist_pend h = 0 then (dist_ctlr h AND NOT GICD_CTLR_RWP_BIT, h)
        else (dist_ctlr h OR GICD_CTLR_RWP_BIT, h\<lparr>dist_pend := dist_pend h - 1\<rparr>)
      else if a = 4 then (typer, h)
      else case dist_decode a of Some (b, n) \<Rightarrow> (dist_regs h b n, h) | None \<Rightarrow> (0, h))"

definition dist_write32 :: "nat \<Rightarrow> u32 \<Rightarrow> dist_hw \<Rightarrow> dist_hw" where
  "dist_write32 a v h =
     (if a = 0 then h\<lparr>dist_ctlr := v, dist_pend := 2\<rparr>
      else if 0x180 \<le> a \<and> a < 0x200
      then h\<lparr>dist_regs := set_reg (dist_regs h) Isenabler ((a - 0x180) div 4) (dist_regs h Isenabler ((a - 0x180) div 4) AND NOT v)\<rparr>
      else case dist_decode a of
        Some (b, n) \<Rightarrow> h\<lparr>dist_regs := set_reg (dist_regs h) b n (if sets_bits b then dist_regs h b n OR v else v)\<rparr>
      | None \<Rightarrow> h)"

definition dist_write8 :: "nat \<Rightarrow> u8 \<Rightarrow> dist_hw \<Rightarrow> dist_hw" where
  "dist_write8 a v h =
     (if 0x400 \<le> a \<and> a < 0x800
      then h\<lparr>dist_regs := set_reg (dist_regs h) Ipriorityr ((a - 0x400) div 4)
             (set_byte ((a - 0x400) mod 4) v (dist_regs h Ipriorityr ((a - 0x400) div 4)))\<rparr>
      else h)"

definition dist_bus :: "u64 \<Rightarrow> u32 \<Rightarrow> dist_hw bus" where
  "dist_bus base typer =
     \<lparr> bus_read8 = (\<lambda>a h. (0, h)), bus_write8 = (\<lambda>a. dist_write8 (unat (a - base))),
       bus_read16 = (\<lambda>a h. (0, h)), bus_write16 = (\<lambda>a v h. h),
       bus_read32 = (\<lambda>a. dist_read32 typer (unat (a - base))), bus_write32 = (\<lambda>a. dist_write32 (unat (a - base))),
       bus_read64 = (\<lambda>a h. (dist_routes h ((unat (a - base) - 0x6000) div 8), h)),
       bus_write64 = (\<lambda>a v h. h\<lparr>dist_routes := (dist_routes h)((unat (a - base) - 0x6000) div 8 := v)\<rparr>) \<rparr>"

lemma offset_of: "unat x + k < 2 ^ 64 \<Longrightarrow> unat (base + x + of_nat k - base :: u64) = unat x + k"
  by (simp add: unat_add_less unat_of_nat)

lemma spi_reg_bound:
  assumes "spi_reg (num_ints_of t) b n"
  shows "32 \<le> n * 2 ^ bank_shift b" "n * 2 ^ bank_shift b < 1024"
  using assms num_ints_le(1) [of t] by (simp_all add: spi_reg_def)

lemma decode_reg:
  assumes "spi_reg (num_ints_of t) b n"
  shows "dist_decode (unat (gicd_reg base b n - base)) = Some (b, n)" "unat (gicd_reg base b n - base) \<noteq> 0"
    "unat (gicd_reg base b n - base) \<noteq> 4" "\<not> (0x180 \<le> unat (gicd_reg base b n - base) \<and> unat (gicd_reg base b n - base) < 0x200)"
proof -
  note bnd = spi_reg_bound [OF assms]
  have "n < 1024" using bnd(2) bank_shift_cases [of b] by auto
  then have o: "unat (gicd_reg base b n - base) = unat (bank_off b) + 4 * n"
    unfolding gicd_reg_def by (intro offset_of) (cases b; simp)
  show "dist_decode (unat (gicd_reg base b n - base)) = Some (b, n)"
    unfolding o using bnd by (cases b) (simp_all add: dist_decode_def)
  show "unat (gicd_reg base b n - base) \<noteq> 0" "unat (gicd_reg base b n - base) \<noteq> 4"
    "\<not> (0x180 \<le> unat (gicd_reg base b n - base) \<and> unat (gicd_reg base b n - base) < 0x200)"
    unfolding o using bnd by (cases b; simp)+
qed

lemma route_offset:
  assumes "i < num_ints_of t"
  shows "(unat (base + GICD_IROUTER + of_nat (8 * i) - base) - 0x6000) div 8 = i"
  using assms num_ints_le(1) [of t] offset_of [of "0x6000 :: u64" "8 * i" base] by simp

interpretation dist: gicd_exact "dist_bus base typer" base typer dist_regs dist_routes "\<lambda>h. dist_ctlr h AND NOT GICD_CTLR_RWP_BIT" dist_pend
  for base typer
proof (unfold_locales, goal_cases)
  case 1 show ?case by (simp add: dist_bus_def dist_read32_def)
next
  case (2 b n h) then show ?case using decode_reg [OF 2, of base] by (simp add: dist_bus_def dist_read32_def)
next
  case (3 i h) then show ?case using route_offset [OF 3(2)] by (simp add: dist_bus_def)
next
  case (4 b n h' v h) then show ?case using decode_reg [OF 4(1), of base] by (simp add: dist_bus_def dist_write32_def)
next
  case (5 n h' v h)
  have n: "n < 32" using spi_reg_bound [OF 5(1)] by simp
  have "unat (base + GICD_ICENABLER + of_nat (4 * n) - base) = 0x180 + 4 * n" using n offset_of [of "0x180 :: u64" "4 * n" base] by simp
  then show ?case using 5(2) n by (simp add: dist_bus_def dist_write32_def)
next
  case (6 i h' p h)
  have i: "i < 1024" using 6(2) num_ints_le(1) [of typer] by simp
  have "unat (base + GICD_IPRIORITYR + of_nat i - base) = 0x400 + i" using i offset_of [of "0x400 :: u64" i base] by simp
  then show ?case using 6(3) i by (simp add: dist_bus_def dist_write8_def)
next
  case (7 i h' r h) then show ?case using route_offset [OF 7(2)] by (simp add: dist_bus_def)
next
  case (8 h' v h) then show ?case by (simp add: dist_bus_def dist_write32_def)
next
  case (9 h v h')
  then show ?case by (auto simp: dist_bus_def dist_read32_def bit.conj_disj_distrib2 and.assoc split: if_splits)
qed

subsection \<open>The state of one SPI\<close>

record spi_state =
  spi_group1ns :: bool
  spi_modifier :: bool
  spi_enabled :: bool
  spi_priority :: u8
  spi_config :: u32
  spi_route :: u64

definition spi_of :: "(gicd_bank \<Rightarrow> nat \<Rightarrow> u32) \<Rightarrow> (nat \<Rightarrow> u64) \<Rightarrow> nat \<Rightarrow> spi_state" where
  "spi_of V R i =
     \<lparr> spi_group1ns = bit (V Igroupr (i div 32)) (i mod 32), spi_modifier = bit (V Igrpmodr (i div 32)) (i mod 32),
       spi_enabled = bit (V Isenabler (i div 32)) (i mod 32),
       spi_priority = ucast (drop_bit (8 * (i mod 4)) (V Ipriorityr (i div 4))),
       spi_config = drop_bit (2 * (i mod 16)) (V Icfgr (i div 16)) AND 3, spi_route = R i \<rparr>"

lemma same_slot: "i div k = j div k \<and> i mod k = j mod k \<longleftrightarrow> i = (j :: nat)"
  by (metis div_mult_mod_eq)

lemma spi_of_bit:
  "spi_of (set_reg V Igroupr (i div 32) (V Igroupr (i div 32) OR push_bit (i mod 32) 1)) R j =
     (if j = i then (spi_of V R i)\<lparr>spi_group1ns := True\<rparr> else spi_of V R j)"
  "spi_of (set_reg V Igroupr (i div 32) (V Igroupr (i div 32) AND NOT (push_bit (i mod 32) 1))) R j =
     (if j = i then (spi_of V R i)\<lparr>spi_group1ns := False\<rparr> else spi_of V R j)"
  "spi_of (set_reg V Igrpmodr (i div 32) (V Igrpmodr (i div 32) OR push_bit (i mod 32) 1)) R j =
     (if j = i then (spi_of V R i)\<lparr>spi_modifier := True\<rparr> else spi_of V R j)"
  "spi_of (set_reg V Igrpmodr (i div 32) (V Igrpmodr (i div 32) AND NOT (push_bit (i mod 32) 1))) R j =
     (if j = i then (spi_of V R i)\<lparr>spi_modifier := False\<rparr> else spi_of V R j)"
  "spi_of (set_reg V Isenabler (i div 32) (V Isenabler (i div 32) OR push_bit (i mod 32) 1)) R j =
     (if j = i then (spi_of V R i)\<lparr>spi_enabled := True\<rparr> else spi_of V R j)"
  "spi_of (set_reg V Isenabler (i div 32) (V Isenabler (i div 32) AND NOT (push_bit (i mod 32) 1))) R j =
     (if j = i then (spi_of V R i)\<lparr>spi_enabled := False\<rparr> else spi_of V R j)"
  using same_slot [of j 32 i]
  by (auto simp: spi_of_def set_reg_def bit_simps)

text \<open>A field of \<open>w\<close> bits at position \<open>k\<close>, after the field at position \<open>l\<close> was replaced.\<close>

lemma replaced_field:
  fixes x v :: u32
  assumes "0 < w" "w * l + w \<le> 32"
  shows "drop_bit (w * k) ((x AND NOT (push_bit (w * l) (mask w))) OR push_bit (w * l) (v AND mask w)) AND mask w =
    (if k = l then v AND mask w else drop_bit (w * k) x AND mask w)"
proof (rule bit_word_eqI)
  fix n assume n: "n < LENGTH(32)"
  have pos: "w * l \<le> n + w * k \<and> n + w * k - w * l < w \<longleftrightarrow> k = l" if "n < w"
  proof -
    have "w * k + w \<le> w * l" if "k < l" using that by (metis Suc_leI mult_Suc_right mult_le_mono2 add.commute)
    moreover have "w * l + w \<le> w * k" if "l < k" using that by (metis Suc_leI mult_Suc_right mult_le_mono2 add.commute)
    ultimately show ?thesis using \<open>n < w\<close> by (cases k l rule: linorder_cases) auto
  qed
  show "bit (drop_bit (w * k) ((x AND NOT (push_bit (w * l) (mask w))) OR push_bit (w * l) (v AND mask w)) AND mask w) n =
    bit (if k = l then v AND mask w else drop_bit (w * k) x AND mask w) n"
    using n assms pos bit_imp_le_length [of x "w * k + n"] by (cases "n < w") (auto simp: bit_simps)
qed

lemma spi_of_priority:
  "spi_of (set_reg V Ipriorityr (i div 4) (set_byte (i mod 4) p (V Ipriorityr (i div 4)))) R j =
     (if j = i then (spi_of V R i)\<lparr>spi_priority := p\<rparr> else spi_of V R j)"
proof -
  let ?x = "V Ipriorityr (i div 4)"
  have m: "(0xff :: u32) = mask 8" by (simp add: mask_eq_exp_minus_1)
  have le: "n < 8" if "bit p n" for n using bit_imp_le_length [OF that] by simp
  have u: "(ucast p :: u32) AND mask 8 = ucast p" by (auto intro!: bit_word_eqI simp: bit_simps dest: le)
  have c: "(ucast y :: u8) = ucast (y AND mask 8)" for y :: u32 by (auto intro!: bit_word_eqI simp: bit_simps)
  have f: "drop_bit (8 * (j mod 4)) (set_byte (i mod 4) p ?x) AND mask 8 =
      (if j mod 4 = i mod 4 then ucast p AND mask 8 else drop_bit (8 * (j mod 4)) ?x AND mask 8)"
    unfolding set_byte_def m using replaced_field [of 8 "i mod 4" "j mod 4" ?x "ucast p"] u by simp
  have "(ucast (drop_bit (8 * (j mod 4)) (set_byte (i mod 4) p ?x)) :: u8) =
      (if j mod 4 = i mod 4 then p else ucast (drop_bit (8 * (j mod 4)) ?x))"
    unfolding c [of "drop_bit _ _"] f u by (auto intro!: bit_word_eqI simp: bit_simps dest: le)
  then show ?thesis using same_slot [of j 4 i] by (auto simp: spi_of_def set_reg_def)
qed

lemma spi_of_config:
  "spi_of (set_reg V Icfgr (i div 16) ((V Icfgr (i div 16) AND NOT (push_bit (2 * (i mod 16)) 3)) OR push_bit (2 * (i mod 16)) (c AND 3))) R j =
     (if j = i then (spi_of V R i)\<lparr>spi_config := c AND 3\<rparr> else spi_of V R j)"
proof -
  have m: "(3 :: u32) = mask 2" by (simp add: mask_eq_exp_minus_1)
  show ?thesis
    using replaced_field [of 2 "i mod 16" "j mod 16" "V Icfgr (i div 16)" c, folded m] same_slot [of j 16 i]
    by (auto simp: spi_of_def set_reg_def)
qed

lemma spi_of_route: "spi_of V (R(i := r)) j = (if j = i then (spi_of V R i)\<lparr>spi_route := r\<rparr> else spi_of V R j)"
  by (simp add: spi_of_def)

subsection \<open>Operations of the driver on one SPI\<close>

text \<open>What the driver leaves in an SPI that it configures as a secure interrupt.\<close>

definition secure_spi :: "interrupt_prop \<Rightarrow> u64 \<Rightarrow> spi_state" where
  "secure_spi p mpidr =
     \<lparr> spi_group1ns = False, spi_modifier = (intr_grp p = INTR_GROUP1S), spi_enabled = True,
       spi_priority = ucast (intr_pri p AND GIC_PRI_MASK), spi_config = intr_cfg p AND 3,
       spi_route = gicd_irouter_val_from_mpidr mpidr 0 \<rparr>"

lemma irq_fields:
  assumes "32 \<le> unat irq" "unat irq < 1024"
  shows "bank_reg base (bank_off b) (bank_shift b) irq = gicd_reg base b (unat irq div 2 ^ bank_shift b)"
    "bit_num irq = unat irq mod 32" "unat (irq AND 15) = unat irq mod 16"
    "(ucast irq :: u64) = of_nat (unat irq)" "(ucast (push_bit 3 irq) :: u64) = of_nat (8 * unat irq)"
proof -
  let ?i = "unat irq"
  have i: "of_nat ?i = irq" by simp
  have "unat (ucast (push_bit 2 (drop_bit (bank_shift b) irq)) :: u64) = 4 * (?i div 2 ^ bank_shift b)"
    using le_less_trans [OF div_le_dividend assms(2), of "2 ^ bank_shift b"]
    by (simp add: unat_ucast_up push_bit_eq_mult unat_word_ariths unat_drop_bit_div)
  then have "ucast (push_bit 2 (drop_bit (bank_shift b) irq)) = (of_nat (4 * (?i div 2 ^ bank_shift b)) :: u64)"
    by (metis of_nat_unat ucast_id)
  then show "bank_reg base (bank_off b) (bank_shift b) irq = gicd_reg base b (?i div 2 ^ bank_shift b)"
    by (simp only: bank_reg_def gicd_reg_def)
  show "bit_num irq = ?i mod 32" using unat_and_mask [of irq 5] by (simp add: bit_num_def mask_eq_exp_minus_1)
  show "unat (irq AND 15) = ?i mod 16" using unat_and_mask [of irq 4] by (simp add: mask_eq_exp_minus_1)
  show "(ucast irq :: u64) = of_nat ?i" by (metis of_nat_unat ucast_id unat_ucast_up [where 'a = 32 and 'b = 64, simplified])
  show "(ucast (push_bit 3 irq) :: u64) = of_nat (8 * ?i)" using router_addr [OF assms(2)] i by simp
qed

lemma spi_reg_irq: "32 \<le> i \<Longrightarrow> i < num \<Longrightarrow> spi_reg num b (i div 2 ^ bank_shift b)"
proof -
  assume i: "32 \<le> i" "i < num"
  have "32 \<le> i div 2 ^ bank_shift b * 2 ^ bank_shift b" using i(1) bank_shift_cases [of b] by auto
  moreover have "i div 2 ^ bank_shift b * 2 ^ bank_shift b \<le> i" by simp
  ultimately show ?thesis using i(2) by (simp add: spi_reg_def del: div_times_less_eq_dividend)
qed

lemmas bank_reg_irq = irq_fields(1) [where b = Igroupr, simplified] irq_fields(1) [where b = Isenabler, simplified]
  irq_fields(1) [where b = Igrpmodr, simplified] irq_fields(1) [where b = Icfgr, simplified]

lemmas gicd_op_defs = gicd_set_igroupr_def gicd_clr_igroupr_def gicd_set_igrpmodr_def gicd_clr_igrpmodr_def gicd_set_isenabler_def
  gicd_set_icfgr_def gicd_set_ipriorityr_def gicd_write_irouter_def gicd_read_igroupr_def gicd_write_igroupr_def
  gicd_read_igrpmodr_def gicd_write_igrpmodr_def gicd_write_isenabler_def gicd_read_icfgr_def gicd_write_icfgr_def
  mmio_read_32_def mmio_write_32_def mmio_write_8_def mmio_write_64_def

lemma all_fields:
  "s\<lparr>spi_group1ns := a, spi_modifier := b, spi_config := c, spi_priority := d, spi_route := r, spi_enabled := e\<rparr> =
   \<lparr> spi_group1ns = a, spi_modifier = b, spi_enabled = e, spi_priority = d, spi_config = c, spi_route = r \<rparr>"
  by (cases s) simp

context gicd_exact
begin

definition spi where "spi h i = spi_of (V h) (R h) i"

text \<open>Each register operation on SPI \<open>irq\<close> changes one field of its state, and nothing else.\<close>

lemma spi_ops:
  assumes irq: "32 \<le> unat irq" "unat irq < num"
  shows "spi (gicd_set_igroupr B base irq h) = (spi h)(unat irq := (spi h (unat irq))\<lparr>spi_group1ns := True\<rparr>)"
    "spi (gicd_clr_igroupr B base irq h) = (spi h)(unat irq := (spi h (unat irq))\<lparr>spi_group1ns := False\<rparr>)"
    "spi (gicd_set_igrpmodr B base irq h) = (spi h)(unat irq := (spi h (unat irq))\<lparr>spi_modifier := True\<rparr>)"
    "spi (gicd_clr_igrpmodr B base irq h) = (spi h)(unat irq := (spi h (unat irq))\<lparr>spi_modifier := False\<rparr>)"
    "spi (gicd_set_isenabler B base irq h) = (spi h)(unat irq := (spi h (unat irq))\<lparr>spi_enabled := True\<rparr>)"
    "spi (gicd_set_icfgr B base irq c h) = (spi h)(unat irq := (spi h (unat irq))\<lparr>spi_config := c AND 3\<rparr>)"
    "spi (gicd_set_ipriorityr B base irq p h) = (spi h)(unat irq := (spi h (unat irq))\<lparr>spi_priority := ucast (p AND GIC_PRI_MASK)\<rparr>)"
    "spi (gicd_write_irouter B base irq r h) = (spi h)(unat irq := (spi h (unat irq))\<lparr>spi_route := r\<rparr>)"
proof -
  have i: "unat irq < 1024" using irq num_facts by simp
  note reg = spi_reg_irq [OF irq]
  note regs = reg [of Igroupr, simplified] reg [of Igrpmodr, simplified] reg [of Isenabler, simplified] reg [of Icfgr, simplified]
  note addr = bank_reg_irq [OF irq(1) i] irq_fields(2,3) [OF irq(1) i] irq_fields(5) [OF irq(1) i, simplified]
  note w = write_reg [OF regs(1) refl] write_reg [OF regs(2) refl] write_reg [OF regs(3) refl] write_reg [OF regs(4) refl]
    write_priority [OF irq refl, simplified] write_route [OF irq refl, simplified]
  show "spi (gicd_set_igroupr B base irq h) = (spi h)(unat irq := (spi h (unat irq))\<lparr>spi_group1ns := True\<rparr>)"
    "spi (gicd_clr_igroupr B base irq h) = (spi h)(unat irq := (spi h (unat irq))\<lparr>spi_group1ns := False\<rparr>)"
    "spi (gicd_set_igrpmodr B base irq h) = (spi h)(unat irq := (spi h (unat irq))\<lparr>spi_modifier := True\<rparr>)"
    "spi (gicd_clr_igrpmodr B base irq h) = (spi h)(unat irq := (spi h (unat irq))\<lparr>spi_modifier := False\<rparr>)"
    "spi (gicd_set_isenabler B base irq h) = (spi h)(unat irq := (spi h (unat irq))\<lparr>spi_enabled := True\<rparr>)"
    "spi (gicd_set_icfgr B base irq c h) = (spi h)(unat irq := (spi h (unat irq))\<lparr>spi_config := c AND 3\<rparr>)"
    "spi (gicd_set_ipriorityr B base irq p h) = (spi h)(unat irq := (spi h (unat irq))\<lparr>spi_priority := ucast (p AND GIC_PRI_MASK)\<rparr>)"
    "spi (gicd_write_irouter B base irq r h) = (spi h)(unat irq := (spi h (unat irq))\<lparr>spi_route := r\<rparr>)"
    by (simp_all add: fun_eq_iff gicd_op_defs spi_def sets_bits_def addr w read_reg regs spi_of_bit [simplified] spi_of_priority spi_of_config [simplified] spi_of_route Let_def)
qed

lemma op_control:
  assumes irq: "32 \<le> unat irq" "unat irq < num"
  shows "C (gicd_set_igroupr B base irq h) = C h" "C (gicd_clr_igroupr B base irq h) = C h"
    "C (gicd_set_igrpmodr B base irq h) = C h" "C (gicd_clr_igrpmodr B base irq h) = C h"
    "C (gicd_set_isenabler B base irq h) = C h" "C (gicd_set_icfgr B base irq c h) = C h"
    "C (gicd_set_ipriorityr B base irq p h) = C h" "C (gicd_write_irouter B base irq r h) = C h"
proof -
  have i: "unat irq < 1024" using irq num_facts by simp
  note reg = spi_reg_irq [OF irq]
  note regs = reg [of Igroupr, simplified] reg [of Igrpmodr, simplified] reg [of Isenabler, simplified] reg [of Icfgr, simplified]
  note addr = bank_reg_irq [OF irq(1) i] irq_fields(2,3) [OF irq(1) i] irq_fields(5) [OF irq(1) i, simplified]
  note w = write_reg [OF regs(1) refl] write_reg [OF regs(2) refl] write_reg [OF regs(3) refl] write_reg [OF regs(4) refl]
    write_priority [OF irq refl, simplified] write_route [OF irq refl, simplified]
  show "C (gicd_set_igroupr B base irq h) = C h" "C (gicd_clr_igroupr B base irq h) = C h"
    "C (gicd_set_igrpmodr B base irq h) = C h" "C (gicd_clr_igrpmodr B base irq h) = C h"
    "C (gicd_set_isenabler B base irq h) = C h" "C (gicd_set_icfgr B base irq c h) = C h"
    "C (gicd_set_ipriorityr B base irq p h) = C h" "C (gicd_write_irouter B base irq r h) = C h"
    by (simp_all add: gicd_op_defs addr w read_reg regs Let_def)
qed

lemma spi_prop:
  assumes "unat (intr_num p) < num"
  shows "spi (snd (secure_spi_prop B base mpidr p (e, h))) =
      (if intr_num p < MIN_SPI_ID then spi h else (spi h)(unat (intr_num p) := secure_spi p mpidr))"
    "C (snd (secure_spi_prop B base mpidr p (e, h))) = C h"
    "fst (secure_spi_prop B base mpidr p (e, h)) =
      (if intr_num p < MIN_SPI_ID then e else e OR (if intr_grp p = INTR_GROUP1S then CTLR_ENABLE_G1S_BIT else CTLR_ENABLE_G0_BIT))"
proof -
  have irq: "32 \<le> unat (intr_num p)" if "\<not> intr_num p < MIN_SPI_ID" using that by (simp add: word_less_nat_alt)
  note ops = spi_ops [OF irq assms] op_control [OF irq assms]
  show "spi (snd (secure_spi_prop B base mpidr p (e, h))) =
      (if intr_num p < MIN_SPI_ID then spi h else (spi h)(unat (intr_num p) := secure_spi p mpidr))"
    by (simp add: secure_spi_prop_def ops secure_spi_def all_fields Let_def)
  show "C (snd (secure_spi_prop B base mpidr p (e, h))) = C h" by (simp add: secure_spi_prop_def ops Let_def)
  show "fst (secure_spi_prop B base mpidr p (e, h)) =
      (if intr_num p < MIN_SPI_ID then e else e OR (if intr_grp p = INTR_GROUP1S then CTLR_ENABLE_G1S_BIT else CTLR_ENABLE_G0_BIT))"
    by (simp add: secure_spi_prop_def Let_def)
qed

end

text \<open>The groups of the secure SPIs of a list of properties, and what the list asks of one SPI.\<close>

fun prop_groups :: "interrupt_prop list \<Rightarrow> u32" where
  "prop_groups [] = 0"
| "prop_groups (p # ps) = (if intr_num p < MIN_SPI_ID then 0
     else if intr_grp p = INTR_GROUP1S then CTLR_ENABLE_G1S_BIT else CTLR_ENABLE_G0_BIT) OR prop_groups ps"

definition prop_for :: "interrupt_prop list \<Rightarrow> nat \<Rightarrow> interrupt_prop option" where
  "prop_for ps i = List.find (\<lambda>p. unat (intr_num p) = i) (rev ps)"

lemma find_snoc: "List.find P (xs @ [x]) = (case List.find P xs of None \<Rightarrow> if P x then Some x else None | Some y \<Rightarrow> Some y)"
  by (induction xs) simp_all

lemma prop_for_Cons:
  "prop_for (p # ps) i = (case prop_for ps i of None \<Rightarrow> if unat (intr_num p) = i then Some p else None | Some q \<Rightarrow> Some q)"
  by (simp add: prop_for_def find_snoc)

context gicd_exact
begin

lemma spi_props:
  assumes "\<forall>p \<in> set ps. unat (intr_num p) < num" "32 \<le> i"
  shows "spi (snd (fold (secure_spi_prop B base mpidr) ps (e, h))) i =
      (case prop_for ps i of None \<Rightarrow> spi h i | Some p \<Rightarrow> secure_spi p mpidr)"
    "C (snd (fold (secure_spi_prop B base mpidr) ps (e, h))) = C h"
    "fst (fold (secure_spi_prop B base mpidr) ps (e, h)) = e OR prop_groups ps"
proof -
  have "spi (snd (fold (secure_spi_prop B base mpidr) ps (e, h))) i =
      (case prop_for ps i of None \<Rightarrow> spi h i | Some p \<Rightarrow> secure_spi p mpidr) \<and>
    C (snd (fold (secure_spi_prop B base mpidr) ps (e, h))) = C h \<and>
    fst (fold (secure_spi_prop B base mpidr) ps (e, h)) = e OR prop_groups ps"
    using assms(1)
  proof (induction ps arbitrary: e h)
    case Nil
    then show ?case by (simp add: prop_for_def)
  next
    case (Cons p ps)
    then have p: "unat (intr_num p) < num" by simp
    obtain e1 h1 where s: "secure_spi_prop B base mpidr p (e, h) = (e1, h1)" by fastforce
    note one = spi_prop [OF p, of mpidr e h, unfolded s fst_conv snd_conv]
    have "intr_num p < MIN_SPI_ID \<Longrightarrow> unat (intr_num p) \<noteq> i" using assms(2) by (simp add: word_less_nat_alt)
    then show ?case using Cons.IH [of e1 h1] Cons.prems s one
      by (auto simp: prop_for_Cons or.assoc split: option.split)
  qed
  then show "spi (snd (fold (secure_spi_prop B base mpidr) ps (e, h))) i =
      (case prop_for ps i of None \<Rightarrow> spi h i | Some p \<Rightarrow> secure_spi p mpidr)"
    "C (snd (fold (secure_spi_prop B base mpidr) ps (e, h))) = C h"
    "fst (fold (secure_spi_prop B base mpidr) ps (e, h)) = e OR prop_groups ps" by simp_all
qed

lemma fill_from:
  assumes b: "\<not> sets_bits b"
  shows "n \<le> spi_regs num b \<Longrightarrow>
    h' = fold (\<lambda>i. mmio_write_32 B (bank_reg base (bank_off b) (bank_shift b) i) v) (map (\<lambda>k. of_nat (32 + 2 ^ bank_shift b * k)) [0..<n]) h \<Longrightarrow>
    (\<forall>b' m. V h' b' m = (if b' = b \<and> first_reg b \<le> m \<and> m < first_reg b + n then v else V h b' m)) \<and> R h' = R h \<and> C h' = C h"
proof (induction n arbitrary: h')
  case (Suc n)
  let ?f = "\<lambda>i. mmio_write_32 B (bank_reg base (bank_off b) (bank_shift b) i) v"
  define h1 where "h1 = fold ?f (map (\<lambda>k. of_nat (32 + 2 ^ bank_shift b * k)) [0..<n]) h"
  have IH: "(\<forall>b' m. V h1 b' m = (if b' = b \<and> first_reg b \<le> m \<and> m < first_reg b + n then v else V h b' m)) \<and> R h1 = R h \<and> C h1 = C h"
    using Suc.IH [OF _ h1_def] Suc.prems(1) by simp
  have n: "n < spi_regs num b" using Suc.prems(1) by simp
  have reg: "spi_reg num b (first_reg b + n)" using n by (simp add: spi_reg_iff [OF num_facts(2,3)])
  have "h' = ?f (of_nat (32 + 2 ^ bank_shift b * n)) h1"
    unfolding Suc.prems(2) h1_def by (simp del: of_nat_add of_nat_mult)
  then have h': "h' = bus_write32 B (gicd_reg base b (first_reg b + n)) v h1"
    by (simp add: bank_reg_spi [OF spi_regs_bound [OF num_facts(1) n]] mmio_write_32_def del: of_nat_add of_nat_mult)
  show ?case using write_reg [OF reg h'] IH b by (auto simp: set_reg_def)
qed auto

lemma fill_bank:
  assumes "\<not> sets_bits b"
    and "h' = fold (\<lambda>i. mmio_write_32 B (bank_reg base (bank_off b) (bank_shift b) i) v) (irq_range 32 num (2 ^ bank_shift b)) h"
  shows "(\<forall>b' m. V h' b' m = (if b' = b \<and> spi_reg num b m then v else V h b' m)) \<and> R h' = R h \<and> C h' = C h"
  using fill_from [OF assms(1) order_refl assms(2) [unfolded spi_range [OF num_facts(2,3)]]]
  by (simp add: spi_reg_iff [OF num_facts(2,3)])

lemma defaults_regs:
  "V (gicv3_spis_configure_defaults B base h) b m = (if \<not> spi_reg num b m then V h b m else if b = Icfgr then 0
      else if b = Ipriorityr then 0x80808080 else if b = Igroupr then NOT 0 else V h b m)"
  "R (gicv3_spis_configure_defaults B base h) = R h" "C (gicv3_spis_configure_defaults B base h) = C h"
proof -
  let ?h1 = "fold (\<lambda>i. gicd_write_igroupr B base i (NOT 0)) (irq_range 32 num 32) h"
  let ?h2 = "fold (\<lambda>i. gicd_write_ipriorityr B base i 0x80808080) (irq_range 32 num 4) ?h1"
  let ?h3 = "fold (\<lambda>i. gicd_write_icfgr B base i 0) (irq_range 32 num 16) ?h2"
  have d: "gicv3_spis_configure_defaults B base h = ?h3"
    by (simp add: gicv3_spis_configure_defaults_def gicd_read_typer_def mmio_read_32_def read_typer [simplified] Let_def)
  note f1 = fill_bank [where b = Igroupr and h = h and h' = ?h1 and v = "NOT 0"]
    and f2 = fill_bank [where b = Ipriorityr and h = ?h1 and h' = ?h2 and v = "0x80808080"]
    and f3 = fill_bank [where b = Icfgr and h = ?h2 and h' = ?h3 and v = "0"]
  show "V (gicv3_spis_configure_defaults B base h) b m = (if \<not> spi_reg num b m then V h b m else if b = Icfgr then 0
      else if b = Ipriorityr then 0x80808080 else if b = Igroupr then NOT 0 else V h b m)"
    "R (gicv3_spis_configure_defaults B base h) = R h" "C (gicv3_spis_configure_defaults B base h) = C h"
    unfolding d using f1 f2 f3 by (simp_all add: sets_bits_def gicd_writes)
qed

lemma defaults:
  assumes "32 \<le> i" "i < num"
  shows "spi (gicv3_spis_configure_defaults B base h) i = (spi h i)\<lparr>spi_group1ns := True, spi_priority := 0x80, spi_config := 0\<rparr>"
proof -
  have "bit (NOT 0 :: u32) (i mod 32)" by (simp add: bit_simps)
  moreover have "i mod 4 \<in> {0, 1, 2, 3}" by auto
  then have "ucast (drop_bit (8 * (i mod 4)) (0x80808080 :: u32)) = (0x80 :: u8)" by auto
  ultimately show ?thesis
    using spi_reg_irq [OF assms, of Igroupr] spi_reg_irq [OF assms, of Ipriorityr] spi_reg_irq [OF assms, of Icfgr]
    unfolding spi_def spi_of_def defaults_regs by simp
qed

lemma ctlr_exact:
  "\<exists>h'. gicd_clr_ctlr B base m True h = Some h' \<and> V h' = V h \<and> R h' = R h \<and> C h' = C h AND NOT m"
  "\<exists>h'. gicd_set_ctlr B base m True h = Some h' \<and> V h' = V h \<and> R h' = R h \<and> C h' = C h OR (m AND NOT GICD_CTLR_RWP_BIT)"
proof -
  obtain r h1 where rd: "bus_read32 B (base + GICD_CTLR) h = (r, h1)" by fastforce
  have w: "\<exists>h'. gicd_wait_for_pending_write B base (bus_write32 B (base + GICD_CTLR) v h1) = Some h' \<and> V h' = V h \<and> R h' = R h
      \<and> C h' = v AND NOT GICD_CTLR_RWP_BIT" for v
    using wait_ctlr [of "bus_write32 B (base + GICD_CTLR) v h1"] read_control [OF rd] write_control [OF refl, of v h1] by auto
  have c: "C h = r AND NOT GICD_CTLR_RWP_BIT" using read_control [OF rd] by simp
  show "\<exists>h'. gicd_clr_ctlr B base m True h = Some h' \<and> V h' = V h \<and> R h' = R h \<and> C h' = C h AND NOT m"
    using w [of "r AND NOT m"] rd unfolding c
    by (simp add: gicd_clr_ctlr_def gicd_read_ctlr_def gicd_write_ctlr_def mmio_read_32_def mmio_write_32_def and.assoc and.commute and.left_commute)
  show "\<exists>h'. gicd_set_ctlr B base m True h = Some h' \<and> V h' = V h \<and> R h' = R h \<and> C h' = C h OR (m AND NOT GICD_CTLR_RWP_BIT)"
    using w [of "r OR m"] rd unfolding c
    by (simp add: gicd_set_ctlr_def gicd_read_ctlr_def gicd_write_ctlr_def mmio_read_32_def mmio_write_32_def bit.conj_disj_distrib2)
qed

lemma prop_groups_rwp: "prop_groups ps AND NOT GICD_CTLR_RWP_BIT = prop_groups ps"
  by (induction ps) (simp_all add: bit.conj_disj_distrib2)

lemma distif_init_spis:
  assumes d: "gicv3_driver_data g = Some d" "gicd_base d = base" "interrupt_props d = Some props"
    and p: "\<forall>p \<in> set props. unat (intr_num p) < num"
  shows "\<exists>h'. gicv3_distif_init B g = Some (g\<lparr>hw := h'\<rparr>) \<and>
    (\<forall>i. 32 \<le> i \<and> i < num \<longrightarrow> spi h' i = (case prop_for props i of
        None \<Rightarrow> (spi (hw g) i)\<lparr>spi_group1ns := True, spi_priority := 0x80, spi_config := 0\<rparr>
      | Some p \<Rightarrow> secure_spi p (icc_mpidr_el1 (icc g)))) \<and>
    C h' = ((C (hw g) AND NOT 7) OR 0x30) OR prop_groups props"
proof -
  obtain h1 where h1: "gicd_clr_ctlr B base 7 True (hw g) = Some h1" "V h1 = V (hw g)" "R h1 = R (hw g)" "C h1 = C (hw g) AND NOT 7"
    using ctlr_exact(1) by blast
  obtain h2 where h2: "gicd_set_ctlr B base 0x30 True h1 = Some h2" "V h2 = V h1" "R h2 = R h1" "C h2 = C h1 OR 0x30"
    using ctlr_exact(2) [of "0x30" h1] by auto
  let ?h3 = "gicv3_spis_configure_defaults B base h2"
  obtain e h4 where h4: "fold (secure_spi_prop B base (icc_mpidr_el1 (icc g))) props (0, ?h3) = (e, h4)" by fastforce
  have s: "spi h4 i = (case prop_for props i of None \<Rightarrow> spi ?h3 i | Some p \<Rightarrow> secure_spi p (icc_mpidr_el1 (icc g)))"
    "C h4 = C ?h3" "e = prop_groups props" if "32 \<le> i" for i
    using spi_props [OF p that, of "icc_mpidr_el1 (icc g)" 0 ?h3] h4 by simp_all
  obtain h5 where h5: "gicd_set_ctlr B base e True h4 = Some h5" "V h5 = V h4" "R h5 = R h4" "C h5 = C h4 OR (e AND NOT GICD_CTLR_RWP_BIT)"
    using ctlr_exact(2) by blast
  have run: "gicv3_distif_init B g = Some (g\<lparr>hw := h5\<rparr>)"
    using d h1(1) h2(1) h4 h5(1) by (simp add: gicv3_distif_init_def gicv3_secure_spis_configure_props_def)
  have e: "e = prop_groups props" "C h4 = C ?h3" using s [of 32] by simp_all
  have spis: "spi h5 i = (case prop_for props i of
        None \<Rightarrow> (spi (hw g) i)\<lparr>spi_group1ns := True, spi_priority := 0x80, spi_config := 0\<rparr>
      | Some p \<Rightarrow> secure_spi p (icc_mpidr_el1 (icc g)))" if "32 \<le> i" "i < num" for i
    using s(1) [OF that(1)] defaults [OF that, of h2] h1 h2 h5 by (simp add: spi_def split: option.split)
  have "C h5 = ((C (hw g) AND NOT 7) OR 0x30) OR prop_groups props"
    using h5(4) e defaults_regs(3) [of h2] h2(4) h1(4) prop_groups_rwp [of props] by simp
  then show ?thesis using run spis by blast
qed

end

end
