(* ===== verification/Gic_Theorems.thy ===== *)
theory Gic_Theorems
  imports Gic_Spi
begin

text \<open>
  Properties of the GICv3 driver: saving and restoring the Distributor, its initialisation, the type
  of an interrupt, and the search for the Redistributors.
\<close>

subsection \<open>Lemmas\<close>

context gicd_exact
begin

text \<open>The group of an SPI, as the driver reads it.\<close>

lemma get_type:
  assumes irq: "32 \<le> unat irq" "unat irq < num" and d: "gicv3_driver_data g = Some d" "gicd_base d = base"
  shows "gicv3_get_interrupt_type B irq p g = Some (if spi_group1ns (spi (hw g) (unat irq)) then INTR_GROUP1NS
    else if spi_modifier (spi (hw g) (unat irq)) then INTR_GROUP1S else INTR_GROUP0, g)"
proof -
  have i: "unat irq < 1024" using irq num_facts by simp
  note reg = spi_reg_irq [OF irq]
  have nz: "drop_bit n x AND 1 \<noteq> 0 \<longleftrightarrow> bit x n" for n and x :: u32
    by (simp add: and_one_eq bit_iff_odd_drop_bit odd_iff_mod_2_eq_one)
  have ge: "\<not> irq < 32" "\<not> 8192 \<le> irq" using irq i by (simp_all add: word_less_nat_alt word_le_nat_alt)
  note rd = read_reg [OF reg [of Igroupr, simplified]] read_reg [OF reg [of Igrpmodr, simplified]]
  show ?thesis
    using ge d
    by (simp add: gicv3_get_interrupt_type_def gicd_get_igroupr_def gicd_get_igrpmodr_def gicd_read_igroupr_def gicd_read_igrpmodr_def
        mmio_read_32_def bank_reg_irq [OF irq(1) i] irq_fields(2) [OF irq(1) i] rd nz spi_def spi_of_def)
qed

lemma set_type:
  assumes irq: "32 \<le> unat irq" "unat irq < num" and d: "gicv3_driver_data g = Some d" "gicd_base d = base" and l: "\<not> gic_lock g"
  shows "\<exists>h'. gicv3_set_interrupt_type B irq p t g = Some (g\<lparr>hw := h'\<rparr>) \<and>
    spi h' = (spi (hw g))(unat irq := (spi (hw g) (unat irq))\<lparr>spi_group1ns := fst (group_bits t), spi_modifier := snd (group_bits t)\<rparr>) \<and>
    C h' = C (hw g)"
proof -
  obtain a b where t: "group_bits t = (a, b)" by fastforce
  let ?h1 = "if a then gicd_set_igroupr B base irq (hw g) else gicd_clr_igroupr B base irq (hw g)"
  let ?h2 = "if b then gicd_set_igrpmodr B base irq ?h1 else gicd_clr_igrpmodr B base irq ?h1"
  have ge: "\<not> irq < 32" using irq by (simp add: word_less_nat_alt)
  have "g\<lparr>hw := x, gic_lock := False\<rparr> = g\<lparr>hw := x\<rparr>" for x using l by (cases g) simp
  then have "gicv3_set_interrupt_type B irq p t g = Some (g\<lparr>hw := ?h2\<rparr>)"
    using ge d l by (simp add: gicv3_set_interrupt_type_def t spin_lock_gic_def spin_unlock_gic_def on_hw_def)
  then show ?thesis by (intro exI [of _ ?h2]) (simp add: t spi_ops [OF irq] op_control [OF irq])
qed

end

lemma num_overrun: "992 < num_ints_of t \<Longrightarrow> num_ints_of t = 1024"
proof -
  assume "992 < num_ints_of t"
  moreover obtain q where "num_ints_of t = 32 * q" using num_ints_le(2) by (auto elim: dvdE)
  ultimately show ?thesis using num_ints_le(1) [of t] by simp
qed


text \<open>A chain of \<open>n\<close> Redistributor frames of 128 KiB, of which the last one alone says that it is the last.\<close>

definition rdist_frame :: "u64 \<Rightarrow> nat \<Rightarrow> u64" where
  "rdist_frame base k = base + of_nat k * 0x20000"

definition rdist_chain :: "'h bus \<Rightarrow> u64 \<Rightarrow> (nat \<Rightarrow> u64) \<Rightarrow> nat \<Rightarrow> bool" where
  "rdist_chain B base ty n \<longleftrightarrow> 0 < n \<and>
     (\<forall>k < n. (\<forall>h. bus_read64 B (rdist_frame base k + GICR_TYPER) h = (ty k, h)) \<and>
       (ty k AND TYPER_LAST_BIT = 0 \<longleftrightarrow> k \<noteq> n - 1))"

definition rdist_pos :: "(u64 \<Rightarrow> nat) option \<Rightarrow> u64 \<Rightarrow> nat" where
  "rdist_pos mpidr_to_pos ty = (case mpidr_to_pos of Some f \<Rightarrow> f (mpidr_from_gicr_typer ty) | None \<Rightarrow> unat (drop_bit 8 ty AND 0xffff))"

lemma probe_from:
  assumes c: "rdist_chain B base ty n"
  shows "k < n \<Longrightarrow> \<forall>j < n. rdist_pos f (ty j) < length addrs \<Longrightarrow>
    gicv3_rdistif_base_addrs_probe B f addrs (rdist_frame base k) h =
      Some (fold (\<lambda>j a. a[rdist_pos f (ty j) := rdist_frame base j]) [k..<n] addrs, h)"
proof (induction "n - k" arbitrary: k addrs)
  case (Suc d)
  have rd: "gicr_read_typer B (rdist_frame base k) h = (ty k, h)"
    and last: "ty k AND TYPER_LAST_BIT = 0 \<longleftrightarrow> k \<noteq> n - 1"
    using c Suc.prems(1) by (simp_all add: rdist_chain_def gicr_read_typer_def mmio_read_64_def)
  have nxt: "rdist_frame base k + push_bit 17 1 = rdist_frame base (Suc k)"
    by (simp add: rdist_frame_def algebra_simps)
  have pos: "(case f of None \<Rightarrow> unat (drop_bit 8 (ty k) AND 0xffff) | Some f \<Rightarrow> f (mpidr_from_gicr_typer (ty k))) = rdist_pos f (ty k)"
    by (simp add: rdist_pos_def)
  let ?addrs = "addrs[rdist_pos f (ty k) := rdist_frame base k]"
  have step: "gicv3_rdistif_base_addrs_probe B f addrs (rdist_frame base k) h =
    (if rdist_pos f (ty k) < length addrs
     then if ty k AND TYPER_LAST_BIT = 0 then gicv3_rdistif_base_addrs_probe B f ?addrs (rdist_frame base (Suc k)) h else Some (?addrs, h)
     else None)"
    by (subst gicv3_rdistif_base_addrs_probe.simps) (simp only: rd pos nxt Let_def split_conv)
  show ?case
  proof (cases "k = n - 1")
    case True
    then have "[k..<n] = [k]" using Suc.prems(1) by (simp add: upt_conv_Cons)
    then show ?thesis unfolding step using True Suc.prems last by simp
  next
    case False
    then have k: "Suc k < n" using Suc.prems(1) by simp
    have "gicv3_rdistif_base_addrs_probe B f ?addrs (rdist_frame base (Suc k)) h =
      Some (fold (\<lambda>j a. a[rdist_pos f (ty j) := rdist_frame base j]) [Suc k..<n] ?addrs, h)"
      using Suc.hyps k Suc.prems(2) by (intro Suc.hyps(1)) simp_all
    then show ?thesis unfolding step using False Suc.prems last by (simp add: upt_conv_Cons)
  qed
qed simp

lemma fold_update_length: "length (fold (\<lambda>j a. a[p j := v j]) ks a) = length a"
  by (induction ks arbitrary: a) simp_all

lemma fold_update_nth:
  assumes "inj_on p (set ks)" "\<forall>j \<in> set ks. p j < length a" "j \<in> set ks" "distinct ks"
  shows "fold (\<lambda>j a. a[p j := v j]) ks a ! p j = v j"
  using assms
proof (induction ks rule: rev_induct)
  case (snoc k ks)
  have inj: "inj_on p (set ks)" using snoc.prems(1) by (simp add: inj_on_def)
  show ?case
  proof (cases "j = k")
    case True then show ?thesis using snoc.prems by (simp add: fold_update_length)
  next
    case False
    then have "p j \<noteq> p k" using inj_onD [OF snoc.prems(1), of j k] snoc.prems(3) by auto
    then show ?thesis using snoc.IH [OF inj] snoc.prems False by simp
  qed
qed simp

lemma fold_update_other: "\<forall>j \<in> set ks. p j \<noteq> q \<Longrightarrow> fold (\<lambda>j a. a[p j := v j]) ks a ! q = a ! q"
  by (induction ks arbitrary: a) simp_all

subsection \<open>Save and restore\<close>

text \<open>
  C22: A Distributor saved with \<open>gicv3_distif_save\<close> and restored with \<open>gicv3_distif_init_restore\<close> after it lost its
  state has the same registers of all SPIs, the same routing and the same control register: for every Distributor whose
  registers take back what was read from them, with at most 992 interrupts, and for every state after the loss
  in which no SPI is enabled, pending or active. Both calls come back.
\<close>

theorem distif_save_restore:
  assumes "gicd_writeback B base typer V R C pend" "gicv3_driver_data g = Some d" "gicd_base d = base"
    and "dist_ctx_sized ctx" "num_ints_of typer \<le> 992"
  shows "\<exists>c h1. gicv3_distif_save B ctx g = Some (c, g\<lparr>hw := h1\<rparr>) \<and>
    (\<forall>h. (\<forall>b n. sets_bits b \<and> spi_reg (num_ints_of typer) b n \<longrightarrow> V h b n = 0) \<longrightarrow>
      (\<exists>h'. gicv3_distif_init_restore B c (g\<lparr>hw := h\<rparr>) = Some (g\<lparr>hw := h'\<rparr>) \<and>
        (\<forall>b n. spi_reg (num_ints_of typer) b n \<longrightarrow> V h' b n = V (hw g) b n) \<and>
        (\<forall>i. 32 \<le> i \<and> i < num_ints_of typer \<longrightarrow> R h' i = R (hw g) i) \<and> C h' = C (hw g)))"
proof -
  note regs = gicd_writeback.axioms(1) [OF assms(1)]
  obtain c h1 where s: "gicv3_distif_save B ctx g = Some (c, g\<lparr>hw := h1\<rparr>)"
    "saved (num_ints_of typer) (V (hw g)) (R (hw g)) (C (hw g)) c"
    using gicd_regs.distif_save_saved [OF regs assms(2-5)] by blast
  have "\<exists>h'. gicv3_distif_init_restore B c (g\<lparr>hw := h\<rparr>) = Some (g\<lparr>hw := h'\<rparr>) \<and>
        (\<forall>b n. spi_reg (num_ints_of typer) b n \<longrightarrow> V h' b n = V (hw g) b n) \<and>
        (\<forall>i. 32 \<le> i \<and> i < num_ints_of typer \<longrightarrow> R h' i = R (hw g) i) \<and> C h' = C (hw g)"
    if "\<forall>b n. sets_bits b \<and> spi_reg (num_ints_of typer) b n \<longrightarrow> V h b n = 0" for h
    using gicd_writeback.distif_restore_saved [OF assms(1) _ assms(3) s(2), of "g\<lparr>hw := h\<rparr>"] assms(2) that by simp
  then show ?thesis using s(1) by blast
qed

text \<open>A driver for the Distributor model, a Distributor with two SPIs configured, and one that has lost its state.\<close>

definition ex_data :: gicv3_driver_data where
  "ex_data = \<lparr> gicd_base = 0xd1d00000, gicr_base = 0xd1d40000, g0_interrupt_array = None, g1s_interrupt_array = None,
     interrupt_props = Some [\<lparr> intr_num = 40, intr_pri = 0x20, intr_grp = INTR_GROUP0, intr_cfg = 2 \<rparr>],
     rdistif_num = 2, mpidr_to_core_pos = None \<rparr>"

definition ex_icc :: icc_regs where
  "ex_icc = \<lparr> icc_scr_el3 = 0, icc_sre_el3 = 0, icc_sre_el2 = 0, icc_sre_el1_s = 0, icc_sre_el1_ns = 0, icc_pmr_el1 = 0,
     icc_igrpen0_el1 = 0, icc_igrpen1_el3 = 0, icc_hppir0_el1 = 0, icc_hppir1_el1 = 0, icc_rpr_el1 = 0, icc_sgi0r_el1 = [],
     icc_mpidr_el1 = 0x80000001 \<rparr>"

definition ex_gic :: "'h \<Rightarrow> 'h gicv3" where
  "ex_gic h = \<lparr> hw = h, gicv3_driver_data = Some ex_data, rdistif_base_addrs = [0, 0], gicv2_compat = 0, gic_lock = False, icc = ex_icc \<rparr>"

definition ex_reset :: dist_hw where
  "ex_reset = \<lparr> dist_regs = (\<lambda>b n. 0), dist_routes = (\<lambda>i. 0), dist_ctlr = 0, dist_pend = 0 \<rparr>"

definition ex_dist :: dist_hw where
  "ex_dist = \<lparr> dist_regs = (\<lambda>b n. if b = Igroupr \<and> n = 1 then 0xfffffffe else if b = Isenabler \<and> n = 1 then 0x3 else 0),
     dist_routes = (\<lambda>i. if i = 32 then 1 else 0), dist_ctlr = 0x37, dist_pend = 1 \<rparr>"

definition ex_ctx :: gicv3_dist_ctx where
  "ex_ctx = \<lparr> gicd_irouter = replicate 988 0, gicd_ctlr = 0, gicd_igroupr = replicate 31 0, gicd_isenabler = replicate 31 0,
     gicd_ispendr = replicate 31 0, gicd_isactiver = replicate 31 0, gicd_ipriorityr = replicate 247 0,
     gicd_icfgr = replicate 62 0, gicd_igrpmodr = replicate 31 0, gicd_nsacr = replicate 62 0 \<rparr>"

lemma ex_facts [simp]:
  "gicv3_driver_data (ex_gic h) = Some ex_data" "gicd_base ex_data = 0xd1d00000" "hw (ex_gic h) = h" "gic_lock (ex_gic h) = False"
  "(ex_gic h)\<lparr>hw := h'\<rparr> = ex_gic h'" "icc (ex_gic h) = ex_icc" "icc_mpidr_el1 ex_icc = 0x80000001"
  "dist_ctx_sized ex_ctx" "num_ints_of 1 = 64"
  by (simp_all add: ex_gic_def ex_data_def ex_icc_def dist_ctx_sized_def ex_ctx_def GICD_NUM_REGS_def num_ints_of_def)

theorem distif_save_restore_witness:
  "\<exists>c h1 h'. gicv3_distif_save (dist_bus 0xd1d00000 1) ex_ctx (ex_gic ex_dist) = Some (c, ex_gic h1) \<and>
     gicv3_distif_init_restore (dist_bus 0xd1d00000 1) c (ex_gic ex_reset) = Some (ex_gic h') \<and>
     dist_regs h' Igroupr 1 = 0xfffffffe \<and> dist_regs h' Isenabler 1 = 3 \<and> dist_routes h' 32 = 1 \<and>
     dist_ctlr h' AND NOT GICD_CTLR_RWP_BIT = 0x37"
proof -
  obtain c h1 where c: "gicv3_distif_save (dist_bus 0xd1d00000 1) ex_ctx (ex_gic ex_dist) = Some (c, ex_gic h1)"
    and r: "\<forall>h. (\<forall>b n. sets_bits b \<and> spi_reg 64 b n \<longrightarrow> dist_regs h b n = 0) \<longrightarrow>
      (\<exists>h'. gicv3_distif_init_restore (dist_bus 0xd1d00000 1) c (ex_gic h) = Some (ex_gic h') \<and>
        (\<forall>b n. spi_reg 64 b n \<longrightarrow> dist_regs h' b n = dist_regs ex_dist b n) \<and>
        (\<forall>i. 32 \<le> i \<and> i < 64 \<longrightarrow> dist_routes h' i = dist_routes ex_dist i) \<and>
        dist_ctlr h' AND NOT GICD_CTLR_RWP_BIT = dist_ctlr ex_dist AND NOT GICD_CTLR_RWP_BIT)"
    using distif_save_restore [OF dist.gicd_writeback_axioms [of "0xd1d00000" 1], of "ex_gic ex_dist" ex_data ex_ctx] by auto
  have z: "\<forall>b n. sets_bits b \<and> spi_reg 64 b n \<longrightarrow> dist_regs ex_reset b n = 0" by (simp add: ex_reset_def)
  obtain h' where h': "gicv3_distif_init_restore (dist_bus 0xd1d00000 1) c (ex_gic ex_reset) = Some (ex_gic h')"
     "\<forall>b n. spi_reg 64 b n \<longrightarrow> dist_regs h' b n = dist_regs ex_dist b n"
     "\<forall>i. 32 \<le> i \<and> i < 64 \<longrightarrow> dist_routes h' i = dist_routes ex_dist i"
     "dist_ctlr h' AND NOT GICD_CTLR_RWP_BIT = dist_ctlr ex_dist AND NOT GICD_CTLR_RWP_BIT"
    using r [THEN spec, THEN mp, OF z] by blast
  have "spi_reg 64 Igroupr 1" "spi_reg 64 Isenabler 1" by (simp_all add: spi_reg_def)
  then have "dist_regs h' Igroupr 1 = 0xfffffffe" "dist_regs h' Isenabler 1 = 3" "dist_routes h' 32 = 1"
    "dist_ctlr h' AND NOT GICD_CTLR_RWP_BIT = 0x37"
    using h'(2-4) by (simp_all add: ex_dist_def)
  then show ?thesis using c h'(1) by blast
qed

text \<open>
  C26: \<open>gicv3_distif_save\<close> stays inside the arrays of its context exactly when the Distributor has at most 992
  interrupts. A Distributor that reports the architectural maximum in its type register, 1024 interrupts, makes the loops run
  past the 988 entries that the context has.
\<close>

theorem distif_save_in_bounds:
  assumes "gicd_regs B base typer V R C pend" "gicv3_driver_data g = Some d" "gicd_base d = base" "dist_ctx_sized ctx"
  shows "gicv3_distif_save B ctx g \<noteq> None \<longleftrightarrow> num_ints_of typer \<le> 992"
proof
  show "gicv3_distif_save B ctx g \<noteq> None" if "num_ints_of typer \<le> 992"
    using gicd_regs.distif_save_saved [OF assms that] by fastforce
next
  have t: "gicd_read_typer B base h = (typer, h)" for h
    using gicd_regs.typer [OF assms(1)] by (simp add: gicd_read_typer_def mmio_read_32_def)
  show "num_ints_of typer \<le> 992" if ok: "gicv3_distif_save B ctx g \<noteq> None"
  proof (rule ccontr)
    assume "\<not> num_ints_of typer \<le> 992"
    then have "length (gicd_irouter ctx) < num_ints_of typer - 32"
      using num_overrun [of typer] assms(4) by (simp add: dist_ctx_sized_def)
    then have "SAVE_GICD_REGS (gicd_read_irouter B base) (num_ints_of typer) 0 (gicd_irouter ctx) h = None" for h
      by (rule gicd_regs.save_routers_overrun [OF assms(1)])
    then have "gicv3_distif_save B ctx g = None"
      using assms(2,3) by (auto simp: gicv3_distif_save_def t Let_def split: Option.bind_splits prod.splits)
    then show False using ok by simp
  qed
qed

theorem distif_save_in_bounds_witness:
  "gicv3_distif_save (dist_bus 0xd1d00000 1) ex_ctx (ex_gic ex_dist) \<noteq> None \<and>
   gicv3_distif_save (dist_bus 0xd1d00000 0x1f) ex_ctx (ex_gic ex_dist) = None"
proof -
  have "num_ints_of 0x1f = 1024" by (simp add: num_ints_of_def)
  then show ?thesis
    using distif_save_in_bounds [OF dist.gicd_regs_axioms [of "0xd1d00000" 1], of "ex_gic ex_dist" ex_data ex_ctx]
      distif_save_in_bounds [OF dist.gicd_regs_axioms [of "0xd1d00000" "0x1f"], of "ex_gic ex_dist" ex_data ex_ctx]
    by (simp del: not_None_eq)
qed

subsection \<open>Configuration\<close>

text \<open>
  C23: \<open>gicv3_distif_init\<close> comes back and leaves every SPI either as the last of the platform's interrupt properties for it
  asks (secure, in its group, with its priority and trigger, routed to the calling CPU and enabled), or, when no property names it,
  as a non-secure Group 1 interrupt of priority 0x80, level triggered. Affinity routing is on, and of the
  interrupt groups exactly those of the configured secure interrupts are enabled.
\<close>

theorem distif_init_configures:
  assumes "gicd_exact B base typer V R C pend" "gicv3_driver_data g = Some d" "gicd_base d = base" "interrupt_props d = Some props"
    and "\<forall>p \<in> set props. unat (intr_num p) < num_ints_of typer"
  shows "\<exists>h'. gicv3_distif_init B g = Some (g\<lparr>hw := h'\<rparr>) \<and>
    (\<forall>i. 32 \<le> i \<and> i < num_ints_of typer \<longrightarrow> spi_of (V h') (R h') i = (case prop_for props i of
        None \<Rightarrow> (spi_of (V (hw g)) (R (hw g)) i)\<lparr>spi_group1ns := True, spi_priority := 0x80, spi_config := 0\<rparr>
      | Some p \<Rightarrow> secure_spi p (icc_mpidr_el1 (icc g)))) \<and>
    C h' = ((C (hw g) AND NOT 7) OR 0x30) OR prop_groups props"
  using gicd_exact.distif_init_spis [OF assms] unfolding gicd_exact.spi_def [OF assms(1)] .

theorem distif_init_configures_witness:
  "\<exists>h'. gicv3_distif_init (dist_bus 0xd1d00000 1) (ex_gic ex_dist) = Some (ex_gic h') \<and>
     spi_of (dist_regs h') (dist_routes h') 40 = \<lparr> spi_group1ns = False, spi_modifier = False, spi_enabled = True,
       spi_priority = 0x20, spi_config = 2, spi_route = 1 \<rparr> \<and>
     spi_of (dist_regs h') (dist_routes h') 32 = \<lparr> spi_group1ns = True, spi_modifier = False, spi_enabled = True,
       spi_priority = 0x80, spi_config = 0, spi_route = 1 \<rparr> \<and>
     dist_ctlr h' AND NOT GICD_CTLR_RWP_BIT = 0x31"
proof -
  let ?props = "[\<lparr> intr_num = 40, intr_pri = 0x20, intr_grp = INTR_GROUP0, intr_cfg = 2 \<rparr>]"
  have p: "interrupt_props ex_data = Some ?props" by (simp add: ex_data_def)
  obtain h' where h': "gicv3_distif_init (dist_bus 0xd1d00000 1) (ex_gic ex_dist) = Some (ex_gic h')"
    "\<forall>i. 32 \<le> i \<and> i < 64 \<longrightarrow> spi_of (dist_regs h') (dist_routes h') i = (case prop_for ?props i of
        None \<Rightarrow> (spi_of (dist_regs ex_dist) (dist_routes ex_dist) i)\<lparr>spi_group1ns := True, spi_priority := 0x80, spi_config := 0\<rparr>
      | Some p \<Rightarrow> secure_spi p 0x80000001)"
    "dist_ctlr h' AND NOT GICD_CTLR_RWP_BIT = (((dist_ctlr ex_dist AND NOT GICD_CTLR_RWP_BIT) AND NOT 7) OR 0x30) OR prop_groups ?props"
    using distif_init_configures [OF dist.gicd_exact_axioms [of "0xd1d00000" 1], of "ex_gic ex_dist" ex_data ?props, unfolded ex_facts] p by auto
  have "spi_of (dist_regs h') (dist_routes h') 40 = secure_spi (hd ?props) 0x80000001"
    using h'(2) [THEN spec, of 40] by (simp add: prop_for_def)
  moreover have "spi_of (dist_regs h') (dist_routes h') 32 =
      (spi_of (dist_regs ex_dist) (dist_routes ex_dist) 32)\<lparr>spi_group1ns := True, spi_priority := 0x80, spi_config := 0\<rparr>"
    using h'(2) [THEN spec, of 32] by (simp add: prop_for_def)
  ultimately show ?thesis using h'(1,3)
    by (intro exI [of _ h']) (simp add: secure_spi_def gicd_irouter_val_from_mpidr_def spi_of_def ex_dist_def)
qed

text \<open>
  C25: The type that \<open>gicv3_set_interrupt_type\<close> gives an SPI is the type that \<open>gicv3_get_interrupt_type\<close> reads back
  (a value that is no group selects Group 0), every other SPI keeps its type, and the lock of the driver is free again.
\<close>

theorem interrupt_type_roundtrip:
  assumes "gicd_exact B base typer V R C pend" "gicv3_driver_data g = Some d" "gicd_base d = base" "\<not> gic_lock g"
    and "32 \<le> unat irq" "unat irq < num_ints_of typer"
  shows "\<exists>g'. gicv3_set_interrupt_type B irq proc t g = Some g' \<and> \<not> gic_lock g' \<and>
    gicv3_get_interrupt_type B irq proc' g' = Some (if t = INTR_GROUP1S \<or> t = INTR_GROUP1NS then t else INTR_GROUP0, g') \<and>
    (\<forall>j. 32 \<le> unat j \<and> unat j < num_ints_of typer \<and> j \<noteq> irq \<longrightarrow>
      map_option fst (gicv3_get_interrupt_type B j proc' g') = map_option fst (gicv3_get_interrupt_type B j proc' g))"
proof -
  note get = gicd_exact.get_type [OF assms(1)]
  obtain h' where h': "gicv3_set_interrupt_type B irq proc t g = Some (g\<lparr>hw := h'\<rparr>)"
    "gicd_exact.spi V R h' = (gicd_exact.spi V R (hw g))(unat irq :=
      (gicd_exact.spi V R (hw g) (unat irq))\<lparr>spi_group1ns := fst (group_bits t), spi_modifier := snd (group_bits t)\<rparr>)"
    using gicd_exact.set_type [OF assms(1,5,6,2,3,4)] by blast
  let ?g = "g\<lparr>hw := h'\<rparr>"
  have d: "gicv3_driver_data ?g = Some d" using assms(2) by simp
  have "gicv3_get_interrupt_type B irq proc' ?g = Some (if t = INTR_GROUP1S \<or> t = INTR_GROUP1NS then t else INTR_GROUP0, ?g)"
    using get [OF assms(5,6) d assms(3), of proc'] by (simp add: h'(2) group_bits_def)
  moreover have "map_option fst (gicv3_get_interrupt_type B j proc' ?g) = map_option fst (gicv3_get_interrupt_type B j proc' g)"
    if "32 \<le> unat j" "unat j < num_ints_of typer" "j \<noteq> irq" for j
    using get [OF that(1,2) d assms(3), of proc'] get [OF that(1,2) assms(2,3), of proc'] that(3)
    by (simp add: h'(2) word_unat_eq_iff)
  ultimately show ?thesis using h'(1) assms(4) by (intro exI [of _ ?g]) simp
qed

theorem interrupt_type_roundtrip_witness:
  "\<exists>g'. gicv3_set_interrupt_type (dist_bus 0xd1d00000 1) 40 0 INTR_GROUP1S (ex_gic ex_dist) = Some g' \<and> \<not> gic_lock g' \<and>
    gicv3_get_interrupt_type (dist_bus 0xd1d00000 1) 40 0 g' = Some (INTR_GROUP1S, g') \<and>
    map_option fst (gicv3_get_interrupt_type (dist_bus 0xd1d00000 1) 41 0 g') =
      map_option fst (gicv3_get_interrupt_type (dist_bus 0xd1d00000 1) 41 0 (ex_gic ex_dist))"
  using interrupt_type_roundtrip [OF dist.gicd_exact_axioms [of "0xd1d00000" 1], of "ex_gic ex_dist" ex_data 40 0 INTR_GROUP1S 0]
  by fastforce

text \<open>
  C24: The search for the Redistributors comes back on every chain of frames that ends with a frame marked last. When the frames belong to
  different CPUs of the platform, the entry of each CPU is the address of its frame, and
  the entries of CPUs that have no frame keep their value.
\<close>

theorem rdistif_probe_finds_all:
  assumes "rdist_chain B base ty n" "\<forall>k < n. rdist_pos f (ty k) < length addrs"
    and "inj_on (\<lambda>k. rdist_pos f (ty k)) {0..<n}"
  shows "\<exists>addrs'. gicv3_rdistif_base_addrs_probe B f addrs base h = Some (addrs', h) \<and> length addrs' = length addrs \<and>
    (\<forall>k < n. addrs' ! rdist_pos f (ty k) = rdist_frame base k) \<and>
    (\<forall>p < length addrs. (\<forall>k < n. rdist_pos f (ty k) \<noteq> p) \<longrightarrow> addrs' ! p = addrs ! p)"
proof -
  let ?a = "fold (\<lambda>j a. a[rdist_pos f (ty j) := rdist_frame base j]) [0..<n] addrs"
  have "0 < n" "rdist_frame base 0 = base" using assms(1) by (simp_all add: rdist_chain_def rdist_frame_def)
  then have "gicv3_rdistif_base_addrs_probe B f addrs base h = Some (?a, h)"
    using probe_from [OF assms(1), of 0 f addrs h] assms(2) by simp
  moreover have "?a ! rdist_pos f (ty k) = rdist_frame base k" if "k < n" for k
    using fold_update_nth [of "\<lambda>k. rdist_pos f (ty k)" "[0..<n]" addrs k "rdist_frame base"] assms(2,3) that by simp
  moreover have "?a ! p = addrs ! p" if "\<forall>k < n. rdist_pos f (ty k) \<noteq> p" for p
    using that by (intro fold_update_other) simp
  ultimately show ?thesis by (intro exI [of _ ?a]) (simp add: fold_update_length)
qed

text \<open>Two Redistributors, of the CPUs 1 and 0.\<close>

definition ex_rdist :: "unit bus" where
  "ex_rdist = \<lparr> bus_read8 = (\<lambda>a h. (0, h)), bus_write8 = (\<lambda>a v h. h), bus_read16 = (\<lambda>a h. (0, h)), bus_write16 = (\<lambda>a v h. h),
     bus_read32 = (\<lambda>a h. (0, h)), bus_write32 = (\<lambda>a v h. h),
     bus_read64 = (\<lambda>a h. (if a = 0xd1d40008 then 0x100 else if a = 0xd1d60008 then 0x10 else 0, h)), bus_write64 = (\<lambda>a v h. h) \<rparr>"

theorem rdistif_probe_finds_all_witness:
  "gicv3_rdistif_base_addrs_probe ex_rdist None [0, 0] 0xd1d40000 () = Some ([0xd1d60000, 0xd1d40000], ())"
proof -
  let ?ty = "\<lambda>k :: nat. if k = 0 then 0x100 else 0x10 :: u64"
  have "rdist_chain ex_rdist 0xd1d40000 ?ty 2"
    by (auto simp: rdist_chain_def rdist_frame_def ex_rdist_def less_2_cases_iff)
  moreover have "\<forall>k < 2. rdist_pos None (?ty k) < length [0, 0 :: u64]" "inj_on (\<lambda>k. rdist_pos None (?ty k)) {0..<2}"
    by (auto simp: rdist_pos_def inj_on_def)
  ultimately obtain a where a: "gicv3_rdistif_base_addrs_probe ex_rdist None [0, 0] 0xd1d40000 () = Some (a, ())" "length a = 2"
    "\<forall>k < 2. a ! rdist_pos None (?ty k) = rdist_frame 0xd1d40000 k"
    using rdistif_probe_finds_all [of ex_rdist "0xd1d40000" ?ty 2 None "[0, 0]" "()"] by auto
  have "a ! 1 = 0xd1d40000" "a ! 0 = 0xd1d60000"
    using a(3) [rule_format, of 0] a(3) [rule_format, of 1] by (simp_all add: rdist_pos_def rdist_frame_def)
  then have "a = [0xd1d60000, 0xd1d40000]" using a(2) by (auto simp: list_eq_iff_nth_eq less_2_cases_iff)
  then show ?thesis using a(1) by simp
qed

text \<open>
  C27: The register that raises a secure software generated interrupt gets four bits of each of the affinities 1 to 3, where the
  architecture has eight: a target is indistinguishable from the one with the upper four bits of these affinities cleared.
\<close>

theorem raise_sgi_drops_affinity:
  "gicv3_raise_secure_g0_sgi sgi_num target g = gicv3_raise_secure_g0_sgi sgi_num (target AND NOT 0xf000f0f000) g"
proof -
  have m: "(0xf000f0f000 :: u64) = push_bit 12 (mask 4) OR (push_bit 20 (mask 4) OR push_bit 36 (mask 4))"
    "(0xff :: u64) = mask 8" "(0xf :: u64) = mask 4"
    by (simp_all add: mask_eq_exp_minus_1)
  have a: "(drop_bit k target AND mask 8) AND mask 4 = (drop_bit k (target AND NOT 0xf000f0f000) AND mask 8) AND mask 4"
    if "k = 8 \<or> k = 16 \<or> k = 32" for k
    unfolding m using that by (auto intro!: bit_word_eqI simp: bit_simps)
  have "target AND mask 8 = (target AND NOT 0xf000f0f000) AND mask 8"
    unfolding m by (auto intro!: bit_word_eqI simp: bit_simps)
  then show ?thesis
    unfolding gicv3_raise_secure_g0_sgi_def GICV3_SGIR_VALUE_def Let_def m(2,3) using a [of 8] a [of 16] a [of 32] by simp
qed

end
