(* ===== verification/A3700_Pm.thy ===== *)
theory A3700_Pm
  imports Marvell_Topology A3700_Windows Gicv3
begin

unbundle bit_operations_syntax

text \<open>
  Power management of the Armada 3700: the hooks of \<^verbatim>\<open>plat_pm.c\<close>, the wake-up sources of \<^verbatim>\<open>pm_src.c\<close>, the mailbox of
  \<^verbatim>\<open>marvell_pm.c\<close>, the calls into the interrupt controller of \<^verbatim>\<open>marvell_gicv3.c\<close> and into the coherent interconnect of
  \<^verbatim>\<open>marvell_cci.c\<close> and \<^verbatim>\<open>cci.c\<close>. A hook gives \<open>None\<close> when it does not come back.
\<close>

subsection \<open>State\<close>

record 'h a3700_state =
  a3700_gic :: "'h gicv3"
  rdist_ctx :: gicv3_redist_ctx
  dist_ctx :: gicv3_dist_ctx
  cci_base :: u64
  cci_slave_if_map :: "int list"

definition with_gic :: "('h gicv3 \<Rightarrow> 'h gicv3 option) \<Rightarrow> 'h a3700_state \<Rightarrow> 'h a3700_state option" where
  "with_gic f s = map_option (\<lambda>g. s\<lparr>a3700_gic := g\<rparr>) (f (a3700_gic s))"

definition with_bus :: "('h \<Rightarrow> 'h option) \<Rightarrow> 'h a3700_state \<Rightarrow> 'h a3700_state option" where
  "with_bus f s = with_gic (on_hw f) s"

subsection \<open>Coherent interconnect\<close>

definition SLAVE_IFACE_OFFSET :: "int \<Rightarrow> u64" where
  "SLAVE_IFACE_OFFSET index = 0x1000 + 0x1000 * of_int index"

definition cci_map :: "int list" where
  "cci_map = [3, 4]"

definition cci_init :: "u64 \<Rightarrow> int list \<Rightarrow> 'h a3700_state \<Rightarrow> 'h a3700_state" where
  "cci_init base if_map s = s\<lparr>cci_base := base, cci_slave_if_map := if_map\<rparr>"

definition cci_snoop :: "'h bus \<Rightarrow> u32 \<Rightarrow> nat \<Rightarrow> 'h a3700_state \<Rightarrow> 'h a3700_state option" where
  "cci_snoop B value master_id s =
     (if master_id < length (cci_slave_if_map s)
      then with_bus (\<lambda>h. wait_read32 B (cci_base s + 0xc) (\<lambda>r. r AND 1 = 0)
             (mmio_write_32 B (cci_base s + SLAVE_IFACE_OFFSET (cci_slave_if_map s ! master_id)) value h)) s
      else None)"

definition cci_enable_snoop_dvm_reqs :: "'h bus \<Rightarrow> nat \<Rightarrow> 'h a3700_state \<Rightarrow> 'h a3700_state option" where
  "cci_enable_snoop_dvm_reqs B = cci_snoop B (2 OR 1)"

definition cci_disable_snoop_dvm_reqs :: "'h bus \<Rightarrow> nat \<Rightarrow> 'h a3700_state \<Rightarrow> 'h a3700_state option" where
  "cci_disable_snoop_dvm_reqs B = cci_snoop B (NOT (2 OR 1))"

abbreviation PLAT_MARVELL_CCI_BASE :: u64 where "PLAT_MARVELL_CCI_BASE \<equiv> 0xd8000000"

definition plat_marvell_interconnect_init :: "'h a3700_state \<Rightarrow> 'h a3700_state" where
  "plat_marvell_interconnect_init s = cci_init PLAT_MARVELL_CCI_BASE cci_map s"

definition aff1_val :: "'h a3700_state \<Rightarrow> nat" where
  "aff1_val s = unat (drop_bit 8 (icc_mpidr_el1 (icc (a3700_gic s))) AND 0xff)"

definition plat_marvell_interconnect_enter_coherency :: "'h bus \<Rightarrow> 'h a3700_state \<Rightarrow> 'h a3700_state option" where
  "plat_marvell_interconnect_enter_coherency B s = cci_enable_snoop_dvm_reqs B (aff1_val s) s"

definition plat_marvell_interconnect_exit_coherency :: "'h bus \<Rightarrow> 'h a3700_state \<Rightarrow> 'h a3700_state option" where
  "plat_marvell_interconnect_exit_coherency B s = cci_disable_snoop_dvm_reqs B (aff1_val s) s"

subsection \<open>Interrupt controller\<close>

abbreviation PLAT_MARVELL_GICD_BASE :: u64 where "PLAT_MARVELL_GICD_BASE \<equiv> 0xd1d00000"
abbreviation PLAT_MARVELL_GICR_BASE :: u64 where "PLAT_MARVELL_GICR_BASE \<equiv> 0xd1d40000"

definition INTR_PROP_DESC :: "u32 \<Rightarrow> u32 \<Rightarrow> u32 \<Rightarrow> u32 \<Rightarrow> interrupt_prop" where
  "INTR_PROP_DESC num pri grp cfg = \<lparr> intr_num = num, intr_pri = pri, intr_grp = grp, intr_cfg = cfg \<rparr>"

definition PLAT_MARVELL_G0_IRQ_PROPS :: "u32 \<Rightarrow> interrupt_prop list" where
  "PLAT_MARVELL_G0_IRQ_PROPS grp = map (\<lambda>i. INTR_PROP_DESC i GIC_HIGHEST_SEC_PRIORITY grp 0) [8, 14]"

definition PLAT_MARVELL_G1S_IRQ_PROPS :: "u32 \<Rightarrow> interrupt_prop list" where
  "PLAT_MARVELL_G1S_IRQ_PROPS grp = map (\<lambda>i. INTR_PROP_DESC i GIC_HIGHEST_SEC_PRIORITY grp 0) [29, 9, 10, 11, 12, 13, 15]"

definition marvell_interrupt_props :: "interrupt_prop list" where
  "marvell_interrupt_props = PLAT_MARVELL_G1S_IRQ_PROPS INTR_GROUP1S @ PLAT_MARVELL_G0_IRQ_PROPS INTR_GROUP0"

definition marvell_gicv3_mpidr_hash :: "u64 \<Rightarrow> u64 \<Rightarrow> nat" where
  "marvell_gicv3_mpidr_hash my_mpidr mpidr = unat (plat_marvell_calc_core_pos (mpidr OR (my_mpidr AND push_bit 24 1)))"

definition marvell_gic_data :: "u64 \<Rightarrow> gicv3_driver_data" where
  "marvell_gic_data my_mpidr =
     \<lparr> gicd_base = PLAT_MARVELL_GICD_BASE, gicr_base = PLAT_MARVELL_GICR_BASE, g0_interrupt_array = None,
       g1s_interrupt_array = None, interrupt_props = Some marvell_interrupt_props,
       rdistif_num = PLAT_MARVELL_CLUSTER_CORE_COUNT, mpidr_to_core_pos = Some (marvell_gicv3_mpidr_hash my_mpidr) \<rparr>"

text \<open>\<^verbatim>\<open>plat_my_core_pos\<close> of the calling CPU.\<close>

definition plat_my_core_pos :: "'h gicv3 \<Rightarrow> nat" where
  "plat_my_core_pos g = unat (plat_marvell_calc_core_pos (icc_mpidr_el1 (icc g)))"

definition plat_marvell_gic_driver_init :: "'h bus \<Rightarrow> 'h gicv3 \<Rightarrow> 'h gicv3 option" where
  "plat_marvell_gic_driver_init B g = gicv3_driver_init B (marvell_gic_data (icc_mpidr_el1 (icc g))) g"

definition plat_marvell_gic_init :: "'h bus \<Rightarrow> 'h gicv3 \<Rightarrow> 'h gicv3 option" where
  "plat_marvell_gic_init B g = do {
     g \<leftarrow> gicv3_distif_init B g;
     g \<leftarrow> gicv3_rdistif_init B (plat_my_core_pos g) g;
     gicv3_cpuif_enable B (plat_my_core_pos g) g
   }"

definition plat_marvell_gic_cpuif_enable :: "'h bus \<Rightarrow> 'h gicv3 \<Rightarrow> 'h gicv3 option" where
  "plat_marvell_gic_cpuif_enable B g = gicv3_cpuif_enable B (plat_my_core_pos g) g"

definition plat_marvell_gic_cpuif_disable :: "'h bus \<Rightarrow> 'h gicv3 \<Rightarrow> 'h gicv3 option" where
  "plat_marvell_gic_cpuif_disable B g = gicv3_cpuif_disable B (plat_my_core_pos g) g"

definition plat_marvell_gic_pcpu_init :: "'h bus \<Rightarrow> 'h gicv3 \<Rightarrow> 'h gicv3 option" where
  "plat_marvell_gic_pcpu_init B g = gicv3_rdistif_init B (plat_my_core_pos g) g"

definition plat_marvell_gic_irq_pcpu_save :: "'h bus \<Rightarrow> 'h a3700_state \<Rightarrow> 'h a3700_state option" where
  "plat_marvell_gic_irq_pcpu_save B s = do {
     (c, g) \<leftarrow> gicv3_rdistif_save B (plat_my_core_pos (a3700_gic s)) (rdist_ctx s) (a3700_gic s);
     Some (s\<lparr>rdist_ctx := c, a3700_gic := g\<rparr>)
   }"

definition plat_marvell_gic_irq_save :: "'h bus \<Rightarrow> 'h a3700_state \<Rightarrow> 'h a3700_state option" where
  "plat_marvell_gic_irq_save B s = do {
     (c, g) \<leftarrow> gicv3_rdistif_save B (plat_my_core_pos (a3700_gic s)) (rdist_ctx s) (a3700_gic s);
     let s = s\<lparr>rdist_ctx := c, a3700_gic := g\<rparr>;
     (c, g) \<leftarrow> gicv3_distif_save B (dist_ctx s) (a3700_gic s);
     Some (s\<lparr>dist_ctx := c, a3700_gic := g\<rparr>)
   }"

definition plat_marvell_gic_irq_pcpu_restore :: "'h bus \<Rightarrow> 'h a3700_state \<Rightarrow> 'h a3700_state option" where
  "plat_marvell_gic_irq_pcpu_restore B s =
     with_gic (\<lambda>g. gicv3_rdistif_init_restore B (plat_my_core_pos g) (rdist_ctx s) g) s"

definition plat_marvell_gic_irq_restore :: "'h bus \<Rightarrow> 'h a3700_state \<Rightarrow> 'h a3700_state option" where
  "plat_marvell_gic_irq_restore B s = do {
     s \<leftarrow> with_gic (gicv3_distif_init_restore B (dist_ctx s)) s;
     with_gic (\<lambda>g. gicv3_rdistif_init_restore B (plat_my_core_pos g) (rdist_ctx s) g) s
   }"

subsection \<open>Registers\<close>

abbreviation MVEBU_NB_REGS_BASE :: u64 where "MVEBU_NB_REGS_BASE \<equiv> 0xd0013000"
abbreviation MVEBU_NB_GPIO_IRQ_REG_BASE :: u64 where "MVEBU_NB_GPIO_IRQ_REG_BASE \<equiv> 0xd0013c00"
abbreviation MVEBU_SB_GPIO_IRQ_REG_BASE :: u64 where "MVEBU_SB_GPIO_IRQ_REG_BASE \<equiv> 0xd0018c00"
abbreviation MVEBU_NB_SB_IRQ_REG_BASE :: u64 where "MVEBU_NB_SB_IRQ_REG_BASE \<equiv> 0xd0008a00"
abbreviation MVEBU_DRAM_REG_BASE :: u64 where "MVEBU_DRAM_REG_BASE \<equiv> 0xd0000000"
abbreviation MVEBU_SB_WAKEUP_REG_BASE :: u64 where "MVEBU_SB_WAKEUP_REG_BASE \<equiv> 0xd0019000"
abbreviation MVEBU_PMSU_REG_BASE :: u64 where "MVEBU_PMSU_REG_BASE \<equiv> 0xd0014000"
abbreviation MVEBU_NB_STEP_DOWN_REG_BASE :: u64 where "MVEBU_NB_STEP_DOWN_REG_BASE \<equiv> 0xd0012800"
abbreviation MVEBU_AVS_REG_BASE :: u64 where "MVEBU_AVS_REG_BASE \<equiv> 0xd0011500"

abbreviation MVEBU_WARM_RESET_REG :: u64 where "MVEBU_WARM_RESET_REG \<equiv> MVEBU_NB_REGS_BASE + 0x840"
abbreviation MVEBU_NB_GPIO1_SEL_REG :: u64 where "MVEBU_NB_GPIO1_SEL_REG \<equiv> MVEBU_NB_REGS_BASE + 0x830"
abbreviation MVEBU_CPU_1_RESET_VECTOR :: u64 where "MVEBU_CPU_1_RESET_VECTOR \<equiv> 0xd0014044"
abbreviation MVEBU_CPU_1_RESET_REG :: u64 where "MVEBU_CPU_1_RESET_REG \<equiv> 0xd000d00c"
abbreviation MVEBU_NB_IRQ_STATUS_1_REG :: u64 where "MVEBU_NB_IRQ_STATUS_1_REG \<equiv> MVEBU_NB_SB_IRQ_REG_BASE"
abbreviation MVEBU_NB_IRQ_STATUS_2_REG :: u64 where "MVEBU_NB_IRQ_STATUS_2_REG \<equiv> MVEBU_NB_SB_IRQ_REG_BASE + 0x10"
abbreviation MVEBU_SB_IRQ_STATUS_1_REG :: u64 where "MVEBU_SB_IRQ_STATUS_1_REG \<equiv> MVEBU_NB_SB_IRQ_REG_BASE + 0x40"
abbreviation MVEBU_SB_IRQ_STATUS_2_REG :: u64 where "MVEBU_SB_IRQ_STATUS_2_REG \<equiv> MVEBU_NB_SB_IRQ_REG_BASE + 0x50"
abbreviation MVEBU_NB_GPIO_IRQ_MASK_1_REG :: u64 where "MVEBU_NB_GPIO_IRQ_MASK_1_REG \<equiv> MVEBU_NB_SB_IRQ_REG_BASE + 0xc8"
abbreviation MVEBU_NB_GPIO_IRQ_MASK_2_REG :: u64 where "MVEBU_NB_GPIO_IRQ_MASK_2_REG \<equiv> MVEBU_NB_SB_IRQ_REG_BASE + 0xd8"
abbreviation MVEBU_SB_GPIO_IRQ_MASK_REG :: u64 where "MVEBU_SB_GPIO_IRQ_MASK_REG \<equiv> MVEBU_NB_SB_IRQ_REG_BASE + 0xe8"
abbreviation MVEBU_NB_GPIO_IRQ_EN_LOW_REG :: u64 where "MVEBU_NB_GPIO_IRQ_EN_LOW_REG \<equiv> MVEBU_NB_GPIO_IRQ_REG_BASE"
abbreviation MVEBU_NB_GPIO_IRQ_EN_HIGH_REG :: u64 where "MVEBU_NB_GPIO_IRQ_EN_HIGH_REG \<equiv> MVEBU_NB_GPIO_IRQ_REG_BASE + 0x04"
abbreviation MVEBU_NB_GPIO_IRQ_STATUS_LOW_REG :: u64 where "MVEBU_NB_GPIO_IRQ_STATUS_LOW_REG \<equiv> MVEBU_NB_GPIO_IRQ_REG_BASE + 0x10"
abbreviation MVEBU_NB_GPIO_IRQ_STATUS_HIGH_REG :: u64 where "MVEBU_NB_GPIO_IRQ_STATUS_HIGH_REG \<equiv> MVEBU_NB_GPIO_IRQ_REG_BASE + 0x14"
abbreviation MVEBU_SB_GPIO_IRQ_EN_REG :: u64 where "MVEBU_SB_GPIO_IRQ_EN_REG \<equiv> MVEBU_SB_GPIO_IRQ_REG_BASE"
abbreviation MVEBU_SB_GPIO_IRQ_STATUS_REG :: u64 where "MVEBU_SB_GPIO_IRQ_STATUS_REG \<equiv> MVEBU_SB_GPIO_IRQ_REG_BASE + 0x10"
abbreviation MVEBU_PM_NB_PWR_CTRL_REG :: u64 where "MVEBU_PM_NB_PWR_CTRL_REG \<equiv> MVEBU_PMSU_REG_BASE"
abbreviation MVEBU_PM_NB_CPU_PWR_CTRL_REG :: u64 where "MVEBU_PM_NB_CPU_PWR_CTRL_REG \<equiv> MVEBU_PMSU_REG_BASE + 0x4"
abbreviation MVEBU_PM_NB_PWR_OPTION_REG :: u64 where "MVEBU_PM_NB_PWR_OPTION_REG \<equiv> MVEBU_PMSU_REG_BASE + 0x8"
abbreviation MVEBU_PM_NB_PWR_DEBUG_REG :: u64 where "MVEBU_PM_NB_PWR_DEBUG_REG \<equiv> MVEBU_PMSU_REG_BASE + 0xc"
abbreviation MVEBU_PM_NB_WAKE_UP_EN_REG :: u64 where "MVEBU_PM_NB_WAKE_UP_EN_REG \<equiv> MVEBU_PMSU_REG_BASE + 0x2c"
abbreviation MVEBU_PM_CPU_0_PWR_CTRL_REG :: u64 where "MVEBU_PM_CPU_0_PWR_CTRL_REG \<equiv> MVEBU_PMSU_REG_BASE + 0x34"
abbreviation MVEBU_PM_CPU_1_PWR_CTRL_REG :: u64 where "MVEBU_PM_CPU_1_PWR_CTRL_REG \<equiv> MVEBU_PMSU_REG_BASE + 0x38"
abbreviation MVEBU_PM_CPU_VDD_OFF_INFO_1_REG :: u64 where "MVEBU_PM_CPU_VDD_OFF_INFO_1_REG \<equiv> MVEBU_PMSU_REG_BASE + 0x48"
abbreviation MVEBU_PM_CPU_VDD_OFF_INFO_2_REG :: u64 where "MVEBU_PM_CPU_VDD_OFF_INFO_2_REG \<equiv> MVEBU_PMSU_REG_BASE + 0x4c"
abbreviation MVEBU_PM_CPU_WAKE_UP_CONF_REG :: u64 where "MVEBU_PM_CPU_WAKE_UP_CONF_REG \<equiv> MVEBU_PMSU_REG_BASE + 0x54"
abbreviation MVEBU_PM_SB_CPU_PWR_CTRL_REG :: u64 where "MVEBU_PM_SB_CPU_PWR_CTRL_REG \<equiv> MVEBU_SB_WAKEUP_REG_BASE"
abbreviation MVEBU_PM_SB_PWR_OPTION_REG :: u64 where "MVEBU_PM_SB_PWR_OPTION_REG \<equiv> MVEBU_SB_WAKEUP_REG_BASE + 0x4"
abbreviation MVEBU_PM_SB_WK_EN_REG :: u64 where "MVEBU_PM_SB_WK_EN_REG \<equiv> MVEBU_SB_WAKEUP_REG_BASE + 0x10"
abbreviation MVEBU_DRAM_STATS_CH0_REG :: u64 where "MVEBU_DRAM_STATS_CH0_REG \<equiv> MVEBU_DRAM_REG_BASE + 0x4"
abbreviation MVEBU_DRAM_CMD_0_REG :: u64 where "MVEBU_DRAM_CMD_0_REG \<equiv> MVEBU_DRAM_REG_BASE + 0x20"
abbreviation MVEBU_DRAM_PWR_CTRL_REG :: u64 where "MVEBU_DRAM_PWR_CTRL_REG \<equiv> MVEBU_DRAM_REG_BASE + 0x54"
abbreviation MVEBU_AVS_CTRL_2_REG :: u64 where "MVEBU_AVS_CTRL_2_REG \<equiv> MVEBU_AVS_REG_BASE + 0x8"
abbreviation MVEBU_NB_CLOCK_SEL_REG :: u64 where "MVEBU_NB_CLOCK_SEL_REG \<equiv> MVEBU_NB_REGS_BASE + 0x10"
abbreviation MVEBU_NB_STEP_DOWN_INT_EN_REG :: u64 where "MVEBU_NB_STEP_DOWN_INT_EN_REG \<equiv> MVEBU_NB_STEP_DOWN_REG_BASE"
abbreviation PLAT_MARVELL_MAILBOX_BASE :: u64 where "PLAT_MARVELL_MAILBOX_BASE \<equiv> 0x4000400"
abbreviation PLAT_MARVELL_CPU_ENTRY_ADDR :: u32 where "PLAT_MARVELL_CPU_ENTRY_ADDR \<equiv> 0x4100000"

abbreviation (input) BIT :: "nat \<Rightarrow> u32" where "BIT n \<equiv> push_bit n 1"

subsection \<open>Acknowledging interrupts and turning CPUs on and off\<close>

definition ack_status :: "'h bus \<Rightarrow> u64 \<Rightarrow> 'h \<Rightarrow> 'h" where
  "ack_status B a h = (let (reg, h) = mmio_read_32 B a h in if reg \<noteq> 0 then mmio_write_32 B a reg h else h)"

definition a3700_pm_ack_irq :: "'h bus \<Rightarrow> 'h \<Rightarrow> 'h" where
  "a3700_pm_ack_irq B h =
     fold (ack_status B) [MVEBU_NB_IRQ_STATUS_1_REG, MVEBU_NB_IRQ_STATUS_2_REG, MVEBU_SB_IRQ_STATUS_1_REG,
       MVEBU_SB_IRQ_STATUS_2_REG, MVEBU_NB_GPIO_IRQ_STATUS_LOW_REG, MVEBU_NB_GPIO_IRQ_STATUS_HIGH_REG,
       MVEBU_SB_GPIO_IRQ_STATUS_REG] h"

text \<open>The hooks that print an error and panic.\<close>

definition a3700_validate_power_state :: "u32 \<Rightarrow> psci_power_state \<Rightarrow> (int \<times> psci_power_state) option" where
  "a3700_validate_power_state power_state req_state = None"

definition a3700_cpu_standby :: "plat_local_state_t \<Rightarrow> 'h a3700_state \<Rightarrow> 'h a3700_state option" where
  "a3700_cpu_standby cpu_state s = None"

definition a3700_system_off :: "'h a3700_state \<Rightarrow> 'h a3700_state option" where
  "a3700_system_off s = None"

definition a3700_pwr_domain_on :: "'h bus \<Rightarrow> u64 \<Rightarrow> 'h \<Rightarrow> int \<times> 'h" where
  "a3700_pwr_domain_on B mpidr h =
     (let h = mmio_write_32 B MVEBU_CPU_1_RESET_VECTOR (drop_bit 2 PLAT_MARVELL_CPU_ENTRY_ADDR) h;
          h = mmio_clrbits_32 B MVEBU_CPU_1_RESET_REG (BIT 31) h;
          h = mmio_setbits_32 B MVEBU_CPU_1_RESET_REG (BIT 31) h
      in (0, h))"

definition a3700_validate_ns_entrypoint :: "u64 \<Rightarrow> int" where
  "a3700_validate_ns_entrypoint entrypoint = PSCI_E_SUCCESS"

definition a3700_pwr_domain_off :: "'h bus \<Rightarrow> psci_power_state \<Rightarrow> 'h a3700_state \<Rightarrow> 'h a3700_state option" where
  "a3700_pwr_domain_off B target_state s = do {
     s \<leftarrow> with_gic (plat_marvell_gic_cpuif_disable B) s;
     with_bus (\<lambda>h. Some (a3700_pm_ack_irq B h)) s
   }"

subsection \<open>Power-off options\<close>

definition a3700_set_gen_pwr_off_option :: "'h bus \<Rightarrow> 'h \<Rightarrow> 'h" where
  "a3700_set_gen_pwr_off_option B h =
     (let h = mmio_setbits_32 B MVEBU_PM_NB_CPU_PWR_CTRL_REG (BIT 22) h;
          h = mmio_clrbits_32 B MVEBU_PM_NB_PWR_OPTION_REG (BIT 19) h;
          h = mmio_clrbits_32 B MVEBU_NB_CLOCK_SEL_REG (BIT 15) h;
          h = mmio_setbits_32 B MVEBU_PM_NB_PWR_DEBUG_REG (BIT 21) h;
          h = mmio_setbits_32 B MVEBU_PM_NB_PWR_DEBUG_REG (BIT 20) h;
          h = mmio_setbits_32 B MVEBU_PM_NB_PWR_OPTION_REG 0x1ff h;
          h = mmio_setbits_32 B MVEBU_PM_NB_PWR_CTRL_REG (BIT 0) h;
          h = mmio_setbits_32 B MVEBU_PM_CPU_0_PWR_CTRL_REG (BIT 0) h;
          h = mmio_setbits_32 B MVEBU_PM_CPU_1_PWR_CTRL_REG (BIT 0) h;
          h = mmio_setbits_32 B MVEBU_PM_CPU_0_PWR_CTRL_REG (BIT 2) h;
          h = mmio_setbits_32 B MVEBU_PM_CPU_1_PWR_CTRL_REG (BIT 2) h;
          h = mmio_setbits_32 B MVEBU_PM_CPU_0_PWR_CTRL_REG (BIT 1) h
      in mmio_setbits_32 B MVEBU_PM_CPU_1_PWR_CTRL_REG (BIT 1) h)"

definition a3700_en_ddr_self_refresh :: "'h bus \<Rightarrow> 'h \<Rightarrow> 'h option" where
  "a3700_en_ddr_self_refresh B h = do {
     let h = mmio_setbits_32 B MVEBU_PM_NB_PWR_CTRL_REG (BIT 28) h;
     let h = mmio_setbits_32 B MVEBU_PM_NB_PWR_OPTION_REG (BIT 29) h;
     let h = mmio_setbits_32 B MVEBU_PM_NB_PWR_OPTION_REG (BIT 28) h;
     let h = mmio_setbits_32 B MVEBU_PM_NB_PWR_OPTION_REG (BIT 23) h;
     let h = mmio_setbits_32 B MVEBU_PM_NB_PWR_OPTION_REG (BIT 22) h;
     let h = mmio_write_32 B MVEBU_PM_CPU_VDD_OFF_INFO_1_REG 0x15 h;
     let h = mmio_write_32 B MVEBU_DRAM_CMD_0_REG ((BIT 28 OR BIT 24) OR BIT 1) h;
     h \<leftarrow> wait_read32 B MVEBU_DRAM_STATS_CH0_REG (\<lambda>r. r AND BIT 19 = BIT 19) h;
     Some (mmio_setbits_32 B MVEBU_DRAM_PWR_CTRL_REG (BIT 1 OR BIT 0) h)
   }"

definition a3700_pwr_dn_avs :: "'h bus \<Rightarrow> 'h \<Rightarrow> 'h" where
  "a3700_pwr_dn_avs B h =
     (let h = mmio_clrbits_32 B MVEBU_PM_NB_PWR_OPTION_REG (BIT 14) h;
          h = mmio_setbits_32 B MVEBU_PM_NB_PWR_OPTION_REG (BIT 13) h;
          h = mmio_setbits_32 B MVEBU_PM_NB_PWR_OPTION_REG (BIT 12) h
      in mmio_setbits_32 B MVEBU_AVS_CTRL_2_REG (BIT 6) h)"

definition a3700_pwr_dn_tbg :: "'h bus \<Rightarrow> 'h \<Rightarrow> 'h" where
  "a3700_pwr_dn_tbg B h = mmio_setbits_32 B MVEBU_PM_NB_PWR_OPTION_REG (BIT 20) h"

definition a3700_pwr_dn_sb :: "'h bus \<Rightarrow> 'h \<Rightarrow> 'h" where
  "a3700_pwr_dn_sb B h =
     (let h = mmio_setbits_32 B MVEBU_PM_NB_PWR_CTRL_REG (BIT 4) h;
          h = mmio_setbits_32 B MVEBU_PM_SB_PWR_OPTION_REG (BIT 17) h;
          h = mmio_setbits_32 B MVEBU_PM_SB_PWR_OPTION_REG 0xffe h;
          h = mmio_setbits_32 B MVEBU_PM_SB_PWR_OPTION_REG (BIT 16) h
      in mmio_setbits_32 B MVEBU_PM_SB_CPU_PWR_CTRL_REG (BIT 0) h)"

definition a3700_set_pwr_off_option :: "'h bus \<Rightarrow> 'h \<Rightarrow> 'h option" where
  "a3700_set_pwr_off_option B h = do {
     let h = a3700_set_gen_pwr_off_option B h;
     h \<leftarrow> a3700_en_ddr_self_refresh B h;
     let h = a3700_pwr_dn_avs B h;
     let h = a3700_pwr_dn_tbg B h;
     Some (a3700_pwr_dn_sb B h)
   }"

subsection \<open>Wake-up\<close>

definition a3700_set_wake_up_option :: "'h bus \<Rightarrow> 'h \<Rightarrow> 'h" where
  "a3700_set_wake_up_option B h =
     (let h = mmio_setbits_32 B MVEBU_PM_NB_WAKE_UP_EN_REG (BIT 16) h;
          h = mmio_setbits_32 B MVEBU_PM_CPU_WAKE_UP_CONF_REG (BIT 13 OR BIT 12) h
      in mmio_setbits_32 B MVEBU_PM_NB_PWR_OPTION_REG (BIT 27) h)"

definition a3700_pm_en_nb_gpio :: "'h bus \<Rightarrow> nat \<Rightarrow> 'h \<Rightarrow> 'h" where
  "a3700_pm_en_nb_gpio B gpio h =
     (let h = (if gpio \<ge> 32
           then let h = mmio_clrbits_32 B MVEBU_NB_GPIO_IRQ_MASK_2_REG (BIT (gpio - 32)) h
                in mmio_setbits_32 B MVEBU_NB_GPIO_IRQ_EN_HIGH_REG (BIT (gpio - 32)) h
           else let h = mmio_clrbits_32 B MVEBU_NB_GPIO_IRQ_MASK_1_REG (BIT gpio) h
                in mmio_setbits_32 B MVEBU_NB_GPIO_IRQ_EN_LOW_REG (BIT gpio) h);
          h = mmio_setbits_32 B MVEBU_NB_STEP_DOWN_INT_EN_REG (BIT 8) h
      in mmio_setbits_32 B MVEBU_PM_NB_WAKE_UP_EN_REG (((BIT 27 OR BIT 16) OR BIT 13) OR BIT 12) h)"

definition a3700_pm_en_sb_gpio :: "'h bus \<Rightarrow> nat \<Rightarrow> 'h \<Rightarrow> 'h" where
  "a3700_pm_en_sb_gpio B gpio h =
     (let h = mmio_setbits_32 B MVEBU_PM_NB_WAKE_UP_EN_REG (((BIT 31 OR BIT 16) OR BIT 13) OR BIT 12) h;
          h = mmio_setbits_32 B MVEBU_PM_SB_WK_EN_REG (BIT 24 OR BIT 24) h;
          h = mmio_clrbits_32 B MVEBU_SB_GPIO_IRQ_MASK_REG (BIT gpio) h
      in mmio_setbits_32 B MVEBU_SB_GPIO_IRQ_EN_REG (BIT gpio) h)"

datatype pm_wake_up_src_type = WAKE_UP_SRC_GPIO | WAKE_UP_SRC_TIMER | WAKE_UP_SRC_UART0 | WAKE_UP_SRC_UART1

text \<open>The data of a source is a union; the sources that the code supports read the GPIO data alone.\<close>

record pm_wake_up_src =
  wake_up_src_type :: pm_wake_up_src_type
  bank_num :: nat
  gpio_num :: nat

definition a3700_pm_src_gpio :: "'h bus \<Rightarrow> pm_wake_up_src \<Rightarrow> 'h \<Rightarrow> 'h" where
  "a3700_pm_src_gpio B src h =
     (if bank_num src = 0 then a3700_pm_en_nb_gpio B (gpio_num src) h else a3700_pm_en_sb_gpio B (gpio_num src) h)"

definition a3700_pm_src_uart1 :: "'h bus \<Rightarrow> pm_wake_up_src \<Rightarrow> 'h \<Rightarrow> 'h" where
  "a3700_pm_src_uart1 B src h =
     (let h = mmio_clrbits_32 B MVEBU_NB_GPIO1_SEL_REG (BIT 19) h;
          h = mmio_setbits_32 B MVEBU_NB_GPIO1_SEL_REG (BIT 14) h;
          h = a3700_pm_en_nb_gpio B 19 h;
          h = mmio_setbits_32 B MVEBU_NB_GPIO1_SEL_REG (BIT 13) h
      in a3700_pm_en_nb_gpio B 18 h)"

definition a3700_pm_src_uart0 :: "'h bus \<Rightarrow> pm_wake_up_src \<Rightarrow> 'h \<Rightarrow> 'h" where
  "a3700_pm_src_uart0 B src h =
     (let h = mmio_setbits_32 B MVEBU_NB_GPIO1_SEL_REG (BIT 17) h;
          h = a3700_pm_en_nb_gpio B 25 h
      in a3700_pm_en_nb_gpio B 26 h)"

definition src_func_table :: "'h bus \<Rightarrow> (pm_wake_up_src_type \<times> (pm_wake_up_src \<Rightarrow> 'h \<Rightarrow> 'h) option) list" where
  "src_func_table B =
     [(WAKE_UP_SRC_GPIO, Some (a3700_pm_src_gpio B)), (WAKE_UP_SRC_UART1, Some (a3700_pm_src_uart1 B)),
      (WAKE_UP_SRC_UART0, Some (a3700_pm_src_uart0 B)), (WAKE_UP_SRC_TIMER, None)]"

definition a3700_get_wake_up_src_func :: "'h bus \<Rightarrow> pm_wake_up_src_type \<Rightarrow> (pm_wake_up_src \<Rightarrow> 'h \<Rightarrow> 'h) option" where
  "a3700_get_wake_up_src_func B type =
     (case List.find (\<lambda>e. fst e = type) (src_func_table B) of Some e \<Rightarrow> snd e | None \<Rightarrow> None)"

definition wake_up_src_cfg :: "pm_wake_up_src list" where
  "wake_up_src_cfg =
     [\<lparr> wake_up_src_type = WAKE_UP_SRC_GPIO, bank_num = 0, gpio_num = 14 \<rparr>,
      \<lparr> wake_up_src_type = WAKE_UP_SRC_GPIO, bank_num = 1, gpio_num = 2 \<rparr>,
      \<lparr> wake_up_src_type = WAKE_UP_SRC_UART1, bank_num = 0, gpio_num = 0 \<rparr>]"

definition mv_wake_up_src_config_get :: "pm_wake_up_src list" where
  "mv_wake_up_src_config_get = wake_up_src_cfg"

definition a3700_set_wake_up_source :: "'h bus \<Rightarrow> 'h \<Rightarrow> 'h" where
  "a3700_set_wake_up_source B h =
     fold (\<lambda>src h. case a3700_get_wake_up_src_func B (wake_up_src_type src) of Some f \<Rightarrow> f src h | None \<Rightarrow> h)
       mv_wake_up_src_config_get h"

subsection \<open>Suspend and resume\<close>

definition a3700_pm_save_lp_flag :: "'h bus \<Rightarrow> 'h \<Rightarrow> 'h" where
  "a3700_pm_save_lp_flag B h = mmio_setbits_32 B MVEBU_PM_CPU_VDD_OFF_INFO_2_REG (BIT 0) h"

definition a3700_pm_clear_lp_flag :: "'h bus \<Rightarrow> 'h \<Rightarrow> 'h" where
  "a3700_pm_clear_lp_flag B h = mmio_clrbits_32 B MVEBU_PM_CPU_VDD_OFF_INFO_2_REG (BIT 0) h"

definition a3700_pm_get_lp_flag :: "'h bus \<Rightarrow> 'h \<Rightarrow> u32 \<times> 'h" where
  "a3700_pm_get_lp_flag B h =
     (let (r, h) = mmio_read_32 B MVEBU_PM_CPU_VDD_OFF_INFO_2_REG h in (r AND BIT 0, h))"

definition a3700_pwr_domain_suspend :: "'h bus \<Rightarrow> psci_power_state \<Rightarrow> 'h a3700_state \<Rightarrow> 'h a3700_state option" where
  "a3700_pwr_domain_suspend B target_state s = do {
     s \<leftarrow> with_gic (plat_marvell_gic_cpuif_disable B) s;
     s \<leftarrow> plat_marvell_gic_irq_save B s;
     with_bus (\<lambda>h. do {
       let h = a3700_set_wake_up_option B h;
       let h = a3700_set_wake_up_source B h;
       let h = a3700_pm_ack_irq B h;
       h \<leftarrow> a3700_set_pwr_off_option B h;
       Some (a3700_pm_save_lp_flag B h)
     }) s
   }"

definition a3700_pwr_domain_on_finish :: "'h bus \<Rightarrow> psci_power_state \<Rightarrow> 'h a3700_state \<Rightarrow> 'h a3700_state option" where
  "a3700_pwr_domain_on_finish B target_state s = do {
     s \<leftarrow> with_gic (plat_marvell_gic_pcpu_init B) s;
     s \<leftarrow> with_gic (plat_marvell_gic_cpuif_enable B) s;
     let (flag, h) = a3700_pm_get_lp_flag B (hw (a3700_gic s));
     let s = s\<lparr>a3700_gic := (a3700_gic s)\<lparr>hw := h\<rparr>\<rparr>;
     if flag \<noteq> 0 then plat_marvell_gic_irq_pcpu_restore B s else Some s
   }"

definition a3700_pwr_domain_suspend_finish :: "'h bus \<Rightarrow> psci_power_state \<Rightarrow> 'h a3700_state \<Rightarrow> 'h a3700_state option" where
  "a3700_pwr_domain_suspend_finish B target_state s = do {
     s \<leftarrow> with_gic (plat_marvell_gic_init B) s;
     s \<leftarrow> plat_marvell_gic_irq_restore B s;
     let s = plat_marvell_interconnect_init s;
     s \<leftarrow> plat_marvell_interconnect_enter_coherency B s;
     with_bus (\<lambda>h. let h = cpu_wins_init B h;
                        (dram_wins_map, h) = dram_win_map_build B h;
                        (ret, io_dec_map, dec_win_num) = marvell_get_io_dec_win_conf
                    in if ret \<noteq> 0 then Some h
                       else let (ret, h) = init_io_addr_dec B (Some dram_wins_map) (Some io_dec_map) dec_win_num h
                            in if ret \<noteq> 0 then Some h else Some (a3700_pm_clear_lp_flag B h)) s
   }"

definition a3700_get_sys_suspend_power_state :: "psci_power_state \<Rightarrow> psci_power_state" where
  "a3700_get_sys_suspend_power_state req_state =
     (\<lambda>i. if i \<le> PLAT_MAX_PWR_LVL a3700_plat then PLAT_MAX_OFF_STATE a3700_plat else req_state i)"

definition a3700_system_reset :: "'h bus \<Rightarrow> 'h \<Rightarrow> 'h" where
  "a3700_system_reset B h =
     (let h = mmio_write_32 B PLAT_MARVELL_MAILBOX_BASE 0 h in mmio_write_32 B MVEBU_WARM_RESET_REG 0x1d1e h)"

subsection \<open>Mailbox and the table of hooks\<close>

definition marvell_program_mailbox :: "'h bus \<Rightarrow> u64 \<Rightarrow> 'h \<Rightarrow> 'h" where
  "marvell_program_mailbox B address h =
     (let h = mmio_write_64 B PLAT_MARVELL_MAILBOX_BASE 0x6D72766C h
      in mmio_write_64 B (PLAT_MARVELL_MAILBOX_BASE + 8) address h)"

text \<open>
  The hooks as the PSCI library calls them, on a platform state that is \<open>None\<close> once a hook has not come back.
  \<^verbatim>\<open>system_reset\<close> panics after the write that resets the board.
\<close>

definition plat_arm_psci_pm_ops :: "'h bus \<Rightarrow> 'h a3700_state option plat_psci_ops" where
  "plat_arm_psci_pm_ops B =
     \<lparr> cpu_standby = Some (\<lambda>cpu_state p. map_option Some (Option.bind p (a3700_cpu_standby cpu_state))),
       pwr_domain_on = Some (\<lambda>mpidr p. case p of None \<Rightarrow> (0, None)
         | Some s \<Rightarrow> let (ret, h) = a3700_pwr_domain_on B mpidr (hw (a3700_gic s))
                     in (ret, Some (s\<lparr>a3700_gic := (a3700_gic s)\<lparr>hw := h\<rparr>\<rparr>))),
       pwr_domain_off = Some (\<lambda>st p. Option.bind p (a3700_pwr_domain_off B st)),
       pwr_domain_suspend_pwrdown_early = None,
       pwr_domain_suspend = Some (\<lambda>st p. Option.bind p (a3700_pwr_domain_suspend B st)),
       pwr_domain_on_finish = Some (\<lambda>st p. Option.bind p (a3700_pwr_domain_on_finish B st)),
       pwr_domain_suspend_finish = Some (\<lambda>st p. Option.bind p (a3700_pwr_domain_suspend_finish B st)),
       pwr_domain_pwr_down_wfi = None,
       system_off = Some (\<lambda>p. map_option Some (Option.bind p a3700_system_off)),
       system_reset = Some (\<lambda>p. Option.bind p (with_bus (\<lambda>h. Some (a3700_system_reset B h)))),
       validate_power_state = Some a3700_validate_power_state,
       validate_ns_entrypoint = Some a3700_validate_ns_entrypoint,
       get_sys_suspend_power_state = Some a3700_get_sys_suspend_power_state,
       get_node_hw_state = None, mem_protect_chk = None, read_mem_protect = None, write_mem_protect = None,
       system_reset2 = None \<rparr>"

definition a3700_setup_psci_ops :: "'h bus \<Rightarrow> u64 \<Rightarrow> 'h \<Rightarrow> 'h a3700_state option plat_psci_ops \<times> 'h" where
  "a3700_setup_psci_ops B sec_entrypoint h = (plat_arm_psci_pm_ops B, marvell_program_mailbox B sec_entrypoint h)"

end
