(* ===== verification/A3700_Frame.thy ===== *)
theory A3700_Frame
  imports A3700_Pm Gic_Spi A3700_Io
begin

text \<open>
  What the power management hooks rely on of the board, and what they leave alone: an access outside the
  Distributor does not change it, and the waits of the hooks end.
\<close>

definition outside_gicd :: "u64 \<Rightarrow> bool" where
  "outside_gicd a \<longleftrightarrow> unat a < 0xd1d00000 \<or> 0xd1d10000 \<le> unat a"

lemma decode_regs_low: "list_all (\<lambda>a. a < 0xd1d00000) decode_regs"
  by code_simp

lemma decode_regs_outside: "a \<in> set decode_regs \<Longrightarrow> outside_gicd a"
  using decode_regs_low by (auto simp: list_all_iff outside_gicd_def word_less_nat_alt)

lemma window_regs_outside:
  "i < MV_CPU_WIN_NUM \<Longrightarrow> outside_gicd (CPU_DEC_WIN_CTRL_REG i) \<and> outside_gicd (CPU_DEC_WIN_SIZE_REG i) \<and>
     outside_gicd (CPU_DEC_WIN_BASE_REG i) \<and> outside_gicd (CPU_DEC_REMAP_LOW_REG i)"
  "dw \<in> set io_dec_win_conf \<Longrightarrow> j < unat (max_dram_win dw) \<Longrightarrow> outside_gicd (io_ctrl dw j) \<and> outside_gicd (io_base dw j)"
  "cs < DRAM_MAX_CS_NUM \<Longrightarrow> outside_gicd (DRAM_CH0_MMAP_LOW_REG 0 cs (ucast MVEBU_REGS_BASE))"
proof -
  show "i < MV_CPU_WIN_NUM \<Longrightarrow> outside_gicd (CPU_DEC_WIN_CTRL_REG i) \<and> outside_gicd (CPU_DEC_WIN_SIZE_REG i) \<and>
     outside_gicd (CPU_DEC_WIN_BASE_REG i) \<and> outside_gicd (CPU_DEC_REMAP_LOW_REG i)"
    using cpu_reg_in [of i] by (auto intro!: decode_regs_outside simp: decode_regs_def)
  show "dw \<in> set io_dec_win_conf \<Longrightarrow> j < unat (max_dram_win dw) \<Longrightarrow> outside_gicd (io_ctrl dw j) \<and> outside_gicd (io_base dw j)"
    using io_reg_in [of j dw] by (auto intro!: decode_regs_outside simp: decode_regs_def)
  show "cs < DRAM_MAX_CS_NUM \<Longrightarrow> outside_gicd (DRAM_CH0_MMAP_LOW_REG 0 cs (ucast MVEBU_REGS_BASE))"
    by (rule decode_regs_outside) (simp add: decode_regs_def dram_cs_regs_def)
qed

lemma wait_read32_keeps:
  assumes "wait_read32 B a p h = Some h'" "\<And>h. f (snd (mmio_read_32 B a h)) = f h"
  shows "f h' = f h"
proof -
  have "(\<forall>h. f (snd (mmio_read_32 B a h)) = f h) \<longrightarrow> f h' = f h"
    by (rule wait_read32.raw_induct [where P = "\<lambda>B a p h h'. (\<forall>h. f (snd (mmio_read_32 B a h)) = f h) \<longrightarrow> f h' = f h", OF _ assms(1)])
      (auto simp: split_def Let_def split: if_splits)
  then show ?thesis using assms(2) by blast
qed

lemma wait_read64_keeps:
  assumes "wait_read64 B a p h = Some h'" "\<And>h. f (snd (mmio_read_64 B a h)) = f h"
  shows "f h' = f h"
proof -
  have "(\<forall>h. f (snd (mmio_read_64 B a h)) = f h) \<longrightarrow> f h' = f h"
    by (rule wait_read64.raw_induct [where P = "\<lambda>B a p h h'. (\<forall>h. f (snd (mmio_read_64 B a h)) = f h) \<longrightarrow> f h' = f h", OF _ assms(1)])
      (auto simp: split_def Let_def split: if_splits)
  then show ?thesis using assms(2) by blast
qed

lemma and_not_self: "(w AND NOT m) AND m = (0 :: 'a :: len word)"
  by (simp add: and.assoc)

lemma or_bit: "(w OR 2) AND 2 \<noteq> (0 :: u32)" "(w OR 1) AND 1 \<noteq> (0 :: u32)"
  by (auto simp: bit.conj_disj_distrib2 or_eq_0_iff)

locale a3700_hw = gicd_exact B "0xd1d00000" typer V R C pend for B typer V R C pend +
  fixes rb :: u64
  assumes rb: "rb = 0xd1d40000 \<or> rb = 0xd1d60000"
    and read32_other: "outside_gicd a \<Longrightarrow> h' = snd (bus_read32 B a h) \<Longrightarrow> V h' = V h \<and> R h' = R h \<and> C h' = C h"
    and write32_other: "outside_gicd a \<Longrightarrow> h' = bus_write32 B a v h \<Longrightarrow> V h' = V h \<and> R h' = R h \<and> C h' = C h"
    and read64_other: "outside_gicd a \<Longrightarrow> h' = snd (bus_read64 B a h) \<Longrightarrow> V h' = V h \<and> R h' = R h \<and> C h' = C h"
    and write64_other: "outside_gicd a \<Longrightarrow> h' = bus_write64 B a v64 h \<Longrightarrow> V h' = V h \<and> R h' = R h \<and> C h' = C h"
    and write8_other: "outside_gicd a \<Longrightarrow> h' = bus_write8 B a v8 h \<Longrightarrow> V h' = V h \<and> R h' = R h \<and> C h' = C h"
    and rwp_ends: "gicr_wait_for_pending_write B rb h \<noteq> None"
    and uwp_ends: "gicr_wait_for_upstream_pending_write B rb h \<noteq> None"
    and awake_ends: "v AND WAKER_PS_BIT = 0 \<Longrightarrow>
      wait_read32 B (rb + GICR_WAKER) (\<lambda>r. r AND WAKER_CA_BIT = 0) (gicr_write_waker B rb v h) \<noteq> None"
    and asleep_ends: "v AND WAKER_PS_BIT \<noteq> 0 \<Longrightarrow>
      wait_read32 B (rb + GICR_WAKER) (\<lambda>r. r AND WAKER_CA_BIT \<noteq> 0) (gicr_write_waker B rb v h) \<noteq> None"
    and quiescent_ends: "v AND WAKER_SL_BIT \<noteq> 0 \<Longrightarrow>
      wait_read32 B (rb + GICR_WAKER) (\<lambda>r. r AND WAKER_QSC_BIT \<noteq> 0) (gicr_write_waker B rb v h) \<noteq> None"
    and active_ends: "v AND WAKER_SL_BIT = 0 \<Longrightarrow>
      wait_read32 B (rb + GICR_WAKER) (\<lambda>r. r AND WAKER_QSC_BIT = 0) (gicr_write_waker B rb v h) \<noteq> None"
    and drain_ends: "wait_read32 B MVEBU_DRAM_STATS_CH0_REG (\<lambda>r. r AND BIT 19 = BIT 19) h \<noteq> None"
    and cci_ends: "wait_read32 B (PLAT_MARVELL_CCI_BASE + 0xc) (\<lambda>r. r AND 1 = 0) h \<noteq> None"
begin

text \<open>What there is to see of the Distributor.\<close>

definition obs where "obs h = (V h, R h, C h)"

lemma obs_access [simp]:
  assumes "outside_gicd a"
  shows "obs (snd (mmio_read_32 B a h)) = obs h" "obs (mmio_write_32 B a v h) = obs h"
    "obs (snd (mmio_read_64 B a h)) = obs h" "obs (mmio_write_64 B a v64 h) = obs h" "obs (mmio_write_8 B a v8 h) = obs h"
    "obs (mmio_setbits_32 B a v h) = obs h" "obs (mmio_clrbits_32 B a v h) = obs h"
  using read32_other [OF assms refl] write32_other [OF assms refl] read64_other [OF assms refl] write64_other [OF assms refl]
    write8_other [OF assms refl]
  by (simp_all add: obs_def mmio_read_32_def mmio_write_32_def mmio_read_64_def mmio_write_64_def mmio_write_8_def
      mmio_setbits_32_def mmio_clrbits_32_def split_def Let_def)

lemma obs_waits:
  assumes "outside_gicd a"
  shows "wait_read32 B a p h = Some h' \<Longrightarrow> obs h' = obs h" "wait_read64 B a q h = Some h' \<Longrightarrow> obs h' = obs h"
  using wait_read32_keeps [of B a p h h' obs] wait_read64_keeps [of B a q h h' obs] assms by simp_all

lemma rd_outside [simp]: "unat off < 0x20000 \<Longrightarrow> outside_gicd (rb + off)" "outside_gicd rb"
proof -
  assume off: "unat off < 0x20000"
  have "unat (rb + off) = unat rb + unat off" using rb off by (intro unat_add_less) auto
  then show "outside_gicd (rb + off)" using rb by (auto simp: outside_gicd_def)
next
  show "outside_gicd rb" using rb by (auto simp: outside_gicd_def)
qed

lemma rd_bank [simp]: "irq < 32 \<Longrightarrow> outside_gicd (bank_reg rb GICR_IPRIORITYR 2 irq)" "irq < 32 \<Longrightarrow> outside_gicd (rb + GICR_IPRIORITYR + ucast irq)"
proof -
  assume irq: "irq < 32"
  have "unat (drop_bit 2 irq) < 8" using irq by (auto simp: unat_drop_bit_div word_less_nat_alt)
  then have "unat (ucast (push_bit 2 (drop_bit 2 irq)) :: u64) < 32"
    by (simp add: unat_ucast_up push_bit_eq_mult unat_word_ariths)
  then have "unat (0x10400 + ucast (push_bit 2 (drop_bit 2 irq)) :: u64) < 0x20000" by (subst unat_add_less) simp_all
  then show "outside_gicd (bank_reg rb GICR_IPRIORITYR 2 irq)" unfolding bank_reg_def add.assoc by (rule rd_outside)
  have "unat (ucast irq :: u64) < 32" using irq by (simp add: unat_ucast_up word_less_nat_alt)
  then have "unat (0x10400 + ucast irq :: u64) < 0x20000" by (subst unat_add_less) simp_all
  then show "outside_gicd (rb + GICR_IPRIORITYR + ucast irq)" unfolding add.assoc by (rule rd_outside)
qed

lemmas gicr_defs = gicr_read_ctlr_def gicr_write_ctlr_def gicr_read_waker_def gicr_write_waker_def
  gicr_read_isenabler0_def gicr_read_igroupr0_def gicr_read_ispendr0_def gicr_read_igrpmodr0_def gicr_read_nsacr_def
  gicr_read_isactiver0_def gicr_read_icfgr0_def gicr_read_icfgr1_def gicr_write_icenabler0_def gicr_write_isenabler0_def
  gicr_write_igroupr0_def gicr_write_ispendr0_def gicr_write_igrpmodr0_def gicr_write_nsacr_def gicr_write_isactiver0_def
  gicr_write_icfgr0_def gicr_write_icfgr1_def gicr_read_propbaser_def gicr_write_propbaser_def gicr_read_pendbaser_def
  gicr_write_pendbaser_def gicr_read_ipriorityr_def gicr_write_ipriorityr_def gicr_set_igroupr0_def gicr_clr_igroupr0_def
  gicr_set_igrpmodr0_def gicr_clr_igrpmodr0_def gicr_set_isenabler0_def gicr_set_ipriorityr_def gicr_set_icfgr1_def

text \<open>The waits on the Redistributor.\<close>

lemma rd_waits:
  "\<exists>h'. gicr_wait_for_pending_write B rb h = Some h' \<and> obs h' = obs h"
  "\<exists>h'. gicr_wait_for_upstream_pending_write B rb h = Some h' \<and> obs h' = obs h"
  using rwp_ends [of h] uwp_ends [of h] obs_waits(2) [of rb _ h]
  by (auto simp: gicr_wait_for_pending_write_def gicr_wait_for_upstream_pending_write_def)

lemma obs_waker: "obs (gicr_write_waker B rb v h) = obs h"
  by (simp add: gicr_defs)

lemma waker_waits:
  "v AND WAKER_PS_BIT = 0 \<Longrightarrow>
     \<exists>h'. wait_read32 B (rb + GICR_WAKER) (\<lambda>r. r AND WAKER_CA_BIT = 0) (gicr_write_waker B rb v h) = Some h' \<and> obs h' = obs h"
  "v AND WAKER_PS_BIT \<noteq> 0 \<Longrightarrow>
     \<exists>h'. wait_read32 B (rb + GICR_WAKER) (\<lambda>r. r AND WAKER_CA_BIT \<noteq> 0) (gicr_write_waker B rb v h) = Some h' \<and> obs h' = obs h"
  "v AND WAKER_SL_BIT \<noteq> 0 \<Longrightarrow>
     \<exists>h'. wait_read32 B (rb + GICR_WAKER) (\<lambda>r. r AND WAKER_QSC_BIT \<noteq> 0) (gicr_write_waker B rb v h) = Some h' \<and> obs h' = obs h"
  "v AND WAKER_SL_BIT = 0 \<Longrightarrow>
     \<exists>h'. wait_read32 B (rb + GICR_WAKER) (\<lambda>r. r AND WAKER_QSC_BIT = 0) (gicr_write_waker B rb v h) = Some h' \<and> obs h' = obs h"
  using awake_ends [of v h] asleep_ends [of v h] quiescent_ends [of v h] active_ends [of v h]
    obs_waits(1) [of "rb + GICR_WAKER" _ "gicr_write_waker B rb v h"] obs_waker [of v h]
  by auto

lemma mark_awake: "\<exists>h'. gicv3_rdistif_mark_core_awake B rb h = Some h' \<and> obs h' = obs h"
  using waker_waits(1) [OF and_not_self [of "fst (gicr_read_waker B rb h)"], of "snd (gicr_read_waker B rb h)"]
  by (simp add: gicv3_rdistif_mark_core_awake_def split_def gicr_read_waker_def Let_def)

lemma mark_asleep: "\<exists>h'. gicv3_rdistif_mark_core_asleep B rb h = Some h' \<and> obs h' = obs h"
  using waker_waits(2) [OF or_bit(1) [of "fst (gicr_read_waker B rb h)"], of "snd (gicr_read_waker B rb h)"]
  by (simp add: gicv3_rdistif_mark_core_asleep_def split_def gicr_read_waker_def Let_def)

text \<open>The state of the driver that the calls keep.\<close>

definition same_gic where
  "same_gic g g' \<longleftrightarrow> gicv3_driver_data g' = gicv3_driver_data g \<and> rdistif_base_addrs g' = rdistif_base_addrs g \<and>
     gic_lock g' = gic_lock g \<and> icc_mpidr_el1 (icc g') = icc_mpidr_el1 (icc g)"

lemma same_gic_hw [simp]: "same_gic g (g\<lparr>hw := h\<rparr>)" "same_gic g g"
  by (simp_all add: same_gic_def)

lemma same_gic_trans: "same_gic g g1 \<Longrightarrow> same_gic g1 g2 \<Longrightarrow> same_gic g g2"
  by (simp add: same_gic_def)

lemma cpuif_disable_ok:
  assumes "rdist_base g p = Some rb"
  shows "\<exists>g'. gicv3_cpuif_disable B p g = Some g' \<and> same_gic g g' \<and> obs (hw g') = obs (hw g)"
proof -
  have "rdist_base (g\<lparr>icc := c\<rparr>) p = Some rb" for c using assms by (simp add: rdist_base_def split: if_splits)
  moreover have "icc_mpidr_el1 (cpuif_disable_icc c) = icc_mpidr_el1 c" for c by (simp add: cpuif_disable_icc_def)
  ultimately show ?thesis using mark_asleep [of "hw g"]
    by (auto simp: gicv3_cpuif_disable_def on_hw_def same_gic_def)
qed

lemma cpuif_enable_ok:
  assumes "rdist_base g p = Some rb"
  shows "\<exists>g'. gicv3_cpuif_enable B p g = Some g' \<and> same_gic g g' \<and> obs (hw g') = obs (hw g)"
proof -
  have "icc_mpidr_el1 (cpuif_enable_icc c) = icc_mpidr_el1 c" for c
    by (simp add: cpuif_enable_icc_def icc_write_sre_el1_def Let_def)
  then show ?thesis using mark_awake [of "hw g"] assms
    by (auto simp: gicv3_cpuif_enable_def on_hw_def same_gic_def)
qed

lemma pre_save_ok:
  assumes "rdist_base g p = Some rb"
  shows "\<exists>g'. gicv3_distif_pre_save B p g = Some g' \<and> same_gic g g' \<and> obs (hw g') = obs (hw g)"
  using waker_waits(3) [OF or_bit(2) [of "fst (gicr_read_waker B rb (hw g))"], of "snd (gicr_read_waker B rb (hw g))"] assms
  by (auto simp: gicv3_distif_pre_save_def arm_gicv3_distif_pre_save_def on_hw_def split_def gicr_read_waker_def same_gic_def Let_def)

lemma post_restore_ok:
  assumes "rdist_base g p = Some rb"
  shows "\<exists>g'. gicv3_distif_post_restore B p g = Some g' \<and> same_gic g g' \<and> obs (hw g') = obs (hw g)"
proof -
  let ?h1 = "snd (gicr_read_waker B rb (hw g))"
  have "obs ?h1 = obs (hw g)" "obs (snd (gicr_read_waker B rb ?h1)) = obs (hw g)" by (simp_all add: gicr_read_waker_def)
  then show ?thesis
    using waker_waits(4) [OF and_not_self [of "fst (gicr_read_waker B rb ?h1)"], of "snd (gicr_read_waker B rb ?h1)"] assms
    by (auto simp: gicv3_distif_post_restore_def arm_gicv3_distif_post_restore_def on_hw_def split_def same_gic_def Let_def)
qed

lemma ppi_range: "irq_range 0 32 4 = [0, 4, 8, 12, 16, 20, 24, 28]"
  by (simp add: irq_range_def upt_rec)

lemma obs_fold: "(\<And>x h. x \<in> set xs \<Longrightarrow> obs (f x h) = obs h) \<Longrightarrow> obs (fold f xs h) = obs h"
  by (induction xs arbitrary: h) simp_all

lemma ppi_defaults_ok: "\<exists>h'. gicv3_ppi_sgi_configure_defaults B rb h = Some h' \<and> obs h' = obs h"
proof -
  let ?h1 = "gicr_write_icenabler0 B rb (NOT 0) h"
  obtain h2 where h2: "gicr_wait_for_pending_write B rb ?h1 = Some h2" "obs h2 = obs h"
    using rd_waits(1) [of ?h1] by (auto simp: gicr_write_icenabler0_def)
  have "obs (fold (\<lambda>i. gicr_write_ipriorityr B rb i 0x80808080) (irq_range 0 32 4) h') = obs h'" for h'
    by (intro obs_fold) (auto simp: gicr_write_ipriorityr_def ppi_range)
  then show ?thesis using h2 by (simp add: gicv3_ppi_sgi_configure_defaults_def gicr_defs(21) gicr_write_igroupr0_def)
qed

lemma ppi_ops_obs:
  assumes "irq < 32"
  shows "obs (gicr_clr_igroupr0 B rb irq h) = obs h" "obs (gicr_set_igrpmodr0 B rb irq h) = obs h" "obs (gicr_clr_igrpmodr0 B rb irq h) = obs h"
    "obs (gicr_set_ipriorityr B rb irq v h) = obs h" "obs (gicr_set_icfgr1 B rb irq v h) = obs h" "obs (gicr_set_isenabler0 B rb irq h) = obs h"
  using assms rd_bank(2) by (simp_all add: gicr_defs split_def Let_def)

lemma ppi_prop_obs: "obs (snd (secure_ppi_sgi_prop B rb p s)) = obs (snd s)"
  by (cases s) (simp add: secure_ppi_sgi_prop_def ppi_ops_obs Let_def)

lemma ppi_props_obs: "obs (snd (gicv3_secure_ppi_sgi_configure_props B rb ps h)) = obs h"
proof -
  have "obs (snd (fold (secure_ppi_sgi_prop B rb) ps s)) = obs (snd s)" for s
    by (induction ps arbitrary: s) (simp_all add: ppi_prop_obs)
  then show ?thesis by (simp add: gicv3_secure_ppi_sgi_configure_props_def)
qed

lemma obs_split: "obs h' = obs h \<longleftrightarrow> V h' = V h \<and> R h' = R h \<and> C h' = C h"
  by (simp add: obs_def)

lemma rdistif_init_ok:
  assumes "rdist_base g p = Some rb" "gicv3_driver_data g = Some d" "gicd_base d = 0xd1d00000" "interrupt_props d = Some props"
  shows "\<exists>g'. gicv3_rdistif_init B p g = Some g' \<and> same_gic g g' \<and> V (hw g') = V (hw g) \<and> R (hw g') = R (hw g)"
proof -
  obtain ctlr h1 where h1: "gicd_read_ctlr B 0xd1d00000 (hw g) = (ctlr, h1)" by fastforce
  then have o1: "V h1 = V (hw g)" "R h1 = R (hw g)"
    using read_control [of "hw g" ctlr h1] by (simp_all add: gicd_read_ctlr_def mmio_read_32_def)
  obtain h2 where h2: "gicv3_ppi_sgi_configure_defaults B rb h1 = Some h2" "obs h2 = obs h1" using ppi_defaults_ok by blast
  obtain e h3 where h3: "gicv3_secure_ppi_sgi_configure_props B rb props h2 = (e, h3)" by fastforce
  then have o3: "obs h3 = obs h2" using ppi_props_obs [of props h2] by simp
  obtain h4 where "(if ctlr AND e \<noteq> e then gicd_set_ctlr B 0xd1d00000 e True h3 else Some h3) = Some h4" "V h4 = V h3" "R h4 = R h3"
    using ctlr_exact(2) [of e h3] by (cases "ctlr AND e = e") auto
  then have "gicv3_rdistif_init B p g = Some (g\<lparr>hw := h4\<rparr>)" "V h4 = V (hw g)" "R h4 = R (hw g)"
    using assms h1 h2 h3 o1 o3
    by (auto simp: gicv3_rdistif_init_def gicv3_rdistif_on_def rdist_base_def obs_split split: if_splits)
  then show ?thesis by (intro exI [of _ "g\<lparr>hw := h4\<rparr>"]) simp
qed

lemma ppi_indices: "list_all (\<lambda>i. i < 32 \<and> unat (drop_bit 2 (i - 0)) < 8) (irq_range 0 32 4)"
  by (simp add: ppi_range)

lemma save_ppis:
  "list_all (\<lambda>i. i < 32 \<and> unat (drop_bit 2 (i - 0)) < 8) is \<Longrightarrow> length arr = 8 \<Longrightarrow>
   \<exists>arr' h'. save_regs (gicr_read_ipriorityr B rb) MIN_SGI_ID 2 is arr h = Some (arr', h') \<and> length arr' = 8 \<and> obs h' = obs h"
proof (induction "is" arbitrary: arr h)
  case (Cons i "is")
  have "obs (snd (gicr_read_ipriorityr B rb i h)) = obs h" using Cons.prems by (simp add: gicr_read_ipriorityr_def)
  then show ?case using Cons.prems Cons.IH [of "arr[unat (drop_bit 2 i) := fst (gicr_read_ipriorityr B rb i h)]" "snd (gicr_read_ipriorityr B rb i h)"]
    by (auto simp: split_def Let_def)
qed simp

lemma restore_ppis:
  "list_all (\<lambda>i. i < 32 \<and> unat (drop_bit 2 (i - 0)) < 8) is \<Longrightarrow> length arr = 8 \<Longrightarrow>
   \<exists>h'. restore_regs (gicr_write_ipriorityr B rb) MIN_SGI_ID 2 is arr h = Some h' \<and> obs h' = obs h"
proof (induction "is" arbitrary: h)
  case (Cons i "is")
  have "obs (gicr_write_ipriorityr B rb i v h) = obs h" for v using Cons.prems by (simp add: gicr_write_ipriorityr_def)
  then show ?case using Cons.prems Cons.IH [of "gicr_write_ipriorityr B rb i (arr ! unat (drop_bit 2 i)) h"] by (auto simp: Let_def)
qed simp

lemma rdistif_save_ok:
  assumes "rdist_base g p = Some rb" "length (gicr_ipriorityr ctx) = 8"
  shows "\<exists>c g'. gicv3_rdistif_save B p ctx g = Some (c, g') \<and> length (gicr_ipriorityr c) = 8 \<and> same_gic g g' \<and> obs (hw g') = obs (hw g)"
proof -
  obtain h1 where h1: "gicr_wait_for_pending_write B rb (hw g) = Some h1" "obs h1 = obs (hw g)" using rd_waits(1) by blast
  define f where "f = (\<lambda>h. snd (gicr_read_nsacr B rb (snd (gicr_read_igrpmodr0 B rb (snd (gicr_read_icfgr1 B rb (snd (gicr_read_icfgr0 B rb
    (snd (gicr_read_isactiver0 B rb (snd (gicr_read_ispendr0 B rb (snd (gicr_read_isenabler0 B rb (snd (gicr_read_igroupr0 B rb
    (snd (gicr_read_pendbaser B rb (snd (gicr_read_propbaser B rb (snd (gicr_read_ctlr B rb h))))))))))))))))))))))"
  have "obs (f h1) = obs (hw g)" using h1(2) by (simp add: f_def gicr_defs)
  obtain arr h2 where h2: "save_regs (gicr_read_ipriorityr B rb) MIN_SGI_ID 2 (irq_range 0 32 4) (gicr_ipriorityr ctx) (f h1) = Some (arr, h2)"
    "length arr = 8" "obs h2 = obs (f h1)"
    using save_ppis [OF ppi_indices assms(2), of "f h1"] by blast
  have "rdist_base (g\<lparr>hw := h2\<rparr>) p = Some rb" using assms(1) by (simp add: rdist_base_def split: if_splits)
  then obtain g' where g': "gicv3_distif_pre_save B p (g\<lparr>hw := h2\<rparr>) = Some g'" "same_gic (g\<lparr>hw := h2\<rparr>) g'" "obs (hw g') = obs h2"
    using pre_save_ok [of "g\<lparr>hw := h2\<rparr>" p] by auto
  have "same_gic g g'" using g'(2) by (simp add: same_gic_def)
  then show ?thesis using h1(1) h2(1) [unfolded f_def] h2(2,3) g'(1,3) assms(1) \<open>obs (f h1) = obs (hw g)\<close>
    by (simp add: gicv3_rdistif_save_def split_def Let_def)
qed

lemma rdistif_restore_ok:
  assumes "rdist_base g p = Some rb" "length (gicr_ipriorityr ctx) = 8"
  shows "\<exists>g'. gicv3_rdistif_init_restore B p ctx g = Some g' \<and> same_gic g g' \<and> obs (hw g') = obs (hw g)"
proof -
  obtain g1 where g1: "gicv3_distif_post_restore B p g = Some g1" "same_gic g g1" "obs (hw g1) = obs (hw g)"
    using post_restore_ok [OF assms(1)] by blast
  let ?h1 = "gicr_write_icenabler0 B rb (NOT 0) (hw g1)"
  obtain h2 where h2: "gicr_wait_for_pending_write B rb ?h1 = Some h2" "obs h2 = obs (hw g)"
    using rd_waits(1) [of ?h1] g1(3) by (auto simp: gicr_write_icenabler0_def)
  let ?h3 = "gicr_write_igroupr0 B rb (gicr_igroupr0 ctx) (gicr_write_pendbaser B rb (ucast (gicr_pendbaser ctx))
    (gicr_write_propbaser B rb (ucast (gicr_propbaser ctx)) (gicr_write_ctlr B rb (ucast (gicr_ctlr ctx AND NOT 1)) h2)))"
  obtain h4 where h4: "restore_regs (gicr_write_ipriorityr B rb) MIN_SGI_ID 2 (irq_range 0 32 4) (gicr_ipriorityr ctx) ?h3 = Some h4"
    "obs h4 = obs (hw g)"
    using restore_ppis [OF ppi_indices assms(2), of ?h3] h2(2) by (auto simp: gicr_defs)
  let ?h5 = "gicr_write_isactiver0 B rb (gicr_isactiver0 ctx) (gicr_write_ispendr0 B rb (gicr_ispendr0 ctx) (gicr_write_nsacr B rb (gicr_nsacr ctx)
    (gicr_write_igrpmodr0 B rb (gicr_igrpmodr0 ctx) (gicr_write_icfgr1 B rb (gicr_icfgr1 ctx) (gicr_write_icfgr0 B rb (gicr_icfgr0 ctx) h4)))))"
  obtain h6 where h6: "gicr_wait_for_upstream_pending_write B rb ?h5 = Some h6" "obs h6 = obs (hw g)"
    using rd_waits(2) [of ?h5] h4(2) by (auto simp: gicr_defs)
  let ?h7 = "gicr_write_ctlr B rb (ucast (gicr_ctlr ctx)) (gicr_write_isenabler0 B rb (gicr_isenabler0 ctx) h6)"
  obtain h8 where h8: "gicr_wait_for_pending_write B rb ?h7 = Some h8" "obs h8 = obs (hw g)"
    using rd_waits(1) [of ?h7] h6(2) by (auto simp: gicr_defs)
  have "gicv3_rdistif_init_restore B p ctx g = Some (g1\<lparr>hw := h8\<rparr>)"
    using assms(1) g1(1) h2(1) h4(1) h6(1) h8(1) by (simp add: gicv3_rdistif_init_restore_def gicv3_rdistif_on_def)
  moreover have "same_gic g (g1\<lparr>hw := h8\<rparr>)" using g1(2) by (simp add: same_gic_def)
  ultimately show ?thesis using h8(2) by auto
qed

text \<open>The power management registers.\<close>

lemma ack_obs: "obs (a3700_pm_ack_irq B h) = obs h"
  unfolding a3700_pm_ack_irq_def by (intro obs_fold) (auto simp: ack_status_def split_def outside_gicd_def Let_def)

lemma en_gpio_obs: "obs (a3700_pm_en_nb_gpio B n h) = obs h" "obs (a3700_pm_en_sb_gpio B n h) = obs h"
  by (simp_all add: a3700_pm_en_nb_gpio_def a3700_pm_en_sb_gpio_def outside_gicd_def Let_def)

lemma src_obs: "a3700_get_wake_up_src_func B t = Some f \<Longrightarrow> obs (f src h) = obs h"
  by (cases t) (auto simp: a3700_get_wake_up_src_func_def src_func_table_def a3700_pm_src_gpio_def a3700_pm_src_uart1_def
      a3700_pm_src_uart0_def en_gpio_obs outside_gicd_def Let_def)

lemma wake_up_obs: "obs (a3700_set_wake_up_option B h) = obs h" "obs (a3700_set_wake_up_source B h) = obs h"
proof -
  show "obs (a3700_set_wake_up_option B h) = obs h" by (simp add: a3700_set_wake_up_option_def outside_gicd_def Let_def)
  show "obs (a3700_set_wake_up_source B h) = obs h"
    unfolding a3700_set_wake_up_source_def by (intro obs_fold) (simp add: src_obs split: option.split)
qed

lemma pwr_off_obs: "\<exists>h'. a3700_set_pwr_off_option B h = Some h' \<and> obs h' = obs h"
proof -
  have gen: "obs (a3700_set_gen_pwr_off_option B h) = obs h"
    by (simp add: a3700_set_gen_pwr_off_option_def outside_gicd_def Let_def)
  have dn: "obs (a3700_pwr_dn_avs B h) = obs h" "obs (a3700_pwr_dn_tbg B h) = obs h" "obs (a3700_pwr_dn_sb B h) = obs h" for h
    by (simp_all add: a3700_pwr_dn_avs_def a3700_pwr_dn_tbg_def a3700_pwr_dn_sb_def outside_gicd_def Let_def)
  have wait: "\<exists>h'. wait_read32 B MVEBU_DRAM_STATS_CH0_REG (\<lambda>r. r AND BIT 19 = BIT 19) h = Some h' \<and> obs h' = obs h" for h
    using drain_ends [of h] obs_waits(1) [of MVEBU_DRAM_STATS_CH0_REG _ h] by (auto simp: outside_gicd_def)
  have "\<exists>h'. a3700_en_ddr_self_refresh B h = Some h' \<and> obs h' = obs h" for h
  proof -
    define h1 where "h1 = mmio_write_32 B MVEBU_DRAM_CMD_0_REG ((BIT 28 OR BIT 24) OR BIT 1) (mmio_write_32 B MVEBU_PM_CPU_VDD_OFF_INFO_1_REG 0x15
      (mmio_setbits_32 B MVEBU_PM_NB_PWR_OPTION_REG (BIT 22) (mmio_setbits_32 B MVEBU_PM_NB_PWR_OPTION_REG (BIT 23)
      (mmio_setbits_32 B MVEBU_PM_NB_PWR_OPTION_REG (BIT 28) (mmio_setbits_32 B MVEBU_PM_NB_PWR_OPTION_REG (BIT 29)
      (mmio_setbits_32 B MVEBU_PM_NB_PWR_CTRL_REG (BIT 28) h))))))"
    have "obs h1 = obs h" by (simp add: h1_def outside_gicd_def)
    moreover obtain h2 where h2: "wait_read32 B MVEBU_DRAM_STATS_CH0_REG (\<lambda>r. r AND BIT 19 = BIT 19) h1 = Some h2" "obs h2 = obs h1"
      using wait by blast
    moreover have "obs (mmio_setbits_32 B MVEBU_DRAM_PWR_CTRL_REG (BIT 1 OR BIT 0) h2) = obs h2" by (simp add: outside_gicd_def)
    ultimately show ?thesis unfolding a3700_en_ddr_self_refresh_def Let_def h1_def [symmetric] h2(1) bind.bind_lunit by simp
  qed
  then obtain h1 where "a3700_en_ddr_self_refresh B (a3700_set_gen_pwr_off_option B h) = Some h1" "obs h1 = obs h" using gen by metis
  then show ?thesis using dn by (simp add: a3700_set_pwr_off_option_def)
qed

lemma lp_flag_obs: "obs (a3700_pm_save_lp_flag B h) = obs h" "obs (a3700_pm_clear_lp_flag B h) = obs h"
  by (simp_all add: a3700_pm_save_lp_flag_def a3700_pm_clear_lp_flag_def outside_gicd_def)

end

end
