(* ===== verification/A3700_Resume.thy ===== *)
theory A3700_Resume
  imports A3700_Frame
begin

text \<open>
  Suspending the board to RAM and resuming it, as a whole: the frame of the address decoding set-up, the suspend hook
  and its finisher, a board that satisfies the contract, and the property that the interrupt configuration survives.
\<close>

context a3700_hw
begin

lemma dram_size_obs: "obs (snd (mvebu_get_dram_size B (ucast MVEBU_REGS_BASE) h)) = obs h"
proof -
  have "set css \<subseteq> {..<DRAM_MAX_CS_NUM} \<Longrightarrow> obs (snd (dram_size_cs B (ucast MVEBU_REGS_BASE) 0 css m h)) = obs h" for css m h
    by (induction css arbitrary: m h)
      (auto simp: DRAM_CS_ENABLED_def GET_DRAM_REGION_SIZE_CODE_def split_def window_regs_outside(3) [simplified] Let_def)
  from this [of "[0..<DRAM_MAX_CS_NUM]" 0 h] show ?thesis
    by (auto simp: mvebu_get_dram_size_def atLeast0LessThan split: prod.split sum.split)
qed

lemma cpu_win_set_obs: "i < MV_CPU_WIN_NUM \<Longrightarrow> obs (cpu_win_set B i c h) = obs h"
  using window_regs_outside(1) [of i] by (simp add: cpu_win_set_def split_def Let_def)

lemma cpu_wins_obs: "obs (cpu_wins_init B h) = obs h"
  using dram_size_obs [of h]
  by (auto simp: cpu_wins_init_def split_def Let_def cpu_win_set_obs intro: trans [OF obs_fold])

lemma win_map_obs: "obs (snd (dram_win_map_build B h)) = obs h" "dram_win_num (fst (dram_win_map_build B h)) \<le> 5"
proof -
  have "n \<le> MV_CPU_WIN_NUM \<Longrightarrow> obs (snd (fold (dram_win_map_step B) [0..<n] (m, h))) = obs h \<and>
      dram_win_num (fst (fold (dram_win_map_step B) [0..<n] (m, h))) \<le> dram_win_num m + n" for n m
  proof (induction n)
    case (Suc n)
    then show ?case using window_regs_outside(1) [of n] by (auto simp: dram_win_map_step_def split_def Let_def)
  qed simp
  from this [of MV_CPU_WIN_NUM "\<lparr> dram_win_num = 0, dram_windows = replicate DRAM_WIN_MAP_NUM_MAX \<lparr> base_addr = 0, win_size = 0 \<rparr> \<rparr>"]
  show "obs (snd (dram_win_map_build B h)) = obs h" "dram_win_num (fst (dram_win_map_build B h)) \<le> 5"
    by (simp_all add: dram_win_map_build_def)
qed

lemma io_win_obs:
  assumes "dw \<in> set io_dec_win_conf" "j < unat (max_dram_win dw)"
  shows "obs (set_io_addr_dec_win B j b w dw h) = obs h"
proof -
  have "max_remap dw = 0" using io_units_ok assms(1) by (auto simp: list_all_iff dest: io_unit_okD)
  then show ?thesis using window_regs_outside(2) [OF assms] by (simp add: set_io_addr_dec_win_def Let_def)
qed

lemma io_dec_obs:
  assumes "dw \<in> set io_dec_win_conf" "dram_win_num wm \<le> 5"
  shows "obs (snd (set_io_addr_dec B wm dw h)) = obs h"
proof -
  have pos: "0 < unat (max_dram_win dw)" using io_units_ok assms(1) by (auto simp: list_all_iff dest: io_unit_okD(3))
  have off: "obs (fold (\<lambda>id. mmio_write_32 B (io_ctrl dw id) 0) [0..<unat (max_dram_win dw)] h) = obs h" for h
    using window_regs_outside(2) [OF assms(1)] by (intro obs_fold) simp
  have num: "of_nat (dram_win_num wm) > max_dram_win dw \<longleftrightarrow> dram_win_num wm > unat (max_dram_win dw)"
    using assms(2) by (simp add: word_less_nat_alt unat_of_nat)
  have on: "dram_win_num wm \<le> unat (max_dram_win dw) \<Longrightarrow> obs (fold (\<lambda>id. let win = dram_windows wm ! id
      in set_io_addr_dec_win B id (base_addr win) (win_size win) dw) [0..<dram_win_num wm] h) = obs h" for h
    by (intro obs_fold) (auto simp: Let_def intro: io_win_obs [OF assms(1)])
  show ?thesis using off on pos by (simp add: set_io_addr_dec_def num io_win_obs [OF assms(1)] Let_def)
qed

lemma io_units_obs: "set dws \<subseteq> set io_dec_win_conf \<Longrightarrow> dram_win_num wm \<le> 5 \<Longrightarrow> obs (snd (init_io_units B wm dws h)) = obs h"
  by (induction dws arbitrary: h) (auto simp: io_dec_obs split_def Let_def)

lemma init_io_obs: "dram_win_num wm \<le> 5 \<Longrightarrow> obs (snd (init_io_addr_dec B (Some wm) (Some io_dec_win_conf) n h)) = obs h"
  by (auto simp: init_io_addr_dec_def intro!: io_units_obs dest: in_set_takeD)

text \<open>Initialising the Distributor without secure SPIs leaves the enabled, pending and active bits alone.\<close>

lemma distif_init_quiet:
  assumes d: "gicv3_driver_data g = Some d" "gicd_base d = 0xd1d00000" "interrupt_props d = Some props"
    and p: "list_all (\<lambda>p. intr_num p < MIN_SPI_ID) props"
  shows "\<exists>h'. gicv3_distif_init B g = Some (g\<lparr>hw := h'\<rparr>) \<and> (\<forall>b m. sets_bits b \<longrightarrow> V h' b m = V (hw g) b m)"
proof -
  obtain h1 where h1: "gicd_clr_ctlr B 0xd1d00000 7 True (hw g) = Some h1" "V h1 = V (hw g)" using ctlr_exact(1) by blast
  obtain h2 where h2: "gicd_set_ctlr B 0xd1d00000 0x30 True h1 = Some h2" "V h2 = V h1" using ctlr_exact(2) by blast
  have quiet: "fold (secure_spi_prop B 0xd1d00000 m) props s = s" for m s
    using p by (induction props arbitrary: s) (auto simp: secure_spi_prop_def split: prod.split)
  obtain h3 where h3: "gicd_set_ctlr B 0xd1d00000 0 True (gicv3_spis_configure_defaults B 0xd1d00000 h2) = Some h3"
    "V h3 = V (gicv3_spis_configure_defaults B 0xd1d00000 h2)" using ctlr_exact(2) by blast
  have "gicv3_distif_init B g = Some (g\<lparr>hw := h3\<rparr>)"
    using d h1(1) h2(1) h3(1) by (simp add: gicv3_distif_init_def gicv3_secure_spis_configure_props_def quiet)
  moreover have "sets_bits b \<Longrightarrow> V h3 b m = V (hw g) b m" for b m
    using h1(2) h2(2) h3(2) defaults_regs(1) [of h2 b m] by (auto simp: sets_bits_def)
  ultimately show ?thesis by blast
qed

lemma marvell_props_private: "list_all (\<lambda>p. intr_num p < MIN_SPI_ID) marvell_interrupt_props"
  by (simp add: marvell_interrupt_props_def PLAT_MARVELL_G1S_IRQ_PROPS_def PLAT_MARVELL_G0_IRQ_PROPS_def INTR_PROP_DESC_def)

lemma same_gicD:
  assumes "same_gic g g'"
  shows "plat_my_core_pos g' = plat_my_core_pos g" "rdist_base g' p = rdist_base g p" "gicv3_driver_data g' = gicv3_driver_data g"
  using assms by (simp_all add: same_gic_def plat_my_core_pos_def rdist_base_def)

text \<open>The driver of the board on the CPU whose Redistributor is at \<open>rb\<close>.\<close>

definition on_board where
  "on_board g \<longleftrightarrow> (\<exists>m. gicv3_driver_data g = Some (marvell_gic_data m)) \<and> rdist_base g (plat_my_core_pos g) = Some rb"

lemma on_board_same: "on_board g \<Longrightarrow> same_gic g g' \<Longrightarrow> on_board g'"
  by (simp add: on_board_def same_gicD)

lemma gic_init_quiet:
  assumes "on_board g"
  shows "\<exists>g'. plat_marvell_gic_init B g = Some g' \<and> same_gic g g' \<and> (\<forall>b m. sets_bits b \<longrightarrow> V (hw g') b m = V (hw g) b m)"
proof -
  obtain m where m: "gicv3_driver_data g = Some (marvell_gic_data m)" "rdist_base g (plat_my_core_pos g) = Some rb"
    using assms by (auto simp: on_board_def)
  have d: "gicd_base (marvell_gic_data m) = 0xd1d00000" "interrupt_props (marvell_gic_data m) = Some marvell_interrupt_props"
    by (simp_all add: marvell_gic_data_def)
  obtain h1 where h1: "gicv3_distif_init B g = Some (g\<lparr>hw := h1\<rparr>)" "\<forall>b m. sets_bits b \<longrightarrow> V h1 b m = V (hw g) b m"
    using distif_init_quiet [OF m(1) d marvell_props_private] by blast
  let ?g1 = "g\<lparr>hw := h1\<rparr>"
  note s1 = same_gicD [OF same_gic_hw(1) [of g h1]]
  obtain g2 where g2: "gicv3_rdistif_init B (plat_my_core_pos ?g1) ?g1 = Some g2" "same_gic ?g1 g2" "V (hw g2) = V h1"
    using rdistif_init_ok [of ?g1 "plat_my_core_pos ?g1", OF _ _ d] m s1 by auto
  note s2 = same_gicD [OF g2(2)]
  obtain g3 where g3: "gicv3_cpuif_enable B (plat_my_core_pos g2) g2 = Some g3" "same_gic g2 g3" "obs (hw g3) = obs (hw g2)"
    using cpuif_enable_ok [of g2 "plat_my_core_pos g2"] m s1 s2 by auto
  have "same_gic g g3" using g2(2) g3(2) by (simp add: same_gic_def)
  then show ?thesis using h1 g2 g3 by (simp add: plat_marvell_gic_init_def obs_split)
qed

lemma irq_save_ok:
  assumes "on_board (a3700_gic s)" "length (gicr_ipriorityr (rdist_ctx s)) = 8" "dist_ctx_sized (dist_ctx s)" "num \<le> 992"
  shows "\<exists>s'. plat_marvell_gic_irq_save B s = Some s' \<and> same_gic (a3700_gic s) (a3700_gic s') \<and>
    length (gicr_ipriorityr (rdist_ctx s')) = 8 \<and>
    saved num (V (hw (a3700_gic s))) (R (hw (a3700_gic s))) (C (hw (a3700_gic s))) (dist_ctx s') \<and>
    obs (hw (a3700_gic s')) = obs (hw (a3700_gic s))"
proof -
  let ?g = "a3700_gic s"
  obtain m where m: "gicv3_driver_data ?g = Some (marvell_gic_data m)" "rdist_base ?g (plat_my_core_pos ?g) = Some rb"
    using assms(1) by (auto simp: on_board_def)
  obtain c1 g1 where g1: "gicv3_rdistif_save B (plat_my_core_pos ?g) (rdist_ctx s) ?g = Some (c1, g1)"
    "length (gicr_ipriorityr c1) = 8" "same_gic ?g g1" "obs (hw g1) = obs (hw ?g)"
    using rdistif_save_ok [OF m(2) assms(2)] by blast
  have "gicv3_driver_data g1 = Some (marvell_gic_data m)" using m(1) g1(3) by (simp add: same_gicD)
  moreover have "gicd_base (marvell_gic_data m) = 0xd1d00000" by (simp add: marvell_gic_data_def)
  ultimately obtain c2 h2 where g2: "gicv3_distif_save B (dist_ctx s) g1 = Some (c2, g1\<lparr>hw := h2\<rparr>)"
    "saved num (V (hw g1)) (R (hw g1)) (C (hw g1)) c2" "V h2 = V (hw g1)" "R h2 = R (hw g1)" "C h2 = C (hw g1)"
    using distif_save_saved [OF _ _ assms(3,4)] by blast
  have "same_gic ?g (g1\<lparr>hw := h2\<rparr>)" using g1(3) by (simp add: same_gic_def)
  then show ?thesis using g1 g2 by (simp add: plat_marvell_gic_irq_save_def obs_split)
qed

lemma suspend_ok:
  assumes "on_board (a3700_gic s)" "length (gicr_ipriorityr (rdist_ctx s)) = 8" "dist_ctx_sized (dist_ctx s)" "num \<le> 992"
  shows "\<exists>s'. a3700_pwr_domain_suspend B st s = Some s' \<and> same_gic (a3700_gic s) (a3700_gic s') \<and>
    length (gicr_ipriorityr (rdist_ctx s')) = 8 \<and>
    saved num (V (hw (a3700_gic s))) (R (hw (a3700_gic s))) (C (hw (a3700_gic s))) (dist_ctx s') \<and>
    obs (hw (a3700_gic s')) = obs (hw (a3700_gic s))"
proof -
  let ?g = "a3700_gic s"
  obtain g1 where g1: "plat_marvell_gic_cpuif_disable B ?g = Some g1" "same_gic ?g g1" "obs (hw g1) = obs (hw ?g)"
    using cpuif_disable_ok assms(1) unfolding plat_marvell_gic_cpuif_disable_def on_board_def by blast
  let ?s1 = "s\<lparr>a3700_gic := g1\<rparr>"
  obtain s2 where s2: "plat_marvell_gic_irq_save B ?s1 = Some s2" "same_gic g1 (a3700_gic s2)"
    "length (gicr_ipriorityr (rdist_ctx s2)) = 8" "saved num (V (hw g1)) (R (hw g1)) (C (hw g1)) (dist_ctx s2)"
    "obs (hw (a3700_gic s2)) = obs (hw g1)"
    using irq_save_ok [of ?s1] on_board_same [OF assms(1) g1(2)] assms(2-4) by auto
  let ?h = "a3700_pm_ack_irq B (a3700_set_wake_up_source B (a3700_set_wake_up_option B (hw (a3700_gic s2))))"
  obtain h3 where h3: "a3700_set_pwr_off_option B ?h = Some h3" "obs h3 = obs ?h" using pwr_off_obs by blast
  have "a3700_pwr_domain_suspend B st s = Some (s2\<lparr>a3700_gic := (a3700_gic s2)\<lparr>hw := a3700_pm_save_lp_flag B h3\<rparr>\<rparr>)"
    using g1(1) s2(1) h3(1) by (simp add: a3700_pwr_domain_suspend_def with_gic_def with_bus_def on_hw_def)
  moreover have "obs (a3700_pm_save_lp_flag B h3) = obs (hw ?g)" using h3(2) s2(5) g1(3) by (simp add: lp_flag_obs ack_obs wake_up_obs)
  moreover have "same_gic ?g ((a3700_gic s2)\<lparr>hw := a3700_pm_save_lp_flag B h3\<rparr>)" using g1(2) s2(2) by (simp add: same_gic_def)
  ultimately show ?thesis using s2(3,4) g1(3) by (simp add: obs_split)
qed

text \<open>The configuration that a context was saved from, as far as it is about SPIs.\<close>

definition spis_as where
  "spis_as h0 h \<longleftrightarrow> (\<forall>b n. spi_reg num b n \<longrightarrow> V h b n = V h0 b n) \<and> (\<forall>i. 32 \<le> i \<and> i < num \<longrightarrow> R h i = R h0 i) \<and> C h = C h0"

lemma spis_as_obs: "obs h' = obs h \<Longrightarrow> spis_as h0 h' = spis_as h0 h"
  by (simp add: spis_as_def obs_def)

lemma irq_restore_ok:
  assumes "on_board (a3700_gic s)" "length (gicr_ipriorityr (rdist_ctx s)) = 8" "saved num (V h0) (R h0) (C h0) (dist_ctx s)"
    and z: "\<forall>b m. sets_bits b \<and> spi_reg num b m \<longrightarrow> V (hw (a3700_gic s)) b m = 0"
  shows "\<exists>g'. plat_marvell_gic_irq_restore B s = Some (s\<lparr>a3700_gic := g'\<rparr>) \<and> same_gic (a3700_gic s) g' \<and> spis_as h0 (hw g')"
proof -
  let ?g = "a3700_gic s"
  obtain m where m: "gicv3_driver_data ?g = Some (marvell_gic_data m)" "rdist_base ?g (plat_my_core_pos ?g) = Some rb"
    using assms(1) by (auto simp: on_board_def)
  have "gicd_base (marvell_gic_data m) = 0xd1d00000" by (simp add: marvell_gic_data_def)
  then obtain h1 where h1: "gicv3_distif_init_restore B (dist_ctx s) ?g = Some (?g\<lparr>hw := h1\<rparr>)" "spis_as h0 h1"
    using distif_restore_saved [OF m(1) _ assms(3) z] by (auto simp: spis_as_def)
  let ?g1 = "?g\<lparr>hw := h1\<rparr>"
  have "rdist_base ?g1 (plat_my_core_pos ?g1) = Some rb" using m(2) same_gicD [OF same_gic_hw(1) [of ?g h1]] by simp
  then obtain g2 where g2: "gicv3_rdistif_init_restore B (plat_my_core_pos ?g1) (rdist_ctx s) ?g1 = Some g2" "same_gic ?g1 g2" "obs (hw g2) = obs h1"
    using rdistif_restore_ok [OF _ assms(2), of ?g1 "plat_my_core_pos ?g1"] by auto
  have "same_gic ?g g2" "spis_as h0 (hw g2)" using g2(2) h1(2) spis_as_obs [OF g2(3)] by (simp_all add: same_gic_def)
  then show ?thesis using h1(1) g2(1) by (intro exI [of _ g2]) (simp add: plat_marvell_gic_irq_restore_def with_gic_def)
qed

lemma coherency_ok:
  assumes "aff1_val s < 2"
  shows "\<exists>h'. plat_marvell_interconnect_enter_coherency B (plat_marvell_interconnect_init s) =
    Some ((plat_marvell_interconnect_init s)\<lparr>a3700_gic := (a3700_gic s)\<lparr>hw := h'\<rparr>\<rparr>) \<and> obs h' = obs (hw (a3700_gic s))"
proof -
  let ?a = "PLAT_MARVELL_CCI_BASE + SLAVE_IFACE_OFFSET (cci_map ! aff1_val s)"
  let ?h = "mmio_write_32 B ?a 3 (hw (a3700_gic s))"
  have "outside_gicd ?a" using assms by (auto simp: cci_map_def SLAVE_IFACE_OFFSET_def outside_gicd_def less_2_cases_iff)
  moreover obtain h' where h': "wait_read32 B (PLAT_MARVELL_CCI_BASE + 0xc) (\<lambda>r. r AND 1 = 0) ?h = Some h'" using cci_ends by blast
  moreover have "obs h' = obs ?h" by (rule obs_waits(1) [OF _ h']) (simp add: outside_gicd_def)
  moreover have "aff1_val (plat_marvell_interconnect_init s) = aff1_val s" "length cci_map = 2"
    by (simp_all add: plat_marvell_interconnect_init_def cci_init_def aff1_val_def cci_map_def)
  ultimately show ?thesis using assms
    by (intro exI [of _ h']) (simp add: plat_marvell_interconnect_enter_coherency_def cci_enable_snoop_dvm_reqs_def cci_snoop_def plat_marvell_interconnect_init_def
        cci_init_def with_bus_def with_gic_def on_hw_def)
qed

lemma windows_obs:
  "\<exists>h'. (let h = cpu_wins_init B h; (dram_wins_map, h) = dram_win_map_build B h; (ret, io_dec_map, dec_win_num) = marvell_get_io_dec_win_conf
      in if ret \<noteq> 0 then Some h
         else let (ret, h) = init_io_addr_dec B (Some dram_wins_map) (Some io_dec_map) dec_win_num h
              in if ret \<noteq> 0 then Some h else Some (a3700_pm_clear_lp_flag B h)) = Some h' \<and> obs h' = obs h"
proof -
  obtain wm h1 where h1: "dram_win_map_build B (cpu_wins_init B h) = (wm, h1)" by fastforce
  then have wm: "obs h1 = obs h" "dram_win_num wm \<le> 5" using win_map_obs [of "cpu_wins_init B h"] cpu_wins_obs [of h] by simp_all
  obtain n where conf: "marvell_get_io_dec_win_conf = (0, io_dec_win_conf, n)" by (simp add: marvell_get_io_dec_win_conf_def)
  obtain r h2 where h2: "init_io_addr_dec B (Some wm) (Some io_dec_win_conf) n h1 = (r, h2)" by fastforce
  then have "obs h2 = obs h" using init_io_obs [OF wm(2), of n h1] wm(1) by simp
  then show ?thesis unfolding Let_def h1 conf prod.case h2 by (simp add: lp_flag_obs)
qed

lemma finish_ok:
  assumes "on_board (a3700_gic s)" "length (gicr_ipriorityr (rdist_ctx s)) = 8" "saved num (V h0) (R h0) (C h0) (dist_ctx s)"
    and z: "\<forall>b m. sets_bits b \<and> spi_reg num b m \<longrightarrow> V (hw (a3700_gic s)) b m = 0" and aff: "aff1_val s < 2"
  shows "\<exists>s'. a3700_pwr_domain_suspend_finish B st s = Some s' \<and> spis_as h0 (hw (a3700_gic s'))"
proof -
  let ?g = "a3700_gic s"
  obtain g1 where g1: "plat_marvell_gic_init B ?g = Some g1" "same_gic ?g g1" "\<forall>b m. sets_bits b \<longrightarrow> V (hw g1) b m = V (hw ?g) b m"
    using gic_init_quiet [OF assms(1)] by blast
  obtain g2 where g2: "plat_marvell_gic_irq_restore B (s\<lparr>a3700_gic := g1\<rparr>) = Some (s\<lparr>a3700_gic := g2\<rparr>)" "same_gic g1 g2" "spis_as h0 (hw g2)"
    using irq_restore_ok [of "s\<lparr>a3700_gic := g1\<rparr>" h0] on_board_same [OF assms(1) g1(2)] assms(2,3) z g1(3) by auto
  let ?s2 = "s\<lparr>a3700_gic := g2\<rparr>"
  have "aff1_val ?s2 < 2" using aff g1(2) g2(2) by (simp add: aff1_val_def same_gic_def)
  then obtain h3 where h3: "plat_marvell_interconnect_enter_coherency B (plat_marvell_interconnect_init ?s2) =
      Some ((plat_marvell_interconnect_init ?s2)\<lparr>a3700_gic := g2\<lparr>hw := h3\<rparr>\<rparr>)" "obs h3 = obs (hw g2)"
    using coherency_ok [of ?s2] by auto
  obtain h4 where h4: "(let h = cpu_wins_init B h3; (dram_wins_map, h) = dram_win_map_build B h; (ret, io_dec_map, dec_win_num) = marvell_get_io_dec_win_conf
      in if ret \<noteq> 0 then Some h
         else let (ret, h) = init_io_addr_dec B (Some dram_wins_map) (Some io_dec_map) dec_win_num h
              in if ret \<noteq> 0 then Some h else Some (a3700_pm_clear_lp_flag B h)) = Some h4" "obs h4 = obs h3"
    using windows_obs [of h3] by blast
  let ?s4 = "(plat_marvell_interconnect_init ?s2)\<lparr>a3700_gic := g2\<lparr>hw := h4\<rparr>\<rparr>"
  have "a3700_pwr_domain_suspend_finish B st s = Some ?s4"
    using g1(1) g2(1) h3(1) h4(1) by (simp add: a3700_pwr_domain_suspend_finish_def with_gic_def with_bus_def on_hw_def)
  moreover have "spis_as h0 h4" using spis_as_obs [OF h4(2)] spis_as_obs [OF h3(2)] g2(3) by simp
  ultimately show ?thesis by simp
qed

end

subsection \<open>A board\<close>

text \<open>
  The Distributor of \<^const>\<open>dist_bus\<close> beside registers that hold what is written to them, with the status bits that the
  hooks wait for: a Redistributor goes to sleep and wakes up as its \<^verbatim>\<open>WAKER\<close> asks, its writes are done at once, the
  memory controller has drained its queue and the interconnect has no change pending.
\<close>

record board_hw =
  board_dist :: dist_hw
  board_mem :: "u64 \<Rightarrow> u32"

definition waker_status :: "u32 \<Rightarrow> u32" where
  "waker_status w = (w AND 3) OR ((if w AND WAKER_PS_BIT \<noteq> 0 then WAKER_CA_BIT else 0) OR (if w AND WAKER_SL_BIT \<noteq> 0 then WAKER_QSC_BIT else 0))"

definition board_status :: "u64 \<Rightarrow> u32 \<Rightarrow> u32" where
  "board_status a v =
     (if a = 0xd1d40014 \<or> a = 0xd1d60014 then waker_status v
      else if a = 0xd0000004 then v OR push_bit 19 1
      else if a = 0xd800000c then v AND NOT 1 else v)"

definition board_bus :: "u32 \<Rightarrow> board_hw bus" where
  "board_bus typer =
     \<lparr> bus_read8 = (\<lambda>a h. (0, h)),
       bus_write8 = (\<lambda>a v h. if outside_gicd a then h
         else h\<lparr>board_dist := bus_write8 (dist_bus 0xd1d00000 typer) a v (board_dist h)\<rparr>),
       bus_read16 = (\<lambda>a h. (0, h)), bus_write16 = (\<lambda>a v h. h),
       bus_read32 = (\<lambda>a h. if outside_gicd a then (board_status a (board_mem h a), h)
         else let (v, d) = bus_read32 (dist_bus 0xd1d00000 typer) a (board_dist h) in (v, h\<lparr>board_dist := d\<rparr>)),
       bus_write32 = (\<lambda>a v h. if outside_gicd a then h\<lparr>board_mem := (board_mem h)(a := v)\<rparr>
         else h\<lparr>board_dist := bus_write32 (dist_bus 0xd1d00000 typer) a v (board_dist h)\<rparr>),
       bus_read64 = (\<lambda>a h. if outside_gicd a then (ucast (board_mem h a AND 0x7ffffff7), h)
         else let (v, d) = bus_read64 (dist_bus 0xd1d00000 typer) a (board_dist h) in (v, h\<lparr>board_dist := d\<rparr>)),
       bus_write64 = (\<lambda>a v h. if outside_gicd a then h\<lparr>board_mem := (board_mem h)(a := ucast v)\<rparr>
         else h\<lparr>board_dist := bus_write64 (dist_bus 0xd1d00000 typer) a v (board_dist h)\<rparr>) \<rparr>"

lemma inside_gicd: "unat off + k < 0x10000 \<Longrightarrow> \<not> outside_gicd (0xd1d00000 + off + of_nat k)" "unat off < 0x10000 \<Longrightarrow> \<not> outside_gicd (0xd1d00000 + off)"
proof -
  have base: "unat (0xd1d00000 + off :: u64) = 0xd1d00000 + unat off" if "unat off < 0x10000" using that by (subst unat_add_less) simp_all
  then show "unat off < 0x10000 \<Longrightarrow> \<not> outside_gicd (0xd1d00000 + off)" by (simp add: outside_gicd_def)
  assume k: "unat off + k < 0x10000"
  then have "unat (0xd1d00000 + off + of_nat k :: u64) = 0xd1d00000 + unat off + k"
    using base by (subst unat_add_less) (simp_all add: unat_of_nat)
  then show "\<not> outside_gicd (0xd1d00000 + off + of_nat k)" using k by (simp add: outside_gicd_def)
qed

lemma inside_reg: "spi_reg (num_ints_of t) b n \<Longrightarrow> \<not> outside_gicd (gicd_reg 0xd1d00000 b n)"
proof -
  assume "spi_reg (num_ints_of t) b n"
  note bnd = spi_reg_bound [OF this]
  have "n < 1024" using bnd(2) bank_shift_cases [of b] by auto
  then show ?thesis unfolding gicd_reg_def by (intro inside_gicd(1)) (cases b; simp)
qed

lemma wait_once:
  "p (fst (mmio_read_32 B a h)) \<Longrightarrow> wait_read32 B a p h \<noteq> None"
  "q (fst (mmio_read_64 B a h)) \<Longrightarrow> wait_read64 B a q h \<noteq> None"
  by (subst wait_read32.simps, simp add: split_def Let_def) (subst wait_read64.simps, simp add: split_def Let_def)

lemma waker_status_bits:
  "waker_status w AND WAKER_CA_BIT = 0 \<longleftrightarrow> w AND WAKER_PS_BIT = 0" "waker_status w AND WAKER_QSC_BIT = 0 \<longleftrightarrow> w AND WAKER_SL_BIT = 0"
  by (simp_all add: waker_status_def bit.conj_disj_distrib2 and.assoc)

lemma board_gicd:
  "gicd_exact (board_bus typer) 0xd1d00000 typer (dist_regs \<circ> board_dist) (dist_routes \<circ> board_dist)
     (\<lambda>h. dist_ctlr (board_dist h) AND NOT GICD_CTLR_RWP_BIT) (dist_pend \<circ> board_dist)"
proof (unfold_locales, goal_cases)
  case 1 show ?case using dist.read_typer [of "0xd1d00000" typer] by (simp add: board_bus_def outside_gicd_def split_def Let_def)
next
  case (2 b n h) then show ?case using dist.read_reg [OF 2, of "0xd1d00000"] inside_reg [OF 2] by (simp add: board_bus_def)
next
  case (3 i h)
  have "\<not> outside_gicd (0xd1d00000 + 0x6000 + of_nat (8 * i))"
    using 3 num_ints_le(1) [of typer] by (intro inside_gicd(1)) simp
  then show ?case using dist.read_route [OF 3, of "0xd1d00000"] by (simp add: board_bus_def)
next
  case (4 b n h' v h) then show ?case
    using dist.write_reg [OF 4(1) refl, of "0xd1d00000" v] inside_reg [OF 4(1)] by (simp add: board_bus_def)
next
  case (5 n h' v h)
  have "\<not> outside_gicd (0xd1d00000 + 0x180 + of_nat (4 * n))"
    using spi_reg_bound(2) [OF 5(1)] by (intro inside_gicd(1)) simp
  then show ?case using dist.write_clear [OF 5(1) refl, of "0xd1d00000" v] 5(2) by (simp add: board_bus_def)
next
  case (6 i h' p h)
  have "\<not> outside_gicd (0xd1d00000 + 0x400 + of_nat i)"
    using 6 num_ints_le(1) [of typer] by (intro inside_gicd(1)) simp
  then show ?case using dist.write_priority [OF 6(1,2) refl, of "0xd1d00000" p] 6(3) by (simp add: board_bus_def)
next
  case (7 i h' r h)
  have "\<not> outside_gicd (0xd1d00000 + 0x6000 + of_nat (8 * i))"
    using 7 num_ints_le(1) [of typer] by (intro inside_gicd(1)) simp
  then show ?case using dist.write_route [OF 7(1,2) refl, of "0xd1d00000" r] 7(3) by (simp add: board_bus_def)
next
  case (8 h' v h) then show ?case using dist.write_control [OF refl, of "0xd1d00000" typer v] by (simp add: board_bus_def outside_gicd_def)
next
  case (9 h v h')
  obtain d where "bus_read32 (dist_bus 0xd1d00000 typer) (0xd1d00000 + GICD_CTLR) (board_dist h) = (v, d)" "h' = h\<lparr>board_dist := d\<rparr>"
    using 9 by (auto simp: board_bus_def outside_gicd_def split: prod.splits)
  then show ?case using dist.read_control [of "0xd1d00000" typer "board_dist h" v d] by (auto split: if_splits)
qed

lemma board_hw_ok:
  assumes "rb = 0xd1d40000 \<or> rb = 0xd1d60000"
  shows "a3700_hw (board_bus typer) typer (dist_regs \<circ> board_dist) (dist_routes \<circ> board_dist)
     (\<lambda>h. dist_ctlr (board_dist h) AND NOT GICD_CTLR_RWP_BIT) (dist_pend \<circ> board_dist) rb"
proof -
  have out: "outside_gicd (rb + 0x14)" "outside_gicd rb" "rb + 0x14 = 0xd1d40014 \<or> rb + 0x14 = 0xd1d60014"
    using assms by (auto simp: outside_gicd_def)
  have waker: "fst (mmio_read_32 (board_bus typer) (rb + 0x14) (gicr_write_waker (board_bus typer) rb v h)) = waker_status v" for v h
    using out by (simp add: mmio_read_32_def gicr_write_waker_def mmio_write_32_def board_bus_def board_status_def)
  have rd: "fst (mmio_read_64 (board_bus typer) rb h) = ucast (board_mem h rb AND 0x7ffffff7)" for h
    using out by (simp add: mmio_read_64_def board_bus_def)
  have ctlr: "ucast (w AND 0x7ffffff7 :: u32) AND 8 = (0 :: u64)" "ucast (w AND 0x7ffffff7 :: u32) AND 0x80000000 = (0 :: u64)" for w
    by (simp_all add: unsigned_and_eq and.assoc)
  show ?thesis
  proof (intro a3700_hw.intro board_gicd, unfold_locales, goal_cases)
    case 1 show ?case by (rule assms)
  next
    case 7 show ?case unfolding gicr_wait_for_pending_write_def by (rule wait_once(2)) (simp add: rd ctlr)
  next
    case 8 show ?case unfolding gicr_wait_for_upstream_pending_write_def by (rule wait_once(2)) (simp add: rd ctlr)
  next
    case 9 then show ?case by (intro wait_once(1)) (simp add: waker waker_status_bits)
  next
    case 10 then show ?case by (intro wait_once(1)) (simp add: waker waker_status_bits)
  next
    case 11 then show ?case by (intro wait_once(1)) (simp add: waker waker_status_bits)
  next
    case 12 then show ?case by (intro wait_once(1)) (simp add: waker waker_status_bits)
  next
    case 13 show ?case
      by (rule wait_once(1)) (simp add: mmio_read_32_def board_bus_def outside_gicd_def board_status_def bit.conj_disj_distrib2)
  next
    case 14 show ?case
      by (rule wait_once(1)) (simp add: mmio_read_32_def board_bus_def outside_gicd_def board_status_def and.assoc)
  qed (simp_all add: board_bus_def)
qed

interpretation board: a3700_hw "board_bus typer" typer "dist_regs \<circ> board_dist" "dist_routes \<circ> board_dist"
  "\<lambda>h. dist_ctlr (board_dist h) AND NOT GICD_CTLR_RWP_BIT" "dist_pend \<circ> board_dist" "0xd1d40000"
  for typer
  by (rule board_hw_ok) simp

end
