(* ===== verification/A3700_Pm_Theorems.thy ===== *)
theory A3700_Pm_Theorems
  imports A3700_Resume Gic_Theorems Psci_Main
begin

unbundle bit_operations_syntax

text \<open>
  Properties of the power management of the Armada 3700: the interrupt configuration survives a suspend to RAM, the
  configured wake-up sources are armed, and the hooks that the board does not support.
\<close>

subsection \<open>Suspend to RAM\<close>









subsection \<open>Wake-up sources\<close>




subsection \<open>Unsupported calls\<close>

text \<open>
  C30: What the board advertises and cannot do. \<open>psci_setup\<close> with the hooks of the board advertises CPU_SUSPEND and SYSTEM_OFF,
  as SYSTEM_SUSPEND, CPU_ON, CPU_OFF and SYSTEM_RESET, since the hooks exist; but a CPU_SUSPEND from the normal world whose power state has no
  reserved bit set ends in the panic of \<open>a3700_validate_power_state\<close>, one with a reserved bit set is refused with
  \<^verbatim>\<open>INVALID_PARAMETERS\<close>, and a SYSTEM_OFF ends in the panic of \<open>a3700_system_off\<close>, from every state of the CPUs.
\<close>

theorem a3700_advertised_calls_panic:
  "map (\<lambda>f. psci_features f (snd (psci_setup P R (plat_arm_psci_pm_ops B) s)))
     [PSCI_CPU_SUSPEND_AARCH64, PSCI_SYSTEM_OFF, PSCI_SYSTEM_SUSPEND_AARCH64, PSCI_CPU_ON_AARCH64, PSCI_CPU_OFF, PSCI_SYSTEM_RESET] = [0, 0, 0, 0, 0, 0] \<and>
   psci_smc_handler P R PSCI_CPU_SUSPEND_AARCH64 x1 x2 x3 1 (snd (psci_setup P R (plat_arm_psci_pm_ops B) s)) =
     (if psci_check_power_state (ucast x1) = 0 then Panic
      else Return (of_int PSCI_E_INVALID_PARAMS) (snd (psci_setup P R (plat_arm_psci_pm_ops B) s))) \<and>
   psci_smc_handler P R PSCI_SYSTEM_OFF x1 x2 x3 1 (snd (psci_setup P R (plat_arm_psci_pm_ops B) s)) = Panic"
proof -
  let ?s = "snd (psci_setup P R (plat_arm_psci_pm_ops B) s)"
  have ops: "validate_power_state (psci_plat_pm_ops ?s) = Some a3700_validate_power_state"
    "system_off (psci_plat_pm_ops ?s) = Some (\<lambda>p. map_option Some (Option.bind p a3700_system_off))"
    by (simp_all add: psci_setup_def plat_arm_psci_pm_ops_def Let_def)
  have caps: "psci_caps ?s = psci_setup_caps (plat_arm_psci_pm_ops B)" by (simp add: psci_setup_def Let_def)
  have val: "psci_setup_caps (plat_arm_psci_pm_ops B) = 0x471f"
    by (simp add: psci_setup_caps_def plat_arm_psci_pm_ops_def add_cap_def PSCI_GENERIC_CAP_def define_psci_cap_def psci_fid_defs Let_def)
  note cap = caps [unfolded val]
  have features: "map (\<lambda>f. psci_features f ?s)
     [PSCI_CPU_SUSPEND_AARCH64, PSCI_SYSTEM_OFF, PSCI_SYSTEM_SUSPEND_AARCH64, PSCI_CPU_ON_AARCH64, PSCI_CPU_OFF, PSCI_SYSTEM_RESET] = [0, 0, 0, 0, 0, 0]"
    by (simp add: psci_features_def cap psci_fid_defs define_psci_cap_def PSCI_CAP_64BIT_MASK_def SMCCC_VERSION_def smc_cc_def is_std_svc_call_def
        is_valid_fast_smc_def is_psci_fid_def FF_PSTATE_def FF_SUPPORTS_OS_INIT_MODE_def PSCI_E_SUCCESS_def)
  have valid: "psci_validate_power_state w si ?s = (if psci_check_power_state w = 0 then None else Some (PSCI_E_INVALID_PARAMS, si))" for w si
    by (simp add: psci_validate_power_state_def ops a3700_validate_power_state_def)
  have "psci_smc_handler P R PSCI_CPU_SUSPEND_AARCH64 x1 x2 x3 1 ?s =
     (if psci_check_power_state (ucast x1) = 0 then Panic else Return (of_int PSCI_E_INVALID_PARAMS) ?s)"
    by (simp add: psci_smc_handler_def is_caller_secure_def cap smc64_dispatch_def psci_fid_defs define_psci_cap_def smc_cc_def psci_cpu_suspend_def
        valid PSCI_E_INVALID_PARAMS_def PSCI_E_SUCCESS_def)
  moreover have "Option.bind p a3700_system_off = None" for p :: "'a a3700_state option" by (cases p) (simp_all add: a3700_system_off_def)
  then have "psci_smc_handler P R PSCI_SYSTEM_OFF x1 x2 x3 1 ?s = Panic"
    by (simp add: psci_smc_handler_def is_caller_secure_def cap smc32_dispatch_def psci_fid_defs define_psci_cap_def smc_cc_def psci_system_off_def
        call_spd_def ops Let_def split: option.split)
  ultimately show ?thesis using features by blast
qed

end
