(* ===== verification/Spec2Isabelle.thy ===== *)
theory Spec2Isabelle
  imports Bakery_Lock Psci_Theorems Xlat_Theorems A3700_Theorems Gic_Theorems A3700_Pm_Theorems
begin

text \<open>
  Verification of the boot firmware of the Armada 3700 in this repository.

  \<^bold>\<open>The program.\<close> \<^verbatim>\<open>src/atf-marvell\<close> is the Arm Trusted Firmware: BL31, which stays resident at EL3, answers the
  power state coordination calls (PSCI) of the operating system, drives the interrupt controller and sets up address
  decoding and its own translation tables. \<^verbatim>\<open>src/u-boot-marvell\<close> is the boot loader it starts,
  \<^verbatim>\<open>src/mv-ddr-marvell\<close> and \<^verbatim>\<open>src/A3700-utils-marvell\<close> set up the memory and build the images. The development is about the
  resident part and what it relies on.

  \<^bold>\<open>Conventions.\<close> Integers of the code are words of their width (\<open>u8\<close> to \<open>u64\<close> of \<open>Atf_Prelude\<close>), array indices and counters
  that cannot wrap are naturals. State is passed explicitly, in a record per component. A call that can fail to come back
  (a busy wait, a lock that is held, a panic, an access outside an array) has an option type and \<open>None\<close> is that case; loops
  over hardware are \<^verbatim>\<open>partial_function (option)\<close>, other loops are structural or have a termination proof, so no definition uses
  fuel. Error codes are the integers that the code returns. The build is the default one: assertions are
  disabled, \<^verbatim>\<open>INFO\<close> prints are compiled out, \<^verbatim>\<open>USE_COHERENT_MEM\<close> is 0. Barriers, cache and TLB maintenance have no effect on the values that
  the model has.

  \<^bold>\<open>Theories.\<close>
  \<^item> \<open>Atf_Prelude\<close>: types, lemmas on words, lists and options, reachability, and the locale \<open>inductive_invariant\<close> of a state
    machine with an invariant.
  \<^item> \<open>Bakery_Lock\<close> (\<^verbatim>\<open>lib/locks/bakery/bakery_lock_normal.c\<close>): the lock as a step relation of CPUs that read and write the shared
    ticket array one access at a time. Mutual exclusion, freedom from deadlock and first-come-first-served order for tickets that do not
    overflow, and a run in which the 15-bit ticket overflows.
  \<^item> \<open>Psci_Types\<close>, \<open>Psci_Common\<close>, \<open>Psci_Setup\<close>, \<open>Psci_Ops\<close>, \<open>Psci_Main\<close> (\<^verbatim>\<open>lib/psci/psci_common.c\<close>, \<^verbatim>\<open>psci_setup.c\<close>, \<^verbatim>\<open>psci_on.c\<close>,
    \<^verbatim>\<open>psci_off.c\<close>, \<^verbatim>\<open>psci_suspend.c\<close>, \<^verbatim>\<open>psci_system_off.c\<close>, \<^verbatim>\<open>psci_mem_protect.c\<close>, \<^verbatim>\<open>psci_main.c\<close>): the power domain tree, the per-CPU data,
    state coordination, validation, each PSCI call and the SMC dispatcher. The platform is a parameter: a record of hooks with a state of its own.
  \<^item> \<open>Marvell_Topology\<close> (\<^verbatim>\<open>plat/marvell/common/marvell_topology.c\<close>): the tree that the platform describes.
  \<^item> \<open>Psci_Coord\<close>, \<open>Psci_System\<close>, \<open>Psci_Theorems\<close>: laws of the coordination and the locks; the machine whose steps are SMC calls and warm
    boots of any CPU; the tree that the set-up builds, the invariant that every power domain above a running CPU runs, and the
    refinement of the SMC handler to an abstract machine of CPU states.
  \<^item> \<open>Xlat_Tables\<close>, \<open>Xlat_Regions\<close>, \<open>Xlat_Walk\<close>, \<open>Xlat_Build\<close>, \<open>Xlat_Theorems\<close> (\<^verbatim>\<open>lib/xlat_tables\<close>, \<^verbatim>\<open>marvell_common.c\<close>, \<^verbatim>\<open>a3700_common.c\<close>): the region
    array, the recursive construction of the tables, the walk of the hardware as a specification, and the refinement of the one
    to the other, for any regions and for those of BL31.
  \<^item> \<open>Mmio\<close> (\<^verbatim>\<open>include/lib/mmio.h\<close>): register accesses over a bus, a parameter. The locale \<open>storage_bus\<close> is the contract of plain registers,
    interpreted on memory.
  \<^item> \<open>A3700_Windows\<close>, \<open>A3700_Decode\<close>, \<open>A3700_Io\<close>, \<open>A3700_Theorems\<close> (\<^verbatim>\<open>marvell_ddr_info.c\<close>, \<^verbatim>\<open>dram_win.c\<close>, \<^verbatim>\<open>io_addr_dec.c\<close>, \<^verbatim>\<open>marvell_plat_config.c\<close>,
    \<^verbatim>\<open>plat_bl31_setup.c\<close>): the decode windows of the CPU and of the I/O units; which addresses reach the DRAM.
  \<^item> \<open>Gic_Regs\<close>, \<open>Gicv3\<close> (\<^verbatim>\<open>drivers/arm/gic/common\<close>, \<^verbatim>\<open>drivers/arm/gic/v3\<close>): the register accessors and the whole driver. \<open>Gic_Dist\<close>, \<open>Gic_Spi\<close>,
    \<open>Gic_Theorems\<close>: contracts of a Distributor (\<open>gicd_regs\<close>, \<open>gicd_writeback\<close>, \<open>gicd_exact\<close>), a model of one that satisfies them, saving and restoring, the
    refinement of the register operations to the state of one interrupt, initialisation, and the search for the Redistributors.
  \<^item> \<open>A3700_Pm\<close> (\<^verbatim>\<open>plat_pm.c\<close>, \<^verbatim>\<open>pm_src.c\<close>, \<^verbatim>\<open>marvell_pm.c\<close>, \<^verbatim>\<open>marvell_gicv3.c\<close>, \<^verbatim>\<open>marvell_cci.c\<close>, \<^verbatim>\<open>drivers/arm/cci\<close>): the power management hooks of the board.
    \<open>A3700_Frame\<close>, \<open>A3700_Resume\<close>, \<open>A3700_Pm_Theorems\<close>: the contract \<open>a3700_hw\<close> of the board, which extends \<open>gicd_exact\<close> by the registers around the
    Distributor, a board that satisfies it, the composition of suspend and resume with the interrupt controller, the interconnect and the address
    decoding, the wake-up sources, and the calls that end in a panic.

  \<^bold>\<open>Not modelled.\<close> Assembly (the entry points, context save and restore, cache maintenance), the console, the timers and the CPU
  specific reset code; \<^verbatim>\<open>lib/psci/psci_stat.c\<close> and \<^verbatim>\<open>lib/xlat_tables_v2\<close>, which the build of this platform does not use; BL1 and BL2 with the image loader
  and the authentication module; the other boards of \<^verbatim>\<open>plat/\<close>. Of U-Boot, of the DDR
  training and of the host tools nothing is modelled: they are driver code for devices whose behaviour is not in the sources, or
  run before and after the firmware that is verified here.
\<close>

end
